theory Spec2Isabelle
  imports Complex_Main
begin

section \<open>JavaScript strings and values\<close>

text \<open>
  Strings are byte strings: an ASCII character is one \<^typ>\<open>char\<close>, a character beyond
  ASCII is carried as its UTF-8 bytes.

  \<open>jsWhitespace\<close> lists the characters that \<open>String.prototype.trim\<close> removes and that
  \<open>\s\<close> matches in a regular expression, the white space and line terminators of
  ECMAScript, each as its UTF-8 bytes: U+0009 to U+000D, U+0020, U+00A0, U+1680,
  U+2000 to U+200A, U+2028, U+2029, U+202F, U+205F, U+3000 and U+FEFF.
\<close>

definition jsWhitespace :: "string list" where
  "jsWhitespace =
     [[CHR 0x09], [CHR 0x0A], [CHR 0x0B], [CHR 0x0C], [CHR 0x0D], [CHR 0x20],
      [CHR 0xC2, CHR 0xA0], [CHR 0xE1, CHR 0x9A, CHR 0x80], [CHR 0xE2, CHR 0x80, CHR 0x80],
      [CHR 0xE2, CHR 0x80, CHR 0x81], [CHR 0xE2, CHR 0x80, CHR 0x82], [CHR 0xE2, CHR 0x80, CHR 0x83],
      [CHR 0xE2, CHR 0x80, CHR 0x84], [CHR 0xE2, CHR 0x80, CHR 0x85], [CHR 0xE2, CHR 0x80, CHR 0x86],
      [CHR 0xE2, CHR 0x80, CHR 0x87], [CHR 0xE2, CHR 0x80, CHR 0x88], [CHR 0xE2, CHR 0x80, CHR 0x89],
      [CHR 0xE2, CHR 0x80, CHR 0x8A], [CHR 0xE2, CHR 0x80, CHR 0xA8], [CHR 0xE2, CHR 0x80, CHR 0xA9],
      [CHR 0xE2, CHR 0x80, CHR 0xAF], [CHR 0xE2, CHR 0x81, CHR 0x9F], [CHR 0xE3, CHR 0x80, CHR 0x80],
      [CHR 0xEF, CHR 0xBB, CHR 0xBF]]"

text \<open>
  The number of bytes of the first of the given byte sequences that the string starts
  with, 0 when it starts with none of them.
\<close>

definition leadingLength :: "string list \<Rightarrow> string \<Rightarrow> nat" where
  "leadingLength pats s =
     (case filter (\<lambda>p. take (length p) s = p) pats of [] \<Rightarrow> 0 | p # ps \<Rightarrow> length p)"

function stripLeading :: "string list \<Rightarrow> string \<Rightarrow> string" where
  "stripLeading pats s =
     (if leadingLength pats s = 0 then s
      else stripLeading pats (drop (leadingLength pats s) s))"
  by pat_completeness auto
termination
proof (relation "measure (\<lambda>(pats, s). length s)")
  show "wf (measure (\<lambda>(pats, s). length s))" by simp
next
  fix pats :: "string list" and s :: string
  assume n: "leadingLength pats s \<noteq> 0"
  have "s \<noteq> []"
  proof
    assume e: "s = []"
    have "leadingLength pats [] = 0"
    proof (cases "filter (\<lambda>p. take (length p) [] = p) pats")
      case Nil
      then show ?thesis by (simp add: leadingLength_def)
    next
      case (Cons p ps)
      then have "p \<in> set (filter (\<lambda>p. take (length p) [] = p) pats)" by simp
      then have "p = []" by simp
      with Cons show ?thesis by (simp add: leadingLength_def)
    qed
    with n e show False by simp
  qed
  with n show "((pats, drop (leadingLength pats s) s), (pats, s)) \<in> measure (\<lambda>(pats, s). length s)"
    by simp
qed

declare stripLeading.simps [simp del]

text \<open>
  \<open>String.prototype.trim\<close>: the white space at the start is removed, then the white
  space at the end, found as the reversed byte sequences at the start of the reversed
  string.
\<close>

definition trim :: "string \<Rightarrow> string" where
  "trim s = rev (stripLeading (map rev jsWhitespace) (rev (stripLeading jsWhitespace s)))"

text \<open>
  \<open>String.prototype.toLowerCase\<close>, for the two scripts of the words that the bot compares
  a lower-cased message with: \<open>toLowerCase\<close> maps the capital letters of ASCII and those
  of the Cyrillic block, U+0400 to U+042F (in UTF-8 the byte D0 followed by a byte from 80
  to AF), to their small letters (U+0450 to U+045F for U+0400 to U+040F, U+0430 to U+044F
  for U+0410 to U+042F), and leaves every other character as it is. The characters that
  JavaScript lower-cases to a letter of \<open>yes\<close>, \<open>y\<close>, \<open>no\<close>, \<open>n\<close> or of their Russian
  counterparts are those letters and their capitals, so the comparison of a lower-cased
  message with these words comes out as in JavaScript for every message. The nickname
  match of the sheet, which compares lower-cased strings of any script, takes its
  lower-casing function as an argument, so that what is proved of it holds for every
  such function. \<open>toUpperCase\<close> is applied to one or two ASCII letters only.
\<close>

definition isUpper :: "char \<Rightarrow> bool" where
  "isUpper c = ((65::nat) \<le> of_char c \<and> (of_char c::nat) \<le> 90)"

definition isLower :: "char \<Rightarrow> bool" where
  "isLower c = ((97::nat) \<le> of_char c \<and> (of_char c::nat) \<le> 122)"

definition lowerChar :: "char \<Rightarrow> char" where
  "lowerChar c = (if isUpper c then char_of (of_char c + (32::nat)) else c)"

definition upperChar :: "char \<Rightarrow> char" where
  "upperChar c = (if isLower c then char_of (of_char c - (32::nat)) else c)"

text \<open>The second byte of a Cyrillic capital letter, and the two bytes of its small letter.\<close>

definition isCyrillicUpper :: "char \<Rightarrow> bool" where
  "isCyrillicUpper d = ((128::nat) \<le> of_char d \<and> (of_char d::nat) \<le> 175)"

definition lowerCyrillic :: "char \<Rightarrow> string" where
  "lowerCyrillic d =
     (if (of_char d::nat) < 144 then [CHR 0xD1, char_of (of_char d + (16::nat))]
      else if (of_char d::nat) < 160 then [CHR 0xD0, char_of (of_char d + (32::nat))]
      else [CHR 0xD1, char_of (of_char d - (32::nat))])"

fun toLowerCase :: "string \<Rightarrow> string" where
  "toLowerCase [] = []"
| "toLowerCase [c] = [lowerChar c]"
| "toLowerCase (c # d # s) =
     (if c = CHR 0xD0 \<and> isCyrillicUpper d then lowerCyrillic d @ toLowerCase s
      else lowerChar c # toLowerCase (d # s))"

definition toUpperCase :: "string \<Rightarrow> string" where
  "toUpperCase s = map upperChar s"

text \<open>
  A cell of a range read from the sheet. The reads use the API's default rendering,
  which returns every cell as formatted text; \<open>CNull\<close> and \<open>CUndefined\<close> are the two
  JavaScript non-values the code guards against (\<open>CUndefined\<close> is also what an
  out-of-range array read yields).
\<close>

datatype cell = CUndefined | CNull | CStr string

text \<open>\<open>String(v)\<close>\<close>

fun String_of :: "cell \<Rightarrow> string" where
  "String_of CUndefined = ''undefined''"
| "String_of CNull = ''null''"
| "String_of (CStr s) = s"

text \<open>\<open>xs[i]\<close> for a JavaScript number \<open>i\<close>: out of range reads are \<open>undefined\<close>.\<close>

definition cellAt :: "cell list \<Rightarrow> int \<Rightarrow> cell" where
  "cellAt xs i = (if 0 \<le> i \<and> i < int (length xs) then xs ! nat i else CUndefined)"

section \<open>Column letters (sheets.ts)\<close>

definition SHEET_DATA_FIRST_ROW :: nat where "SHEET_DATA_FIRST_ROW = 7"
definition SHEET_DATA_FIRST_COLUMN :: string where "SHEET_DATA_FIRST_COLUMN = ''F''"
definition SHEET_NICKNAME_COLUMN :: string where "SHEET_NICKNAME_COLUMN = ''B''"
definition SHEET_NAME :: string where "SHEET_NAME = ''Sheet1''"
definition SHEET_DATE_ROW :: nat where "SHEET_DATE_ROW = 1"
definition SHEET_COST_ROW :: nat where "SHEET_COST_ROW = 2"
definition SHEET_PLAYER_COUNT_ROW :: nat where "SHEET_PLAYER_COUNT_ROW = 3"

text \<open>
  \<open>columnLetterToIndex\<close>: the loop \<open>index = index * 26 + (letter.charCodeAt(i) - 64)\<close>
  over the characters from the left, then \<open>index - 1\<close>.
\<close>

definition columnLetterToIndex :: "string \<Rightarrow> int" where
  "columnLetterToIndex letter = foldl (\<lambda>index c. index * 26 + (of_char c - 64)) 0 letter - 1"

text \<open>
  \<open>indexToColumnLetter\<close>: \<open>index++\<close>, then while \<open>index > 0\<close>: \<open>index--\<close>, prepend
  \<open>String.fromCharCode(65 + index % 26)\<close>, \<open>index = Math.floor(index / 26)\<close>.
\<close>

function indexToColumnLetter_loop :: "int \<Rightarrow> string \<Rightarrow> string" where
  "indexToColumnLetter_loop index result =
     (if index > 0
      then indexToColumnLetter_loop ((index - 1) div 26) (char_of (65 + (index - 1) mod 26) # result)
      else result)"
  by pat_completeness auto
termination
  by (relation "measure (\<lambda>(index, result). nat index)") auto

declare indexToColumnLetter_loop.simps [simp del]

definition indexToColumnLetter :: "int \<Rightarrow> string" where
  "indexToColumnLetter index = indexToColumnLetter_loop (index + 1) []"

definition getNextColumnLetter :: "string \<Rightarrow> string" where
  "getNextColumnLetter letter = indexToColumnLetter (columnLetterToIndex letter + 1)"

subsection \<open>The successor as the specification words it\<close>

text \<open>
  Base 26 with the digits \<open>A\<close> (one) to \<open>Z\<close> (twenty-six) and no digit zero: the
  successor raises the last letter, and a \<open>Z\<close> becomes \<open>A\<close> with a carry into the
  letters before it; a carry out of the first letter prepends an \<open>A\<close>.
  \<open>succ_letters\<close> works on the letters last to first.
\<close>

definition isColumnLetters :: "string \<Rightarrow> bool" where
  "isColumnLetters s = list_all isUpper s"

fun succ_letters :: "string \<Rightarrow> string" where
  "succ_letters [] = ''A''"
| "succ_letters (c # cs) =
     (if c = CHR ''Z'' then CHR ''A'' # succ_letters cs else char_of (of_char c + (1::nat)) # cs)"

definition nextColumn_spec :: "string \<Rightarrow> string" where
  "nextColumn_spec s = rev (succ_letters (rev s))"

text \<open>The value of a letter string, letters last to first.\<close>

fun letters_value :: "string \<Rightarrow> int" where
  "letters_value [] = 0"
| "letters_value (c # cs) = (of_char c - 64) + 26 * letters_value cs"

section \<open>Reading the sheet (sheets.ts)\<close>

text \<open>
  A JavaScript \<open>Map\<close> keeps its keys in insertion order: it is an association list with
  distinct keys. \<open>mapSet\<close> is \<open>Map.prototype.set\<close> (a key already present keeps its
  place), \<open>map_of\<close> is \<open>Map.prototype.get\<close>.
\<close>

fun mapSet :: "'k \<Rightarrow> 'v \<Rightarrow> ('k \<times> 'v) list \<Rightarrow> ('k \<times> 'v) list" where
  "mapSet k v [] = [(k, v)]"
| "mapSet k v (p # ps) = (if fst p = k then (k, v) # ps else p # mapSet k v ps)"

text \<open>The truth value of a cell: \<open>undefined\<close>, \<open>null\<close> and the empty string are falsy.\<close>

fun truthy :: "cell \<Rightarrow> bool" where
  "truthy (CStr s) = (s \<noteq> [])"
| "truthy _ = False"

text \<open>\<open>v == null || v === undefined || String(v).trim() === ''\<close>\<close>

fun isBlankCell :: "cell \<Rightarrow> bool" where
  "isBlankCell CUndefined = True"
| "isBlankCell CNull = True"
| "isBlankCell (CStr s) = (trim s = [])"

text \<open>The value \<open>{ column, date }\<close> that \<open>findLastDateColumn\<close> returns.\<close>

record dateColumn =
  dcColumn :: string
  dcDate :: string

text \<open>\<open>response.data.values?.[0] || []\<close>: the first row of a grid that may be absent.\<close>

fun firstRow :: "cell list list option \<Rightarrow> cell list" where
  "firstRow None = []"
| "firstRow (Some []) = []"
| "firstRow (Some (r # rs)) = r"

text \<open>
  The scan of \<open>findLastDateColumn\<close> over the header values read from the first data
  column on: at the first blank cell, at index \<open>i\<close>, it returns the column of index
  \<open>i - 1\<close> with the value there, and stops; with no blank cell it returns \<open>null\<close>.
\<close>

function findLastDateColumn_loop :: "cell list \<Rightarrow> nat \<Rightarrow> dateColumn option" where
  "findLastDateColumn_loop vals i =
     (if i < length vals
      then (if isBlankCell (vals ! i)
            then Some \<lparr>dcColumn = indexToColumnLetter
                                   (columnLetterToIndex SHEET_DATA_FIRST_COLUMN + (int i - 1)),
                       dcDate = trim (String_of (cellAt vals (int i - 1)))\<rparr>
            else findLastDateColumn_loop vals (i + 1))
      else None)"
  by pat_completeness auto
termination
  by (relation "measure (\<lambda>(vals, i). length vals - i)") auto

declare findLastDateColumn_loop.simps [simp del]

definition findLastDateColumn_scan :: "cell list list option \<Rightarrow> dateColumn option" where
  "findLastDateColumn_scan grid = findLastDateColumn_loop (firstRow grid) 0"

text \<open>
  \<open>nick.replace(/^@/, '').toLowerCase()\<close>: one leading marker is removed, then the
  string is lower-cased. \<open>lower\<close> stands for \<open>String.prototype.toLowerCase\<close>, which maps
  the letters of every script: the match is written for any lower-casing function, and
  the engine's call passes \<open>toLowerCase\<close>.
\<close>

fun stripAt :: "string \<Rightarrow> string" where
  "stripAt [] = []"
| "stripAt (c # cs) = (if c = CHR ''@'' then cs else c # cs)"

definition normalizeNickname :: "(string \<Rightarrow> string) \<Rightarrow> string \<Rightarrow> string" where
  "normalizeNickname lower nick = lower (stripAt nick)"

text \<open>
  \<open>findNicknameRows\<close>: the map from normalized to original nickname, then one pass over
  the rows read from the nickname column; a row whose first cell is truthy and whose
  normalized text is a key of the map sets the original nickname to its row number.
\<close>

definition normalizedNicknames :: "(string \<Rightarrow> string) \<Rightarrow> string list \<Rightarrow> (string \<times> string) list" where
  "normalizedNicknames lower nicknames =
     foldl (\<lambda>m nick. mapSet (normalizeNickname lower nick) nick m) [] nicknames"

definition findNicknameRows_row ::
  "(string \<Rightarrow> string) \<Rightarrow> (string \<times> string) list \<Rightarrow> (string \<times> nat) list \<Rightarrow> nat \<times> cell list
     \<Rightarrow> (string \<times> nat) list" where
  "findNicknameRows_row lower normalized nicknameToRow ir =
     (case ir of (index, row) \<Rightarrow>
        if truthy (cellAt row 0)
        then (case map_of normalized (normalizeNickname lower (String_of (cellAt row 0))) of
                None \<Rightarrow> nicknameToRow
              | Some originalNickname \<Rightarrow>
                  if originalNickname \<noteq> []
                  then mapSet originalNickname (SHEET_DATA_FIRST_ROW + index) nicknameToRow
                  else nicknameToRow)
        else nicknameToRow)"

text \<open>\<open>response.data.values || []\<close>\<close>

fun gridRows :: "cell list list option \<Rightarrow> cell list list" where
  "gridRows None = []"
| "gridRows (Some rows) = rows"

definition findNicknameRows_match ::
  "(string \<Rightarrow> string) \<Rightarrow> string list \<Rightarrow> cell list list option \<Rightarrow> (string \<times> nat) list" where
  "findNicknameRows_match lower nicknames grid =
     foldl (findNicknameRows_row lower (normalizedNicknames lower nicknames)) []
       (enumerate 0 (gridRows grid))"

section \<open>Poll votes (poll.ts)\<close>

text \<open>
  A JavaScript \<open>Set\<close> of strings keeps insertion order: a list without repetition, with
  \<open>setAdd\<close> for \<open>add\<close> and \<open>removeAll\<close> for \<open>delete\<close>.
\<close>

definition setAdd :: "string \<Rightarrow> string list \<Rightarrow> string list" where
  "setAdd u voters = (if u \<in> set voters then voters else voters @ [u])"

record pollData =
  question :: string
  options :: "string list"
  votes :: "(nat \<times> string list) list"

record tgUser =
  username :: "string option"

record pollAnswer =
  poll_id :: string
  user :: "tgUser option"
  option_ids :: "nat list"

text \<open>\<open>pollData.votes.get(index) || new Set()\<close>\<close>

definition votersFor :: "(nat \<times> string list) list \<Rightarrow> nat \<Rightarrow> string list" where
  "votersFor vs optionIndex = (case map_of vs optionIndex of None \<Rightarrow> [] | Some voters \<Rightarrow> voters)"

text \<open>The first loop of the handler: \<open>voters.delete(usernameWithAt)\<close> in every option.\<close>

definition removeFromAll :: "string \<Rightarrow> (nat \<times> string list) list \<Rightarrow> (nat \<times> string list) list" where
  "removeFromAll u vs = map (\<lambda>(optionId, voters). (optionId, removeAll u voters)) vs"

text \<open>
  One step of the second loop: a missing option gets an empty set first, then the voter
  is added to the option's set.
\<close>

definition addToOption :: "string \<Rightarrow> (nat \<times> string list) list \<Rightarrow> nat \<Rightarrow> (nat \<times> string list) list" where
  "addToOption u vs optionId =
     (let vs1 = (if map_of vs optionId = None then mapSet optionId [] vs else vs)
      in case map_of vs1 optionId of
           None \<Rightarrow> vs1
         | Some voters \<Rightarrow> mapSet optionId (setAdd u voters) vs1)"

text \<open>
  The \<open>/poll\<close> command: after \<open>sendPoll(chat, question, options, { is_anonymous: false })\<close>
  it registers the poll under the id that Telegram returned, with no votes:
  \<open>activePolls.set(pollId, { question, options, votes: new Map() })\<close>. The poll is created
  without \<open>allows_multiple_answers\<close>, so Telegram accepts one option per voter and a
  \<open>poll_answer\<close> for it carries one option index, or none when the vote is retracted.
\<close>

definition registerPoll ::
  "string \<Rightarrow> string \<Rightarrow> string list \<Rightarrow> (string \<times> pollData) list \<Rightarrow> (string \<times> pollData) list" where
  "registerPoll pollId q opts activePolls =
     mapSet pollId \<lparr>question = q, options = opts, votes = []\<rparr> activePolls"

text \<open>
  The \<open>poll_answer\<close> handler on the registry \<open>activePolls\<close>, a \<open>Map\<close> from poll id to
  poll data. It returns at once when the update has no poll answer, the poll is not
  tracked, or the voter has no user name; otherwise it changes the sets of the poll's
  own \<open>votes\<close> in place.
\<close>

definition onPollAnswer :: "pollAnswer option \<Rightarrow> (string \<times> pollData) list \<Rightarrow> (string \<times> pollData) list" where
  "onPollAnswer pa activePolls =
     (case pa of
        None \<Rightarrow> activePolls
      | Some pollAnswer \<Rightarrow>
         (case map_of activePolls (poll_id pollAnswer) of
            None \<Rightarrow> activePolls
          | Some pd \<Rightarrow>
             (case user pollAnswer of
                None \<Rightarrow> activePolls
              | Some usr \<Rightarrow>
                 (case username usr of
                    None \<Rightarrow> activePolls
                  | Some name \<Rightarrow>
                     if name = [] then activePolls
                     else let usernameWithAt = CHR ''@'' # name;
                              removed = removeFromAll usernameWithAt (votes pd)
                          in mapSet (poll_id pollAnswer)
                               (pd\<lparr>votes := foldl (addToOption usernameWithAt) removed
                                                 (option_ids pollAnswer)\<rparr>)
                               activePolls))))"

text \<open>A run of the handler over the answers as they arrive.\<close>

definition onPollAnswers :: "pollAnswer list \<Rightarrow> (string \<times> pollData) list \<Rightarrow> (string \<times> pollData) list" where
  "onPollAnswers answers activePolls = foldl (\<lambda>polls a. onPollAnswer (Some a) polls) activePolls answers"

text \<open>The votes of a poll of the registry; no votes for a poll that is not tracked.\<close>

definition pollVotes :: "(string \<times> pollData) list \<Rightarrow> string \<Rightarrow> (nat \<times> string list) list" where
  "pollVotes activePolls pollId = (case map_of activePolls pollId of None \<Rightarrow> [] | Some pd \<Rightarrow> votes pd)"

text \<open>No identity is in the sets of two different options.\<close>

definition exclusive :: "(nat \<times> string list) list \<Rightarrow> bool" where
  "exclusive vs = (\<forall>u i j. u \<in> set (votersFor vs i) \<and> u \<in> set (votersFor vs j) \<longrightarrow> i = j)"

text \<open>
  The result of a match with every key replaced by the caller's string \<open>a\<close>: what is
  left to compare when two spellings of one identity are matched.
\<close>

definition rekey :: "string \<Rightarrow> (string \<times> nat) list \<Rightarrow> (string \<times> nat) list" where
  "rekey a m = map (\<lambda>p. (a, snd p)) m"

text \<open>
  The specification's normalization, independent of the code above: \<open>withoutMarker\<close>
  strips the leading marker \<open>@\<close>, and two strings name the same identity when they are
  equal after stripping the leading marker and lower-casing on both sides.
\<close>

definition withoutMarker :: "string \<Rightarrow> string" where
  "withoutMarker x = (if x \<noteq> [] \<and> hd x = CHR ''@'' then tl x else x)"

definition sameIdentity :: "(string \<Rightarrow> string) \<Rightarrow> string \<Rightarrow> string \<Rightarrow> bool" where
  "sameIdentity lower a b = (lower (withoutMarker a) = lower (withoutMarker b))"

text \<open>
  Row \<open>r\<close> of the sheet matches the identity \<open>k\<close>: it is row \<open>7 + index\<close> for the index of
  a row of the range whose cell in the nickname column is not empty and names the same
  identity as \<open>k\<close>.
\<close>

definition matchedAt :: "(string \<Rightarrow> string) \<Rightarrow> cell list list \<Rightarrow> string \<Rightarrow> nat \<Rightarrow> bool" where
  "matchedAt lower rows k r =
     (\<exists>index < length rows. r = 7 + index
        \<and> truthy (cellAt (rows ! index) 0)
        \<and> sameIdentity lower (String_of (cellAt (rows ! index) 0)) k)"

section \<open>Session, replies and the backing store\<close>

text \<open>
  The states a session can be in (session.ts); \<open>awaiting_column_selection\<close> is the state
  the later revision of the column handlers adds for two or more columns found by text.
\<close>

datatype (plugins only: code) sessionState =
    idle
  | awaiting_column_confirmation
  | awaiting_new_column_choice
  | awaiting_column_selection
  | awaiting_date_name
  | awaiting_cost
  | awaiting_player_count
  | awaiting_player_count_confirmation
  | awaiting_usernames
  | awaiting_override_confirmation
  | awaiting_poll_intent
  | awaiting_poll_option_selection

text \<open>\<open>{ nickname, value }\<close>: a matched identity whose target cell is occupied.\<close>

record existingValue =
  nickname :: string
  cellValue :: cell

text \<open>
  \<open>SessionData\<close>. An optional field is \<open>None\<close> when \<open>undefined\<close>. Numbers are the
  mathematical values (a cost is a rational, a count an integer); rounding to a double is
  outside the model.
\<close>

record session =
  state :: sessionState
  usernames :: "string list"
  detectedColumn :: "string option"
  targetColumn :: "string option"
  isNewColumn :: "bool option"
  dateName :: "string option"
  cost :: "rat option"
  playerCount :: "int option"
  column :: "string option"
  nicknameRowsEntries :: "(string \<times> nat) list option"
  existingValuesEntries :: "existingValue list option"
  pollId :: "string option"
  pollQuestion :: "string option"

text \<open>
  \<open>resetSession\<close> assigns every field that session.ts declares. It is written for a
  session with further fields as well, which it leaves alone, as the assignments do.
\<close>

definition resetSession :: "'x session_scheme \<Rightarrow> 'x session_scheme" where
  "resetSession s = s\<lparr>state := idle, usernames := [], detectedColumn := None,
     targetColumn := None, isNewColumn := None, dateName := None, cost := None,
     playerCount := None, column := None, nicknameRowsEntries := None,
     existingValuesEntries := None, pollId := None, pollQuestion := None\<rparr>"

text \<open>The session as the session middleware creates it (index.ts).\<close>

definition initialSession :: session where
  "initialSession = \<lparr>state = idle, usernames = [], detectedColumn = None,
     targetColumn = None, isNewColumn = None, dateName = None, cost = None,
     playerCount = None, column = None, nicknameRowsEntries = None,
     existingValuesEntries = None, pollId = None, pollQuestion = None\<rparr>"

text \<open>Every declared field is at its default.\<close>

definition cleared :: "'x session_scheme \<Rightarrow> bool" where
  "cleared s = (state s = idle \<and> usernames s = [] \<and> detectedColumn s = None
     \<and> targetColumn s = None \<and> isNewColumn s = None \<and> dateName s = None \<and> cost s = None
     \<and> playerCount s = None \<and> column s = None \<and> nicknameRowsEntries s = None
     \<and> existingValuesEntries s = None \<and> pollId s = None \<and> pollQuestion s = None)"

text \<open>
  \<open>new Map(entries)\<close>, and the truth value of an optional string (\<open>undefined\<close> and the
  empty string are falsy) as the value itself, \<open>None\<close> when falsy.
\<close>

definition mapFromEntries :: "('k \<times> 'v) list \<Rightarrow> ('k \<times> 'v) list" where
  "mapFromEntries entries = foldl (\<lambda>m kv. mapSet (fst kv) (snd kv) m) [] entries"

fun nonEmpty :: "string option \<Rightarrow> string option" where
  "nonEmpty None = None"
| "nonEmpty (Some s) = (if s = [] then None else Some s)"

text \<open>A thrown JavaScript value: an \<open>Error\<close> with its message, or anything else.\<close>

datatype thrown = JsError string | JsOther

text \<open>\<open>error instanceof Error ? error.message : 'Unknown error'\<close>\<close>

fun errorDescription :: "thrown \<Rightarrow> string" where
  "errorDescription (JsError message) = message"
| "errorDescription JsOther = ''Unknown error''"

text \<open>The result of the search of a column by date text, as its caller reads it.\<close>

datatype columnSearch =
    SearchNotFound
  | SearchFailed
  | SearchMultiple "dateColumn list"
  | SearchSingle string
  | SearchOther

text \<open>
  The messages the bot sends. Each constructor stands for one message text of the
  source and carries the values that the text interpolates.
\<close>

datatype (plugins only: code) reply =
    DetectingLastDateColumn
  | NoDateColumnsFound string
  | DetectedColumn string string
  | ExistingValuesWarning string "existingValue list"
  | UpdatingSheet
  | UpdateResult string nat "string list" "string list" "string list"
  | MissingUsernamesOrColumn
  | CheckingSheet
  | NoMatchesFound "string list"
  | PlayerCountQuestion nat
  | NoDateName string
  | NoCostSpecified string
  | MetadataSummary string "string option" "rat option" "int option"
  | ApiError string string bool
  | ErrTargetColumnNotSet
  | ErrSessionDataLost
  | ErrInvalidYesNo
  | PollDataLost
  | PollDataNotFound
  | CreateNewColumnQuestion string
  | AskDateName string
  | OperationCancelled
  | OperationAborted
  | PleaseProvideDateName
  | InvalidCost
  | NoColumnWithDateText string
  | MultipleColumnsFound string "dateColumn list"
  | YesNoOrColumnHint
  | InvalidSelection nat
  | ColumnNotInList string
  | ChooseColumn nat
  | FailedToRecognizeUsernames
  | HowManyPlayers
  | InvalidPlayerCount
  | PollNotMine
  | PollMenu string "(string \<times> nat) list"
  | WhichOption "(string \<times> nat) list"
  | PollVoters string "(string \<times> string list) list"
  | PollIntentHelp
  | InvalidOptionNumberFormat
  | InvalidOptionNumber nat
  | NoVotersForOption
  | SelectedOption string "string list"
  | UseStart

text \<open>A value written to a cell: text or a number.\<close>

datatype written = WStr string | WNum rat

text \<open>
  The backing store is outside the program. A call is a request; the store answers it
  or the call throws. The world holds the answers the store is going to give to the
  coming calls, in order (\<open>pending\<close>), the calls made so far with the answer each one
  got (\<open>calls\<close>), the messages sent (\<open>outbox\<close>) and the registry of polls. Quantifying
  over \<open>pending\<close> covers every behaviour of the store. A call that finds no answer left,
  or an answer of another kind than it asked for, throws.
\<close>

datatype request =
    InitSheetsClient
  | ValuesGet string
  | ValuesBatchGet "string list"
  | ValuesBatchUpdate "(string \<times> written) list"
  | FindColumnByDateText string

datatype response =
    Throws thrown
  | ClientReady
  | Values "cell list list option"
  | ValueRanges "cell list list option list option"
  | Updated
  | Search columnSearch

record world =
  pending :: "response list"
  calls :: "(request \<times> response) list"
  outbox :: "reply list"
  activePolls :: "(string \<times> pollData) list"

text \<open>The answer is of the kind the request asks for.\<close>

fun isAnswerTo :: "request \<Rightarrow> response \<Rightarrow> bool" where
  "isAnswerTo InitSheetsClient ClientReady = True"
| "isAnswerTo (ValuesGet r) (Values g) = True"
| "isAnswerTo (ValuesBatchGet rs) (ValueRanges vs) = True"
| "isAnswerTo (ValuesBatchUpdate us) Updated = True"
| "isAnswerTo (FindColumnByDateText t) (Search c) = True"
| "isAnswerTo _ _ = False"

text \<open>The call failed: it threw instead of returning an answer.\<close>

definition failed :: "request \<times> response \<Rightarrow> bool" where
  "failed c = (\<not> isAnswerTo (fst c) (snd c))"

text \<open>What a failed call throws.\<close>

fun thrownBy :: "response \<Rightarrow> thrown" where
  "thrownBy (Throws e) = e"
| "thrownBy _ = JsOther"

subsection \<open>Computations\<close>

text \<open>
  An \<open>async\<close> function of the bot is a function from the session and the world to a
  result, a value or a thrown exception (\<open>Inl\<close>), and the session and the world after
  it: assignments to the session made before a \<open>throw\<close> stay.
\<close>

type_synonym ('s, 'a) io = "'s \<times> world \<Rightarrow> (thrown + 'a) \<times> 's \<times> world"

definition ret :: "'a \<Rightarrow> ('s, 'a) io" where
  "ret x = (\<lambda>st. (Inr x, st))"

definition throw :: "thrown \<Rightarrow> ('s, 'a) io" where
  "throw e = (\<lambda>st. (Inl e, st))"

text \<open>\<open>x = await m; f(x)\<close>\<close>

definition andThen :: "('s, 'a) io \<Rightarrow> ('a \<Rightarrow> ('s, 'b) io) \<Rightarrow> ('s, 'b) io" where
  "andThen m f = (\<lambda>st. case m st of (Inl e, st') \<Rightarrow> (Inl e, st') | (Inr x, st') \<Rightarrow> f x st')"

text \<open>\<open>await m; n\<close>\<close>

definition thenDo :: "('s, 'a) io \<Rightarrow> ('s, 'b) io \<Rightarrow> ('s, 'b) io" where
  "thenDo m n = andThen m (\<lambda>x. n)"

text \<open>\<open>try { m } catch (error) { h(error) }\<close>\<close>

definition tryCatch :: "('s, 'a) io \<Rightarrow> (thrown \<Rightarrow> ('s, 'a) io) \<Rightarrow> ('s, 'a) io" where
  "tryCatch m h = (\<lambda>st. case m st of (Inl e, st') \<Rightarrow> h e st' | (Inr x, st') \<Rightarrow> (Inr x, st'))"

text \<open>\<open>try { x = m } catch (error) { h(error); return }\<close> followed by \<open>k(x)\<close> outside the \<open>try\<close>.\<close>

definition tryElse :: "('s, 'a) io \<Rightarrow> (thrown \<Rightarrow> ('s, 'b) io) \<Rightarrow> ('a \<Rightarrow> ('s, 'b) io) \<Rightarrow> ('s, 'b) io" where
  "tryElse m h k = (\<lambda>st. case m st of (Inl e, st') \<Rightarrow> h e st' | (Inr x, st') \<Rightarrow> k x st')"

text \<open>Reading the session, assigning to it, sending a message, reading the registry.\<close>

definition withSession :: "('s \<Rightarrow> ('s, 'a) io) \<Rightarrow> ('s, 'a) io" where
  "withSession f = (\<lambda>st. f (fst st) st)"

definition setSession :: "('s \<Rightarrow> 's) \<Rightarrow> ('s, unit) io" where
  "setSession f = (\<lambda>st. (Inr (), f (fst st), snd st))"

definition sendReply :: "reply \<Rightarrow> ('s, unit) io" where
  "sendReply r = (\<lambda>st. (Inr (), fst st, (snd st)\<lparr>outbox := outbox (snd st) @ [r]\<rparr>))"

definition withPolls :: "((string \<times> pollData) list \<Rightarrow> ('s, 'a) io) \<Rightarrow> ('s, 'a) io" where
  "withPolls f = (\<lambda>st. f (activePolls (snd st)) st)"

text \<open>One call to the store: the next pending answer is taken and the call is recorded.\<close>

definition nextResponse :: "world \<Rightarrow> response" where
  "nextResponse w = (case pending w of [] \<Rightarrow> Throws (JsError ''no response'') | r # rs \<Rightarrow> r)"

definition callStore :: "request \<Rightarrow> ('s, response) io" where
  "callStore req =
     (\<lambda>st. let w = snd st; r = nextResponse w
            in ((if isAnswerTo req r then Inr r else Inl (thrownBy r)),
                fst st, w\<lparr>pending := tl (pending w), calls := calls w @ [(req, r)]\<rparr>))"

definition initSheetsClient :: "('s, unit) io" where
  "initSheetsClient = andThen (callStore InitSheetsClient) (\<lambda>r. ret ())"

definition valuesGet :: "string \<Rightarrow> ('s, cell list list option) io" where
  "valuesGet a1 =
     andThen (callStore (ValuesGet a1))
       (\<lambda>r. case r of Values g \<Rightarrow> ret g | _ \<Rightarrow> throw JsOther)"

definition valuesBatchGet :: "string list \<Rightarrow> ('s, cell list list option list option) io" where
  "valuesBatchGet ranges =
     andThen (callStore (ValuesBatchGet ranges))
       (\<lambda>r. case r of ValueRanges vs \<Rightarrow> ret vs | _ \<Rightarrow> throw JsOther)"

definition valuesBatchUpdate :: "(string \<times> written) list \<Rightarrow> ('s, unit) io" where
  "valuesBatchUpdate updates = andThen (callStore (ValuesBatchUpdate updates)) (\<lambda>r. ret ())"

text \<open>
  The search of a column by date text belongs to the sheets client of the later
  revision; its code is not part of the sources at hand, so it is a call like the others.
\<close>

definition findColumnByDateText :: "string \<Rightarrow> ('s, columnSearch) io" where
  "findColumnByDateText t =
     andThen (callStore (FindColumnByDateText t))
       (\<lambda>r. case r of Search c \<Rightarrow> ret c | _ \<Rightarrow> throw JsOther)"

text \<open>
  \<open>parseFloat\<close> and \<open>parseInt(_, 10)\<close> are functions of the JavaScript library; the bot
  is modelled for any pair of them. \<open>None\<close> is \<open>NaN\<close>.
\<close>

record jslib =
  parseFloat :: "string \<Rightarrow> rat option"
  parseInt :: "string \<Rightarrow> int option"

text \<open>A library that finds no number in any text (for examples that parse none).\<close>

definition noNumbers :: jslib where
  "noNumbers = \<lparr>parseFloat = (\<lambda>t. None), parseInt = (\<lambda>t. None)\<rparr>"

section \<open>The sheets client (sheets.ts)\<close>

text \<open>The decimal digits of a row number, and the A1 notation of a cell of the sheet.\<close>

function showNat :: "nat \<Rightarrow> string" where
  "showNat n = (if n < 10 then [char_of (48 + n)] else showNat (n div 10) @ [char_of (48 + n mod 10)])"
  by pat_completeness auto
termination
  by (relation "measure (\<lambda>n. n)") auto

declare showNat.simps [simp del]

definition cellRef :: "string \<Rightarrow> nat \<Rightarrow> string" where
  "cellRef col row = [CHR 0x27] @ SHEET_NAME @ [CHR 0x27] @ ''!'' @ col @ showNat row"

definition findLastDateColumn :: "('s, dateColumn option) io" where
  "findLastDateColumn =
     andThen (valuesGet (cellRef SHEET_DATA_FIRST_COLUMN SHEET_DATE_ROW @ '':ZZ'' @ showNat SHEET_DATE_ROW))
       (\<lambda>grid. ret (findLastDateColumn_scan grid))"

definition findNicknameRows :: "(string \<Rightarrow> string) \<Rightarrow> string list \<Rightarrow> ('s, (string \<times> nat) list) io" where
  "findNicknameRows lower nicknames =
     andThen (valuesGet (SHEET_NICKNAME_COLUMN @ showNat SHEET_DATA_FIRST_ROW @ '':'' @ SHEET_NICKNAME_COLUMN))
       (\<lambda>grid. ret (findNicknameRows_match lower nicknames grid))"

text \<open>
  The loop of \<open>checkExistingValues\<close> over the value ranges of the answer. The
  destructuring \<open>[nickname, _row] = rowsArray[index]\<close> throws a \<open>TypeError\<close> when the
  answer has more ranges than there are rows (the text of its message is the engine's).
\<close>

fun collectExisting ::
  "(string \<times> nat) list \<Rightarrow> cell list list option list \<Rightarrow> nat \<Rightarrow> existingValue list
     \<Rightarrow> thrown + existingValue list" where
  "collectExisting rowsArray [] index existingValues = Inr existingValues"
| "collectExisting rowsArray (valueRange # rest) index existingValues =
     (if index < length rowsArray
      then (case gridRows valueRange of
              [] \<Rightarrow> collectExisting rowsArray rest (index + 1) existingValues
            | v0 # vs \<Rightarrow>
                if v0 \<noteq> [] \<and> \<not> isBlankCell (cellAt v0 0)
                then collectExisting rowsArray rest (index + 1)
                       (existingValues @ [\<lparr>nickname = fst (rowsArray ! index), cellValue = cellAt v0 0\<rparr>])
                else collectExisting rowsArray rest (index + 1) existingValues)
      else Inl (JsError ''undefined is not iterable''))"

text \<open>What \<open>checkExistingValues\<close> makes of the answer to its read: \<open>valueRanges || []\<close>.\<close>

definition existingIn ::
  "(string \<times> nat) list \<Rightarrow> cell list list option list option \<Rightarrow> thrown + existingValue list" where
  "existingIn nicknameRows valueRanges =
     (case valueRanges of
        None \<Rightarrow> Inr []
      | Some vrs \<Rightarrow> collectExisting nicknameRows vrs 0 [])"

definition checkExistingValues :: "(string \<times> nat) list \<Rightarrow> string \<Rightarrow> ('s, existingValue list) io" where
  "checkExistingValues nicknameRows col =
     (if nicknameRows = [] then ret []
      else andThen (valuesBatchGet (map (\<lambda>kv. cellRef col (snd kv)) nicknameRows))
             (\<lambda>valueRanges.
                case existingIn nicknameRows valueRanges of
                  Inl e \<Rightarrow> throw e
                | Inr existingValues \<Rightarrow> ret existingValues))"

text \<open>\<open>writeZeros\<close> returns \<open>{ updated, notFound: [] }\<close>; the model returns \<open>updated\<close>.\<close>

definition writeZeros :: "(string \<times> nat) list \<Rightarrow> string \<Rightarrow> bool \<Rightarrow> ('s, nat) io" where
  "writeZeros nicknameRows col overrideExisting =
     (if nicknameRows = [] then ret 0
      else andThen
             (if \<not> overrideExisting
              then andThen (checkExistingValues nicknameRows col)
                     (\<lambda>existingValues.
                        ret (foldl (\<lambda>rowsToUpdate kv.
                                      if fst kv \<in> set (map nickname existingValues) then rowsToUpdate
                                      else mapSet (fst kv) (snd kv) rowsToUpdate)
                               [] nicknameRows))
              else ret nicknameRows)
             (\<lambda>rowsToUpdate.
                if rowsToUpdate = [] then ret 0
                else andThen (valuesBatchUpdate (map (\<lambda>kv. (cellRef col (snd kv), WNum 0)) rowsToUpdate))
                       (\<lambda>u. ret (length rowsToUpdate))))"

record columnMetadata =
  metaDate :: "string option"
  metaCost :: "rat option"
  metaPlayerCount :: "int option"

text \<open>
  \<open>rows[i] && rows[i][0] !== null && rows[i][0] !== undefined && String(rows[i][0]).trim() !== ''\<close>:
  the first cell of row \<open>i\<close> of the answer when it is there and occupied. Cells are
  text, so a cost or a count is always read through \<open>parseFloat\<close> and \<open>parseInt\<close>.
\<close>

definition occupiedCell :: "cell list list \<Rightarrow> nat \<Rightarrow> cell option" where
  "occupiedCell rows i =
     (if i < length rows \<and> \<not> isBlankCell (cellAt (rows ! i) 0) then Some (cellAt (rows ! i) 0) else None)"

definition metadataOf :: "jslib \<Rightarrow> cell list list option \<Rightarrow> columnMetadata" where
  "metadataOf lib grid =
     (let rows = gridRows grid
      in \<lparr>metaDate = map_option (\<lambda>c. trim (String_of c)) (occupiedCell rows 0),
          metaCost = (case occupiedCell rows 1 of None \<Rightarrow> None | Some c \<Rightarrow> parseFloat lib (String_of c)),
          metaPlayerCount = (case occupiedCell rows 2 of None \<Rightarrow> None | Some c \<Rightarrow> parseInt lib (String_of c))\<rparr>)"

definition getColumnMetadata :: "jslib \<Rightarrow> string \<Rightarrow> ('s, columnMetadata) io" where
  "getColumnMetadata lib col =
     andThen (valuesGet (cellRef col SHEET_DATE_ROW @ '':'' @ col @ showNat SHEET_PLAYER_COUNT_ROW))
       (\<lambda>grid. ret (metadataOf lib grid))"

definition writeColumnMetadata ::
  "string \<Rightarrow> string option \<Rightarrow> rat option \<Rightarrow> int option \<Rightarrow> ('s, unit) io" where
  "writeColumnMetadata col dateArg costArg playerCountArg =
     (let updates =
            (case dateArg of None \<Rightarrow> [] | Some d \<Rightarrow> [(cellRef col SHEET_DATE_ROW, WStr d)])
          @ (case costArg of None \<Rightarrow> [] | Some c \<Rightarrow> [(cellRef col SHEET_COST_ROW, WNum c)])
          @ (case playerCountArg of None \<Rightarrow> []
             | Some n \<Rightarrow> [(cellRef col SHEET_PLAYER_COUNT_ROW, WNum (of_int n))])
      in if updates \<noteq> [] then valuesBatchUpdate updates else ret ())"

section \<open>Helpers and workflow (bot-helpers.ts, workflow.ts)\<close>

datatype yesNo = Yes | No

text \<open>
  \<open>parseYesNo\<close>. The Russian answers are compared as their UTF-8 bytes.
\<close>

definition parseYesNo :: "string \<Rightarrow> yesNo option" where
  "parseYesNo text =
     (let normalized = toLowerCase (trim text)
      in if normalized = ''yes'' \<or> normalized = ''y''
            \<or> normalized = [CHR 0xD0, CHR 0xB4, CHR 0xD0, CHR 0xB0]
            \<or> normalized = [CHR 0xD0, CHR 0xB4]
         then Some Yes
         else if normalized = ''no'' \<or> normalized = ''n''
            \<or> normalized = [CHR 0xD0, CHR 0xBD, CHR 0xD0, CHR 0xB5, CHR 0xD1, CHR 0x82]
            \<or> normalized = [CHR 0xD0, CHR 0xBD]
         then Some No
         else None)"

definition replyErrorAndReset :: "reply \<Rightarrow> ('x session_scheme, unit) io" where
  "replyErrorAndReset message = thenDo (sendReply message) (setSession resetSession)"

definition handleApiError :: "thrown \<Rightarrow> string \<Rightarrow> bool \<Rightarrow> ('x session_scheme, unit) io" where
  "handleApiError error action includeApiHint =
     replyErrorAndReset (ApiError action (errorDescription error) includeApiHint)"

text \<open>\<open>buildPollOptionsText\<close>: each option with the number of its voters.\<close>

definition buildPollOptionsText :: "pollData \<Rightarrow> (string \<times> nat) list" where
  "buildPollOptionsText pd =
     map (\<lambda>io. (snd io, length (votersFor (votes pd) (fst io)))) (enumerate 0 (options pd))"

text \<open>\<open>getPollDataOrError\<close> returns the poll data, or \<open>null\<close> after it has replied and reset.\<close>

definition getPollDataOrError :: "('x session_scheme, pollData option) io" where
  "getPollDataOrError =
     withSession (\<lambda>s.
       case nonEmpty (pollId s) of
         None \<Rightarrow> thenDo (replyErrorAndReset PollDataLost) (ret None)
       | Some pid \<Rightarrow>
           withPolls (\<lambda>polls.
             case map_of polls pid of
               None \<Rightarrow> thenDo (replyErrorAndReset PollDataNotFound) (ret None)
             | Some pd \<Rightarrow> ret (Some pd)))"

definition startColumnDetectionFlow :: "('x session_scheme, unit) io" where
  "startColumnDetectionFlow =
     thenDo (sendReply DetectingLastDateColumn)
       (tryCatch
          (thenDo initSheetsClient
             (andThen findLastDateColumn
                (\<lambda>lastDateColumn.
                   case lastDateColumn of
                     None \<Rightarrow>
                       thenDo (sendReply (NoDateColumnsFound SHEET_DATA_FIRST_COLUMN))
                         (setSession (\<lambda>s. s\<lparr>state := awaiting_new_column_choice,
                                              targetColumn := Some SHEET_DATA_FIRST_COLUMN,
                                              isNewColumn := Some True\<rparr>))
                   | Some found \<Rightarrow>
                       thenDo (setSession (\<lambda>s. s\<lparr>detectedColumn := Some (dcColumn found),
                                                   targetColumn := Some (dcColumn found),
                                                   state := awaiting_column_confirmation\<rparr>))
                         (sendReply (DetectedColumn (dcColumn found) (dcDate found))))))
          (\<lambda>error. handleApiError error ''detecting column'' True))"

definition writeZerosAndRespond ::
  "(string \<times> nat) list \<Rightarrow> string \<Rightarrow> bool \<Rightarrow> string list \<Rightarrow> ('x session_scheme, unit) io" where
  "writeZerosAndRespond nicknameRows col overrideExisting skippedNicknames =
     thenDo (sendReply UpdatingSheet)
       (thenDo initSheetsClient
          (andThen (writeZeros nicknameRows col overrideExisting)
             (\<lambda>updated.
                withSession (\<lambda>s.
                  let allFoundNicknames = map fst nicknameRows;
                      updatedNicknames = filter (\<lambda>n. n \<notin> set skippedNicknames) allFoundNicknames;
                      notFoundNicknames = filter (\<lambda>u. u \<notin> set allFoundNicknames) (usernames s)
                  in thenDo (sendReply (UpdateResult col updated updatedNicknames
                                          skippedNicknames notFoundNicknames))
                       (setSession resetSession)))))"

definition checkOverridesAndWrite :: "(string \<times> nat) list \<Rightarrow> ('x session_scheme, unit) io" where
  "checkOverridesAndWrite nicknameRows =
     withSession (\<lambda>s.
       case nonEmpty (targetColumn s) of
         None \<Rightarrow> replyErrorAndReset ErrTargetColumnNotSet
       | Some col \<Rightarrow>
           thenDo initSheetsClient
             (andThen (checkExistingValues nicknameRows col)
                (\<lambda>existingValues.
                   if existingValues \<noteq> []
                   then thenDo (setSession (\<lambda>s. s\<lparr>column := Some col,
                                                   nicknameRowsEntries := Some nicknameRows,
                                                   existingValuesEntries := Some existingValues,
                                                   state := awaiting_override_confirmation\<rparr>))
                          (sendReply (ExistingValuesWarning col existingValues))
                   else writeZerosAndRespond nicknameRows col True [])))"

definition proceedWithPlayerCountCheck :: "('x session_scheme, unit) io" where
  "proceedWithPlayerCountCheck =
     withSession (\<lambda>s.
       if nonEmpty (targetColumn s) = None \<or> usernames s = []
       then replyErrorAndReset MissingUsernamesOrColumn
       else thenDo (sendReply CheckingSheet)
              (tryCatch
                 (thenDo initSheetsClient
                    (andThen (findNicknameRows toLowerCase (usernames s))
                       (\<lambda>nicknameRows.
                          if nicknameRows = []
                          then thenDo (sendReply (NoMatchesFound (usernames s)))
                                 (setSession resetSession)
                          else if playerCount s = None
                          then thenDo (setSession (\<lambda>s. s\<lparr>state := awaiting_player_count_confirmation\<rparr>))
                                 (thenDo (sendReply (PlayerCountQuestion (length nicknameRows)))
                                    (setSession (\<lambda>s. s\<lparr>nicknameRowsEntries := Some nicknameRows\<rparr>)))
                          else checkOverridesAndWrite nicknameRows)))
                 (\<lambda>error. handleApiError error ''processing usernames'' True)))"

definition proceedWithMetadataCollection :: "jslib \<Rightarrow> ('x session_scheme, unit) io" where
  "proceedWithMetadataCollection lib =
     withSession (\<lambda>s.
       case nonEmpty (targetColumn s) of
         None \<Rightarrow> replyErrorAndReset ErrTargetColumnNotSet
       | Some col \<Rightarrow>
           tryCatch
             (thenDo initSheetsClient
                (andThen (getColumnMetadata lib col)
                   (\<lambda>metadata.
                      case nonEmpty (metaDate metadata) of
                        None \<Rightarrow>
                          thenDo (setSession (\<lambda>s. s\<lparr>state := awaiting_date_name\<rparr>))
                            (sendReply (NoDateName col))
                      | Some d \<Rightarrow>
                          thenDo (setSession (\<lambda>s. s\<lparr>dateName := Some d\<rparr>))
                            (case metaCost metadata of
                               None \<Rightarrow>
                                 thenDo (setSession (\<lambda>s. s\<lparr>state := awaiting_cost\<rparr>))
                                   (sendReply (NoCostSpecified col))
                             | Some c \<Rightarrow>
                                 thenDo (setSession (\<lambda>s. s\<lparr>cost := Some c\<rparr>))
                                   (thenDo (case metaPlayerCount metadata of
                                              None \<Rightarrow> ret ()
                                            | Some n \<Rightarrow> setSession (\<lambda>s. s\<lparr>playerCount := Some n\<rparr>))
                                      (withSession (\<lambda>s1.
                                         if usernames s1 \<noteq> []
                                         then proceedWithPlayerCountCheck
                                         else thenDo (setSession (\<lambda>s. s\<lparr>state := awaiting_usernames\<rparr>))
                                                (sendReply (MetadataSummary col (dateName s1) (cost s1)
                                                              (playerCount s1))))))))))
             (\<lambda>error. handleApiError error ''checking column metadata'' True))"

section \<open>Message handlers (handlers/)\<close>

subsection \<open>Sheet handlers\<close>

text \<open>
  \<open>parseUsernames\<close>: the text is split at runs of white space, commas and semicolons
  (\<open>/[\s,;\n]+/\<close>), the empty pieces are dropped, and every piece gets exactly one leading
  \<open>@\<close>. \<open>separatorLength\<close> is the number of bytes of the separator character that the
  string starts with, 0 when it starts with none.
\<close>

definition separatorLength :: "string \<Rightarrow> nat" where
  "separatorLength s = leadingLength (jsWhitespace @ ['','', '';'']) s"

function splitPieces :: "string \<Rightarrow> string \<Rightarrow> string list" where
  "splitPieces piece s =
     (if s = [] then [piece]
      else if separatorLength s = 0 then splitPieces (piece @ [hd s]) (tl s)
      else piece # splitPieces [] (drop (separatorLength s) s))"
  by pat_completeness auto
termination
  by (relation "measure (\<lambda>(piece, s). length s)") auto

declare splitPieces.simps [simp del]

definition parseUsernames :: "string \<Rightarrow> string list" where
  "parseUsernames text =
     (let parts = filter (\<lambda>part. part \<noteq> []) (map trim (splitPieces [] text))
      in filter (\<lambda>part. part \<noteq> [])
           (map (\<lambda>part. let withoutAt = dropWhile (\<lambda>c. c = CHR ''@'') (trim part)
                         in if withoutAt \<noteq> [] then CHR ''@'' # withoutAt else [])
              parts))"

definition handleUsernames :: "string \<Rightarrow> ('x session_scheme, bool) io" where
  "handleUsernames rawText =
     withSession (\<lambda>s.
       if state s \<noteq> awaiting_usernames then ret False
       else let parsed = parseUsernames rawText
            in if parsed = []
               then thenDo (sendReply FailedToRecognizeUsernames) (ret True)
               else if nonEmpty (targetColumn s) = None
               then thenDo (replyErrorAndReset ErrTargetColumnNotSet) (ret True)
               else thenDo (setSession (\<lambda>s. s\<lparr>usernames := parsed\<rparr>))
                      (thenDo proceedWithPlayerCountCheck (ret True)))"

definition handlePlayerCountConfirmation :: "string \<Rightarrow> ('x session_scheme, bool) io" where
  "handlePlayerCountConfirmation text =
     withSession (\<lambda>s.
       if state s \<noteq> awaiting_player_count_confirmation then ret False
       else case parseYesNo text of
         None \<Rightarrow> thenDo (sendReply ErrInvalidYesNo) (ret True)
       | Some answer \<Rightarrow>
          (case (nonEmpty (targetColumn s), nicknameRowsEntries s) of
             (Some col, Some entries) \<Rightarrow>
               (let nicknameRows = mapFromEntries entries;
                    recognizedCount = length nicknameRows
                in if answer = Yes
                   then thenDo (setSession (\<lambda>s. s\<lparr>playerCount := Some (int recognizedCount)\<rparr>))
                          (thenDo
                             (tryCatch
                                (thenDo initSheetsClient
                                   (thenDo (writeColumnMetadata col None None (Some (int recognizedCount)))
                                      (checkOverridesAndWrite nicknameRows)))
                                (\<lambda>error. handleApiError error
                                            ''writing player count or checking overrides'' False))
                             (ret True))
                   else thenDo (setSession (\<lambda>s. s\<lparr>state := awaiting_player_count\<rparr>))
                          (thenDo (sendReply HowManyPlayers) (ret True)))
           | _ \<Rightarrow> thenDo (replyErrorAndReset ErrSessionDataLost) (ret True)))"

definition handlePlayerCount :: "jslib \<Rightarrow> string \<Rightarrow> ('x session_scheme, bool) io" where
  "handlePlayerCount lib text =
     withSession (\<lambda>s.
       if state s \<noteq> awaiting_player_count then ret False
       else case parseInt lib text of
         None \<Rightarrow> thenDo (sendReply InvalidPlayerCount) (ret True)
       | Some n \<Rightarrow>
           if n < 0 then thenDo (sendReply InvalidPlayerCount) (ret True)
           else thenDo (setSession (\<lambda>s. s\<lparr>playerCount := Some n\<rparr>))
                  (case (nonEmpty (targetColumn s), nicknameRowsEntries s) of
                     (Some col, Some entries) \<Rightarrow>
                       thenDo
                         (tryCatch
                            (thenDo initSheetsClient
                               (thenDo (writeColumnMetadata col None None (Some n))
                                  (checkOverridesAndWrite (mapFromEntries entries))))
                            (\<lambda>error. handleApiError error ''writing player count'' False))
                         (ret True)
                   | _ \<Rightarrow> thenDo (replyErrorAndReset ErrSessionDataLost) (ret True)))"

definition handleOverrideConfirmation :: "string \<Rightarrow> ('x session_scheme, bool) io" where
  "handleOverrideConfirmation text =
     withSession (\<lambda>s.
       if state s \<noteq> awaiting_override_confirmation then ret False
       else case parseYesNo text of
         None \<Rightarrow> thenDo (sendReply ErrInvalidYesNo) (ret True)
       | Some answer \<Rightarrow>
          (let columnToUse = (case nonEmpty (column s) of
                                Some c \<Rightarrow> Some c
                              | None \<Rightarrow> nonEmpty (targetColumn s))
           in case (columnToUse, nicknameRowsEntries s) of
                (Some col, Some entries) \<Rightarrow>
                  (let nicknameRows = mapFromEntries entries;
                       overrideExisting = (answer = Yes);
                       skippedNicknames =
                         (case existingValuesEntries s of
                            Some evs \<Rightarrow> if \<not> overrideExisting then map nickname evs else []
                          | None \<Rightarrow> [])
                   in thenDo
                        (tryCatch
                           (writeZerosAndRespond nicknameRows col overrideExisting skippedNicknames)
                           (\<lambda>error. handleApiError error ''updating sheet'' True))
                        (ret True))
              | _ \<Rightarrow> thenDo (replyErrorAndReset ErrSessionDataLost) (ret True)))"

subsection \<open>Column handlers\<close>

text \<open>
  The sources hold two revisions of the column handlers. This is the one that the
  dispatcher of \<open>handlers/index.ts\<close> and \<open>session.ts\<close> go with.
\<close>

definition handleColumnConfirmation :: "jslib \<Rightarrow> string \<Rightarrow> ('x session_scheme, bool) io" where
  "handleColumnConfirmation lib text =
     withSession (\<lambda>s.
       if state s \<noteq> awaiting_column_confirmation then ret False
       else case parseYesNo text of
         None \<Rightarrow> thenDo (sendReply ErrInvalidYesNo) (ret True)
       | Some answer \<Rightarrow>
          (case nonEmpty (targetColumn s) of
             None \<Rightarrow> thenDo (replyErrorAndReset ErrTargetColumnNotSet) (ret True)
           | Some col \<Rightarrow>
               if answer = Yes
               then thenDo (proceedWithMetadataCollection lib) (ret True)
               else thenDo (setSession (\<lambda>s. s\<lparr>state := awaiting_new_column_choice\<rparr>))
                      (thenDo (sendReply (CreateNewColumnQuestion (getNextColumnLetter col)))
                         (ret True))))"

definition handleNewColumnChoice :: "string \<Rightarrow> ('x session_scheme, bool) io" where
  "handleNewColumnChoice text =
     withSession (\<lambda>s.
       if state s \<noteq> awaiting_new_column_choice then ret False
       else case parseYesNo text of
         None \<Rightarrow> thenDo (sendReply ErrInvalidYesNo) (ret True)
       | Some answer \<Rightarrow>
           if answer = Yes
           then (let col = (case nonEmpty (targetColumn s) of
                              None \<Rightarrow> SHEET_DATA_FIRST_COLUMN
                            | Some c \<Rightarrow> getNextColumnLetter c)
                 in thenDo (setSession (\<lambda>s. s\<lparr>targetColumn := Some col, isNewColumn := Some True,
                                                state := awaiting_date_name\<rparr>))
                      (thenDo (sendReply (AskDateName col)) (ret True)))
           else thenDo (setSession resetSession)
                  (thenDo (sendReply OperationCancelled) (ret True)))"

definition handleDateName :: "jslib \<Rightarrow> string \<Rightarrow> ('x session_scheme, bool) io" where
  "handleDateName lib rawText =
     withSession (\<lambda>s.
       if state s \<noteq> awaiting_date_name then ret False
       else let trimmed = trim rawText
            in if trimmed = []
               then thenDo (sendReply PleaseProvideDateName) (ret True)
               else thenDo (setSession (\<lambda>s. s\<lparr>dateName := Some trimmed\<rparr>))
                      (case nonEmpty (targetColumn s) of
                         None \<Rightarrow> thenDo (replyErrorAndReset ErrTargetColumnNotSet) (ret True)
                       | Some col \<Rightarrow>
                           tryElse
                             (thenDo initSheetsClient
                                (writeColumnMetadata col (Some trimmed) None None))
                             (\<lambda>error. thenDo (handleApiError error ''writing date'' False) (ret True))
                             (\<lambda>u. thenDo (proceedWithMetadataCollection lib) (ret True))))"

definition handleCost :: "jslib \<Rightarrow> string \<Rightarrow> ('x session_scheme, bool) io" where
  "handleCost lib text =
     withSession (\<lambda>s.
       if state s \<noteq> awaiting_cost then ret False
       else case parseFloat lib text of
         None \<Rightarrow> thenDo (sendReply InvalidCost) (ret True)
       | Some c \<Rightarrow>
           if c < 0 then thenDo (sendReply InvalidCost) (ret True)
           else thenDo (setSession (\<lambda>s. s\<lparr>cost := Some c\<rparr>))
                  (case nonEmpty (targetColumn s) of
                     None \<Rightarrow> thenDo (replyErrorAndReset ErrTargetColumnNotSet) (ret True)
                   | Some col \<Rightarrow>
                       tryElse
                         (thenDo initSheetsClient
                            (writeColumnMetadata col None (Some c) None))
                         (\<lambda>error. thenDo (handleApiError error ''writing cost'' False) (ret True))
                         (\<lambda>u. thenDo (proceedWithMetadataCollection lib) (ret True))))"

subsection \<open>Column handlers, the later revision\<close>

text \<open>
  The later revision of the column handlers accepts a column letter or a date text
  where the earlier one asks for yes or no. It keeps the columns found by a search in
  one more field of the session, \<open>columnMatches\<close>, for its handler of
  \<open>awaiting_column_selection\<close>, which the dispatcher at hand does not call and which is
  not part of this development.
\<close>

record sessionX = session +
  columnMatches :: "dateColumn list option"

definition askForDateName :: "string \<Rightarrow> ('x session_scheme, unit) io" where
  "askForDateName col =
     thenDo (setSession (\<lambda>s. s\<lparr>targetColumn := Some col, isNewColumn := Some True,
                                state := awaiting_date_name\<rparr>))
       (sendReply (AskDateName col))"

text \<open>\<open>/^[A-Z]{1,2}$/i\<close>: one or two ASCII letters.\<close>

definition isColumnLetterToken :: "string \<Rightarrow> bool" where
  "isColumnLetterToken t = ((length t = 1 \<or> length t = 2) \<and> list_all (\<lambda>c. isUpper c \<or> isLower c) t)"

definition handleColumnConfirmation2 :: "jslib \<Rightarrow> string \<Rightarrow> ('x sessionX_scheme, bool) io" where
  "handleColumnConfirmation2 lib text =
     withSession (\<lambda>s.
       if state s \<noteq> awaiting_column_confirmation then ret False
       else let trimmedText = trim text
            in case parseYesNo trimmedText of
                 Some answer \<Rightarrow>
                   (case nonEmpty (targetColumn s) of
                      None \<Rightarrow> thenDo (replyErrorAndReset ErrTargetColumnNotSet) (ret True)
                    | Some col \<Rightarrow>
                        if answer = Yes
                        then thenDo (proceedWithMetadataCollection lib) (ret True)
                        else thenDo (askForDateName (getNextColumnLetter col)) (ret True))
               | None \<Rightarrow>
                   if isColumnLetterToken trimmedText
                   then thenDo (setSession (\<lambda>s. s\<lparr>targetColumn := Some (toUpperCase trimmedText),
                                                   isNewColumn := Some False\<rparr>))
                          (thenDo (proceedWithMetadataCollection lib) (ret True))
                   else tryElse
                          (thenDo initSheetsClient
                             (andThen (findColumnByDateText trimmedText)
                                (\<lambda>result.
                                   case result of
                                     SearchNotFound \<Rightarrow>
                                       thenDo (sendReply (NoColumnWithDateText trimmedText)) (ret True)
                                   | SearchMultiple ms \<Rightarrow>
                                       thenDo (setSession (\<lambda>s. s\<lparr>columnMatches := Some ms,
                                                                   state := awaiting_column_selection\<rparr>))
                                         (thenDo (sendReply (MultipleColumnsFound trimmedText ms))
                                            (ret True))
                                   | SearchSingle c \<Rightarrow>
                                       thenDo (setSession (\<lambda>s. s\<lparr>targetColumn := Some c,
                                                                   isNewColumn := Some False\<rparr>))
                                         (thenDo (proceedWithMetadataCollection lib) (ret True))
                                   | _ \<Rightarrow> ret False)))
                          (\<lambda>error. thenDo (handleApiError error ''searching for column'' True) (ret True))
                          (\<lambda>returned. if returned then ret True
                                      else thenDo (sendReply YesNoOrColumnHint) (ret True)))"

definition handleNewColumnChoice2 :: "string \<Rightarrow> ('x session_scheme, bool) io" where
  "handleNewColumnChoice2 text =
     withSession (\<lambda>s.
       if state s \<noteq> awaiting_new_column_choice then ret False
       else case parseYesNo text of
         None \<Rightarrow> thenDo (sendReply ErrInvalidYesNo) (ret True)
       | Some answer \<Rightarrow>
           if answer = Yes
           then thenDo (askForDateName (case nonEmpty (targetColumn s) of
                                          None \<Rightarrow> SHEET_DATA_FIRST_COLUMN
                                        | Some c \<Rightarrow> c))
                  (ret True)
           else thenDo (setSession resetSession)
                  (thenDo (sendReply OperationCancelled) (ret True)))"

subsection \<open>Poll handlers\<close>

text \<open>A poll message: the poll's id, and whether the message is a forwarded one.\<close>

definition onMessagePoll :: "string \<Rightarrow> bool \<Rightarrow> ('x session_scheme, unit) io" where
  "onMessagePoll pid forwarded =
     withPolls (\<lambda>polls.
       case map_of polls pid of
         None \<Rightarrow> sendReply PollNotMine
       | Some pd \<Rightarrow>
           if \<not> forwarded then ret ()
           else thenDo (setSession (\<lambda>s. s\<lparr>pollId := Some pid, pollQuestion := Some (question pd),
                                           state := awaiting_poll_intent\<rparr>))
                  (sendReply (PollMenu (question pd) (buildPollOptionsText pd))))"

definition handlePollIntent :: "string \<Rightarrow> ('x session_scheme, bool) io" where
  "handlePollIntent text =
     withSession (\<lambda>s.
       if state s \<noteq> awaiting_poll_intent then ret False
       else if text = ''1'' \<or> text = ''update sheet'' \<or> text = ''update''
       then andThen getPollDataOrError
              (\<lambda>result.
                 case result of
                   None \<Rightarrow> ret True
                 | Some pd \<Rightarrow>
                     thenDo (setSession (\<lambda>s. s\<lparr>state := awaiting_poll_option_selection\<rparr>))
                       (thenDo (sendReply (WhichOption (buildPollOptionsText pd))) (ret True)))
       else if text = ''2'' \<or> text = ''view voters'' \<or> text = ''view''
       then andThen getPollDataOrError
              (\<lambda>result.
                 case result of
                   None \<Rightarrow> ret True
                 | Some pd \<Rightarrow>
                     thenDo (sendReply (PollVoters (question pd)
                               (map (\<lambda>io. (snd io, votersFor (votes pd) (fst io)))
                                  (enumerate 0 (options pd)))))
                       (thenDo (setSession resetSession) (ret True)))
       else thenDo (sendReply PollIntentHelp) (ret True))"

definition handlePollOptionSelection :: "jslib \<Rightarrow> string \<Rightarrow> ('x session_scheme, bool) io" where
  "handlePollOptionSelection lib rawText =
     withSession (\<lambda>s.
       if state s \<noteq> awaiting_poll_option_selection then ret False
       else case parseInt lib rawText of
         None \<Rightarrow> thenDo (sendReply InvalidOptionNumberFormat) (ret True)
       | Some optionNum \<Rightarrow>
           if optionNum < 1 then thenDo (sendReply InvalidOptionNumberFormat) (ret True)
           else andThen getPollDataOrError
                  (\<lambda>result.
                     case result of
                       None \<Rightarrow> ret True
                     | Some pd \<Rightarrow>
                         (let optionIndex = nat (optionNum - 1)
                          in if optionIndex \<ge> length (options pd)
                             then thenDo (sendReply (InvalidOptionNumber (length (options pd)))) (ret True)
                             else let voters = votersFor (votes pd) optionIndex
                                  in if voters = []
                                     then thenDo (replyErrorAndReset NoVotersForOption) (ret True)
                                     else thenDo (setSession (\<lambda>s. s\<lparr>usernames := voters, pollId := None,
                                                                       pollQuestion := None\<rparr>))
                                            (thenDo (sendReply (SelectedOption (options pd ! optionIndex) voters))
                                               (thenDo startColumnDetectionFlow (ret True))))))"

subsection \<open>The dispatcher and the commands (handlers/index.ts, commands.ts)\<close>

text \<open>\<open>if (await h) return; rest\<close>\<close>

definition orElse :: "('s, bool) io \<Rightarrow> ('s, unit) io \<Rightarrow> ('s, unit) io" where
  "orElse h rest = andThen h (\<lambda>handled. if handled then ret () else rest)"

text \<open>
  The handler of text messages tries the handlers in order; the first that returns
  \<open>true\<close> wins. It is written once for both revisions of the two column handlers that
  differ.
\<close>

definition onMessageText_with ::
  "(string \<Rightarrow> ('x session_scheme, bool) io) \<Rightarrow> (string \<Rightarrow> ('x session_scheme, bool) io)
     \<Rightarrow> jslib \<Rightarrow> string \<Rightarrow> ('x session_scheme, unit) io" where
  "onMessageText_with columnConfirmation newColumnChoice lib messageText =
     (let text = toLowerCase (trim messageText);
          rawText = trim messageText
      in orElse (handlePollIntent text)
        (orElse (handlePollOptionSelection lib rawText)
        (orElse (columnConfirmation text)
        (orElse (newColumnChoice text)
        (orElse (handleDateName lib rawText)
        (orElse (handleCost lib text)
        (orElse (handleUsernames rawText)
        (orElse (handlePlayerCountConfirmation text)
        (orElse (handlePlayerCount lib text)
        (orElse (handleOverrideConfirmation text)
          (sendReply UseStart)))))))))))"

definition onMessageText :: "jslib \<Rightarrow> string \<Rightarrow> ('x session_scheme, unit) io" where
  "onMessageText lib = onMessageText_with (handleColumnConfirmation lib) handleNewColumnChoice lib"

definition onMessageText2 :: "jslib \<Rightarrow> string \<Rightarrow> ('x sessionX_scheme, unit) io" where
  "onMessageText2 lib = onMessageText_with (handleColumnConfirmation2 lib) handleNewColumnChoice2 lib"

definition commandUpdate :: "('x session_scheme, unit) io" where
  "commandUpdate = thenDo (setSession resetSession) startColumnDetectionFlow"

definition commandCancel :: "('x session_scheme, unit) io" where
  "commandCancel = thenDo (setSession resetSession) (sendReply OperationCancelled)"

section \<open>Failures of the backing store\<close>

text \<open>
  What a computation does about a failing call, as a relation between the state before
  and the result. In each of the three, the calls made are recorded after the earlier
  ones and only the last call made can be a failed one: nothing is called after a
  failure.

  \<open>propagates\<close>: a failed call is thrown on to the caller.
  \<open>recovers\<close>: a failed call is thrown on, or it has been caught: then the computation
  returns, every declared field of the session is at its default, and the last message
  sent is the error message with the description of what the call threw.
\<close>

definition errorReplied :: "thrown \<Rightarrow> world \<Rightarrow> bool" where
  "errorReplied e w =
     (outbox w \<noteq> [] \<and> (\<exists>action hint. last (outbox w) = ApiError action (errorDescription e) hint))"

definition propagates :: "('s, 'a) io \<Rightarrow> bool" where
  "propagates m =
     (\<forall>st. \<exists>d. calls (snd (snd (m st))) = calls (snd st) @ d
        \<and> (\<forall>c \<in> set (butlast d). \<not> failed c)
        \<and> (d \<noteq> [] \<and> failed (last d) \<longrightarrow> fst (m st) = Inl (thrownBy (snd (last d)))))"

definition recovers :: "('x session_scheme, 'a) io \<Rightarrow> bool" where
  "recovers m =
     (\<forall>st. \<exists>d. calls (snd (snd (m st))) = calls (snd st) @ d
        \<and> (\<forall>c \<in> set (butlast d). \<not> failed c)
        \<and> (d \<noteq> [] \<and> failed (last d) \<longrightarrow>
              fst (m st) = Inl (thrownBy (snd (last d)))
            \<or> (\<exists>x. fst (m st) = Inr x) \<and> cleared (fst (snd (m st)))
                \<and> errorReplied (thrownBy (snd (last d))) (snd (snd (m st)))))"

text \<open>
  \<open>catches h\<close>: the handler \<open>h\<close> of a \<open>catch\<close> makes no call, returns, and leaves the
  session cleared and the error message for what was thrown as the last message.
\<close>

definition catches :: "(thrown \<Rightarrow> ('x session_scheme, 'a) io) \<Rightarrow> bool" where
  "catches h =
     (\<forall>e st. (\<exists>x. fst (h e st) = Inr x) \<and> calls (snd (snd (h e st))) = calls (snd st)
        \<and> cleared (fst (snd (h e st))) \<and> errorReplied e (snd (snd (h e st))))"

text \<open>The computation returns a value without any effect.\<close>

definition pure :: "('s, 'a) io \<Rightarrow> bool" where
  "pure m = (\<forall>st. \<exists>x. m st = (Inr x, st))"

text \<open>The computation never throws.\<close>

definition neverThrows :: "('s, 'a) io \<Rightarrow> bool" where
  "neverThrows m = (\<forall>st. \<exists>x. fst (m st) = Inr x)"

text \<open>A handler that returns \<open>false\<close> has done nothing.\<close>

definition declines :: "('s, bool) io \<Rightarrow> bool" where
  "declines h = (\<forall>st. fst (h st) = Inr False \<longrightarrow> snd (h st) = st)"

text \<open>The computation returns \<open>true\<close> whenever it returns.\<close>

definition returnsTrue :: "('s, bool) io \<Rightarrow> bool" where
  "returnsTrue m = (\<forall>st. fst (m st) \<noteq> Inr False)"

text \<open>
  What the engine does about a failing call, from the state \<open>(s, w)\<close> before an event to
  the outcome \<open>(r, s', w')\<close> of handling it: the handling returns; the calls made are
  recorded after the earlier ones; no call but the last one made is a failed one; and
  if the last one failed, the session is cleared and the last message sent is the error
  message describing what the call threw.
\<close>

definition failureHandled ::
  "'x session_scheme \<times> world \<Rightarrow> (thrown + unit) \<times> 'x session_scheme \<times> world \<Rightarrow> bool" where
  "failureHandled st out =
     (fst out = Inr ()
      \<and> (\<exists>d. calls (snd (snd out)) = calls (snd st) @ d
            \<and> (\<forall>c \<in> set (butlast d). \<not> failed c)
            \<and> (d \<noteq> [] \<and> failed (last d) \<longrightarrow>
                  cleared (fst (snd out))
                \<and> errorReplied (thrownBy (snd (last d))) (snd (snd out)))))"

section \<open>Proofs\<close>

subsection \<open>Strings\<close>

lemma leadingLength_Nil: "leadingLength pats [] = 0"
proof (cases "filter (\<lambda>p. take (length p) [] = p) pats")
  case Nil
  then show ?thesis by (simp add: leadingLength_def)
next
  case (Cons p ps)
  then have "p \<in> set (filter (\<lambda>p. take (length p) [] = p) pats)" by simp
  then have "p = []" by simp
  with Cons show ?thesis by (simp add: leadingLength_def)
qed

lemma stripLeading_stop: "leadingLength pats s = 0 \<Longrightarrow> stripLeading pats s = s"
  by (subst stripLeading.simps) simp

lemma stripLeading_step:
  "leadingLength pats s \<noteq> 0 \<Longrightarrow> stripLeading pats s = stripLeading pats (drop (leadingLength pats s) s)"
  by (subst stripLeading.simps) simp

lemma leadingLength_zero_iff:
  "[] \<notin> set pats \<Longrightarrow> leadingLength pats s = 0 \<longleftrightarrow> (\<forall>p \<in> set pats. take (length p) s \<noteq> p)"
proof (cases "filter (\<lambda>p. take (length p) s = p) pats")
  case Nil
  assume "[] \<notin> set pats"
  from Nil have "\<forall>p \<in> set pats. take (length p) s \<noteq> p"
    by (simp add: filter_empty_conv)
  with Nil show ?thesis by (simp add: leadingLength_def)
next
  case (Cons p ps)
  assume n: "[] \<notin> set pats"
  from Cons have "p \<in> set (filter (\<lambda>p. take (length p) s = p) pats)" by simp
  then have m: "p \<in> set pats" "take (length p) s = p" by auto
  with n have "p \<noteq> []" by auto
  with Cons m show ?thesis by (auto simp add: leadingLength_def)
qed

lemma leadingLength_stripLeading: "leadingLength pats (stripLeading pats s) = 0"
proof (induction pats s rule: stripLeading.induct)
  case (1 pats s)
  show ?case
  proof (cases "leadingLength pats s = 0")
    case True
    then show ?thesis by (simp add: stripLeading_stop)
  next
    case False
    with 1 show ?thesis by (simp add: stripLeading_step)
  qed
qed

lemma stripLeading_suffix: "\<exists>u. s = u @ stripLeading pats s"
proof (induction pats s rule: stripLeading.induct)
  case (1 pats s)
  show ?case
  proof (cases "leadingLength pats s = 0")
    case True
    then show ?thesis by (simp add: stripLeading_stop)
  next
    case False
    with 1 obtain u where u: "drop (leadingLength pats s) s = u @ stripLeading pats (drop (leadingLength pats s) s)"
      by blast
    have "s = take (leadingLength pats s) s @ drop (leadingLength pats s) s" by simp
    with u have "s = (take (leadingLength pats s) s @ u) @ stripLeading pats (drop (leadingLength pats s) s)"
      by simp
    with False show ?thesis by (metis stripLeading_step)
  qed
qed

lemma leadingLength_prefix:
  assumes n: "[] \<notin> set pats" and z: "leadingLength pats (z @ t) = 0"
  shows "leadingLength pats z = 0"
proof -
  have "\<forall>p \<in> set pats. take (length p) z \<noteq> p"
  proof
    fix p assume p: "p \<in> set pats"
    show "take (length p) z \<noteq> p"
    proof
      assume e: "take (length p) z = p"
      then have "length (take (length p) z) = length p" by simp
      then have "length p \<le> length z" by simp
      with e have "take (length p) (z @ t) = p" by simp
      with n z p show False by (simp add: leadingLength_zero_iff)
    qed
  qed
  with n show ?thesis by (simp add: leadingLength_zero_iff)
qed

lemma jsWhitespace_nonempty: "[] \<notin> set jsWhitespace" "[] \<notin> set (map rev jsWhitespace)"
  by (simp_all add: jsWhitespace_def)

lemma trim_idem: "trim (trim x) = trim x"
proof -
  let ?y = "stripLeading jsWhitespace x"
  let ?r = "stripLeading (map rev jsWhitespace) (rev ?y)"
  obtain u where u: "rev ?y = u @ ?r" using stripLeading_suffix by blast
  then have "?y = rev ?r @ rev u" by (metis rev_append rev_rev_ident)
  then have "leadingLength jsWhitespace (rev ?r @ rev u) = 0"
    by (metis leadingLength_stripLeading)
  then have "leadingLength jsWhitespace (rev ?r) = 0"
    by (rule leadingLength_prefix [OF jsWhitespace_nonempty(1)])
  then have a: "stripLeading jsWhitespace (rev ?r) = rev ?r" by (rule stripLeading_stop)
  have "stripLeading (map rev jsWhitespace) ?r = ?r"
    by (rule stripLeading_stop) (rule leadingLength_stripLeading)
  with a show ?thesis by (simp add: trim_def)
qed

lemma lowerChar_fixes:
  assumes "\<not> isLower c" "\<not> isUpper c"
  shows "lowerChar x = c \<longleftrightarrow> x = c"
proof (cases "isUpper x")
  case True
  then have "of_char (lowerChar x) = (of_char x + 32 :: nat)"
    by (simp add: lowerChar_def isUpper_def)
  with True have "isLower (lowerChar x)" by (simp add: isLower_def isUpper_def)
  with assms True show ?thesis by auto
next
  case False
  then show ?thesis by (simp add: lowerChar_def)
qed


lemma trim_start: "leadingLength jsWhitespace (trim x) = 0"
proof -
  let ?y = "stripLeading jsWhitespace x"
  let ?r = "stripLeading (map rev jsWhitespace) (rev ?y)"
  obtain u where u: "rev ?y = u @ ?r" using stripLeading_suffix by blast
  then have "?y = rev ?r @ rev u" by (metis rev_append rev_rev_ident)
  then have "leadingLength jsWhitespace (rev ?r @ rev u) = 0"
    by (metis leadingLength_stripLeading)
  then have "leadingLength jsWhitespace (rev ?r) = 0"
    by (rule leadingLength_prefix [OF jsWhitespace_nonempty(1)])
  then show ?thesis by (simp add: trim_def)
qed

lemma trim_end: "leadingLength (map rev jsWhitespace) (rev (trim x)) = 0"
  by (simp add: trim_def leadingLength_stripLeading)

lemma trimmed_iff:
  "trim y = y \<longleftrightarrow> leadingLength jsWhitespace y = 0 \<and> leadingLength (map rev jsWhitespace) (rev y) = 0"
proof
  assume "trim y = y"
  then show "leadingLength jsWhitespace y = 0 \<and> leadingLength (map rev jsWhitespace) (rev y) = 0"
    using trim_start [of y] trim_end [of y] by simp
next
  assume "leadingLength jsWhitespace y = 0 \<and> leadingLength (map rev jsWhitespace) (rev y) = 0"
  then show "trim y = y" by (simp add: trim_def stripLeading_stop)
qed

lemma toLowerCase_other: "c \<noteq> CHR 0xD0 \<Longrightarrow> toLowerCase (c # t) = lowerChar c # toLowerCase t"
  by (cases t) simp_all

lemma lowerChar_D0: "lowerChar (CHR 0xD0) = CHR 0xD0"
  by (simp add: lowerChar_def isUpper_def)

lemma toLowerCase_D0:
  "\<not> isCyrillicUpper d \<Longrightarrow> toLowerCase (CHR 0xD0 # d # t) = CHR 0xD0 # toLowerCase (d # t)"
  by (simp add: lowerChar_D0)

lemma lowerCyrillic_bytes:
  "\<exists>a b. lowerCyrillic d = [a, b] \<and> (a = CHR 0xD0 \<or> a = CHR 0xD1)"
  by (simp add: lowerCyrillic_def)

lemma length_toLowerCase: "length (toLowerCase s) = length s"
  by (induction s rule: toLowerCase.induct) (auto simp add: lowerCyrillic_def)


lemma lowerChar_not_cyrillic: "\<not> isCyrillicUpper d \<Longrightarrow> \<not> isCyrillicUpper (lowerChar d)"
  by (auto simp add: lowerChar_def isCyrillicUpper_def isUpper_def)

lemma lowerChar_not_D0: "c \<noteq> CHR 0xD0 \<Longrightarrow> lowerChar c \<noteq> CHR 0xD0"
proof (cases "isUpper c")
  case True
  then have "of_char (lowerChar c) = (of_char c + 32 :: nat)"
    by (simp add: lowerChar_def isUpper_def)
  with True have "(of_char (lowerChar c) :: nat) \<le> 122" by (simp add: isUpper_def)
  then show ?thesis by auto
next
  case False
  assume "c \<noteq> CHR 0xD0"
  with False show ?thesis by (simp add: lowerChar_def)
qed

lemma lowerChar_idem: "lowerChar (lowerChar c) = lowerChar c"
  by (auto simp add: lowerChar_def isUpper_def)

lemma toLowerCase_head:
  assumes "\<not> isCyrillicUpper d"
  shows "\<exists>e r. toLowerCase (d # s) = e # r \<and> \<not> isCyrillicUpper e"
proof (cases s)
  case Nil
  with assms show ?thesis by (simp add: lowerChar_not_cyrillic)
next
  case (Cons d2 s2)
  show ?thesis
  proof (cases "d = CHR 0xD0 \<and> isCyrillicUpper d2")
    case True
    obtain a b where ab: "lowerCyrillic d2 = [a, b]" "a = CHR 0xD0 \<or> a = CHR 0xD1"
      using lowerCyrillic_bytes by blast
    then have "\<not> isCyrillicUpper a" by (auto simp add: isCyrillicUpper_def)
    with True Cons ab show ?thesis by simp
  next
    case False
    with Cons assms show ?thesis by (auto simp add: lowerChar_not_cyrillic)
  qed
qed

lemma toLowerCase_lowered_pair:
  assumes "isCyrillicUpper d"
  shows "toLowerCase (lowerCyrillic d @ t) = lowerCyrillic d @ toLowerCase t"
proof -
  have l: "lowerChar (CHR 0xD1) = CHR 0xD1" by (simp add: lowerChar_def isUpper_def)
  show ?thesis
  proof (cases "(of_char d :: nat) < 144 \<or> \<not> (of_char d :: nat) < 160")
    case True
    then obtain b where b: "lowerCyrillic d = [CHR 0xD1, b]" "of_char b = (of_char d + 16 :: nat) \<or> of_char b = (of_char d - 32 :: nat)"
      using assms by (auto simp add: lowerCyrillic_def isCyrillicUpper_def)
    with assms have nb: "b \<noteq> CHR 0xD0" "\<not> isUpper b"
      using True by (auto simp add: isCyrillicUpper_def isUpper_def)
    then have "lowerChar b = b" by (simp add: lowerChar_def)
    with b nb l show ?thesis by (simp add: toLowerCase_other)
  next
    case False
    then obtain b where b: "lowerCyrillic d = [CHR 0xD0, b]" "of_char b = (of_char d + 32 :: nat)"
      by (auto simp add: lowerCyrillic_def)
    with False have nb: "\<not> isCyrillicUpper b" "b \<noteq> CHR 0xD0" "\<not> isUpper b"
      by (auto simp add: isCyrillicUpper_def isUpper_def)
    then have "lowerChar b = b" by (simp add: lowerChar_def)
    with b nb show ?thesis by (simp add: toLowerCase_D0 toLowerCase_other lowerChar_D0)
  qed
qed

lemma toLowerCase_idem: "toLowerCase (toLowerCase x) = toLowerCase x"
proof (induction x rule: toLowerCase.induct)
  case 1
  then show ?case by simp
next
  case (2 c)
  then show ?case by (simp add: lowerChar_idem)
next
  case (3 c d s)
  show ?case
  proof (cases "c = CHR 0xD0 \<and> isCyrillicUpper d")
    case True
    with 3 show ?thesis by (simp add: toLowerCase_lowered_pair)
  next
    case False
    with 3 have ih: "toLowerCase (toLowerCase (d # s)) = toLowerCase (d # s)" by simp
    show ?thesis
    proof (cases "c = CHR 0xD0")
      case c: True
      with False have nd: "\<not> isCyrillicUpper d" by simp
      from toLowerCase_head [OF nd, of s] obtain e r
        where er: "toLowerCase (d # s) = e # r" "\<not> isCyrillicUpper e" by blast
      with ih have "toLowerCase (e # r) = e # r" by simp
      with er c nd show ?thesis by (simp add: lowerChar_D0 del: toLowerCase.simps(3))
         (simp add: lowerChar_D0)
    next
      case nc: False
      then have "lowerChar c \<noteq> CHR 0xD0" by (rule lowerChar_not_D0)
      with nc False ih show ?thesis
        by (simp add: toLowerCase_other lowerChar_idem del: toLowerCase.simps(3))
    qed
  qed
qed


text \<open>A byte that lower-casing neither produces nor changes.\<close>

lemma toLowerCase_prefix:
  assumes "\<forall>c \<in> set p. c \<noteq> CHR 0xD0 \<and> c \<noteq> CHR 0xD1 \<and> \<not> isLower c \<and> \<not> isUpper c"
    and "toLowerCase x = p @ r"
  shows "take (length p) x = p"
  using assms
proof (induction p arbitrary: x r)
  case Nil
  then show ?case by simp
next
  case (Cons q p)
  from Cons.prems(1) have q: "q \<noteq> CHR 0xD0" "q \<noteq> CHR 0xD1" "\<not> isLower q" "\<not> isUpper q"
    and rest: "\<forall>c \<in> set p. c \<noteq> CHR 0xD0 \<and> c \<noteq> CHR 0xD1 \<and> \<not> isLower c \<and> \<not> isUpper c"
    by simp_all
  show ?case
  proof (cases x)
    case Nil
    with Cons.prems(2) show ?thesis by simp
  next
    case c: (Cons c t)
    show ?thesis
    proof (cases t)
      case Nil
      with c Cons.prems(2) have "lowerChar c = q" "p = []" by simp_all
      with q have "c = q" by (simp add: lowerChar_fixes)
      with c Nil \<open>p = []\<close> show ?thesis by simp
    next
      case d: (Cons d u)
      show ?thesis
      proof (cases "c = CHR 0xD0 \<and> isCyrillicUpper d")
        case True
        obtain a b where ab: "lowerCyrillic d = [a, b]" "a = CHR 0xD0 \<or> a = CHR 0xD1"
          using lowerCyrillic_bytes by blast
        with True c d Cons.prems(2) have "a = q" by simp
        with ab q show ?thesis by simp
      next
        case False
        with c d Cons.prems(2) have e: "lowerChar c = q" "toLowerCase (d # u) = p @ r" by simp_all
        from e(1) q have "c = q" by (simp add: lowerChar_fixes)
        moreover from Cons.IH [OF rest e(2)] have "take (length p) (d # u) = p" .
        ultimately show ?thesis using c d by simp
      qed
    qed
  qed
qed

lemma toLowerCase_suffix:
  assumes "\<forall>c \<in> set p. c \<noteq> CHR 0xD0 \<and> c \<noteq> CHR 0xD1 \<and> \<not> isLower c \<and> \<not> isUpper c"
    and "p \<noteq> []" "\<not> (128 \<le> (of_char (hd p) :: nat) \<and> (of_char (hd p) :: nat) < 192)"
    and "toLowerCase x = r @ p"
  shows "\<exists>u. x = u @ p"
  using assms(4)
proof (induction x arbitrary: r rule: toLowerCase.induct)
  case 1
  with assms(2) show ?case by simp
next
  case (2 c)
  with assms(2) have "r = []" "p = [lowerChar c]"
    by (auto simp add: Cons_eq_append_conv)
  with assms(1) have "\<not> isLower (lowerChar c)" "\<not> isUpper (lowerChar c)" by simp_all
  then have "c = lowerChar c" using lowerChar_fixes [of "lowerChar c" c] by simp
  with \<open>p = [lowerChar c]\<close> have "[c] = [] @ p" by simp
  then show ?case by blast
next
  case (3 c d s)
  show ?case
  proof (cases "c = CHR 0xD0 \<and> isCyrillicUpper d")
    case True
    obtain a b where ab: "lowerCyrillic d = [a, b]" "a = CHR 0xD0 \<or> a = CHR 0xD1"
      using lowerCyrillic_bytes by blast
    from True have b: "128 \<le> (of_char b :: nat) \<and> (of_char b :: nat) < 192"
      using ab(1) by (auto simp add: lowerCyrillic_def isCyrillicUpper_def split: if_splits)
    from True ab "3.prems" have eq: "a # b # toLowerCase s = r @ p" by simp
    show ?thesis
    proof (cases r)
      case Nil
      with eq have "a \<in> set p" by (metis append_Nil list.set_intros(1))
      with assms(1) ab(2) show ?thesis by auto
    next
      case r1: (Cons r0 r')
      show ?thesis
      proof (cases r')
        case Nil
        with r1 eq have "p = b # toLowerCase s" by simp
        with b assms(3) show ?thesis by simp
      next
        case (Cons r1' r'')
        with r1 eq have "toLowerCase s = r'' @ p" by simp
        from "3.IH"(1) [OF True this] obtain u where "s = u @ p" by blast
        then have "c # d # s = (c # d # u) @ p" by simp
        then show ?thesis by blast
      qed
    qed
  next
    case False
    with "3.prems" have eq: "lowerChar c # toLowerCase (d # s) = r @ p" by simp
    show ?thesis
    proof (cases r)
      case Nil
      with "3.prems" have w: "toLowerCase (c # d # s) = p @ []" by simp
      from toLowerCase_prefix [OF assms(1) w] have t: "take (length p) (c # d # s) = p" .
      from w have "length p = length (c # d # s)" by (metis append_Nil2 length_toLowerCase)
      with t have "c # d # s = [] @ p" by simp
      then show ?thesis by blast
    next
      case (Cons r0 r')
      with eq have "toLowerCase (d # s) = r' @ p" by simp
      from "3.IH"(2) [OF False this] obtain u where "d # s = u @ p" by blast
      then have "c # d # s = (c # u) @ p" by simp
      then show ?thesis by blast
    qed
  qed
qed

lemma jsWhitespace_unlowered:
  "\<forall>p \<in> set jsWhitespace. \<forall>c \<in> set p. c \<noteq> CHR 0xD0 \<and> c \<noteq> CHR 0xD1 \<and> \<not> isLower c \<and> \<not> isUpper c"
  by (simp add: jsWhitespace_def isLower_def isUpper_def)

lemma jsWhitespace_heads:
  "\<forall>p \<in> set jsWhitespace. \<not> (128 \<le> (of_char (hd p) :: nat) \<and> (of_char (hd p) :: nat) < 192)"
  by (simp add: jsWhitespace_def)

lemma toLowerCase_keeps_start:
  assumes "leadingLength jsWhitespace x = 0"
  shows "leadingLength jsWhitespace (toLowerCase x) = 0"
proof -
  have "\<forall>p \<in> set jsWhitespace. take (length p) (toLowerCase x) \<noteq> p"
  proof
    fix p assume p: "p \<in> set jsWhitespace"
    show "take (length p) (toLowerCase x) \<noteq> p"
    proof
      assume "take (length p) (toLowerCase x) = p"
      then have "toLowerCase x = p @ drop (length p) (toLowerCase x)"
        by (metis append_take_drop_id)
      from toLowerCase_prefix [OF _ this] p jsWhitespace_unlowered
      have "take (length p) x = p" by blast
      with assms p show False by (simp add: leadingLength_zero_iff jsWhitespace_nonempty)
    qed
  qed
  then show ?thesis by (simp add: leadingLength_zero_iff jsWhitespace_nonempty)
qed

lemma toLowerCase_keeps_end:
  assumes "leadingLength (map rev jsWhitespace) (rev x) = 0"
  shows "leadingLength (map rev jsWhitespace) (rev (toLowerCase x)) = 0"
proof -
  have "\<forall>q \<in> set (map rev jsWhitespace). take (length q) (rev (toLowerCase x)) \<noteq> q"
  proof
    fix q assume "q \<in> set (map rev jsWhitespace)"
    then obtain p where p: "p \<in> set jsWhitespace" "q = rev p" by auto
    then have ne: "p \<noteq> []" using jsWhitespace_nonempty(1) by auto
    show "take (length q) (rev (toLowerCase x)) \<noteq> q"
    proof
      assume "take (length q) (rev (toLowerCase x)) = q"
      then have "rev (toLowerCase x) = rev p @ drop (length q) (rev (toLowerCase x))"
        using p(2) by (metis append_take_drop_id)
      then have "toLowerCase x = rev (drop (length q) (rev (toLowerCase x))) @ p"
        by (metis rev_append rev_rev_ident)
      from toLowerCase_suffix [OF _ ne _ this] p(1) jsWhitespace_unlowered jsWhitespace_heads
      obtain u where "x = u @ p" by blast
      then have "take (length q) (rev x) = q" using p(2) by simp
      with assms \<open>q \<in> set (map rev jsWhitespace)\<close> show False
        by (simp add: leadingLength_zero_iff jsWhitespace_nonempty del: set_map)
    qed
  qed
  then show ?thesis by (simp add: leadingLength_zero_iff jsWhitespace_nonempty del: set_map)
qed

lemma trim_toLowerCase_trim: "trim (toLowerCase (trim m)) = toLowerCase (trim m)"
  using toLowerCase_keeps_start [OF trim_start [of m]] toLowerCase_keeps_end [OF trim_end [of m]]
  by (simp add: trimmed_iff)

lemma toLowerCase_ascii: "CHR 0xD0 \<notin> set t \<Longrightarrow> toLowerCase t = map lowerChar t"
proof (induction t)
  case Nil
  then show ?case by simp
next
  case (Cons a t)
  then have "a \<noteq> CHR 0xD0" "toLowerCase t = map lowerChar t" by auto
  then show ?case by (simp add: toLowerCase_other)
qed

text \<open>
  Evaluating \<open>trim\<close>: a string that starts and ends with a printable ASCII character
  other than the space is left as it is; other strings are trimmed by unfolding.
\<close>

lemmas trim_unfold = trim_def stripLeading_stop stripLeading_step leadingLength_def jsWhitespace_def

lemma leadingLength_plain:
  assumes "[] \<notin> set pats" "\<forall>p \<in> set pats. \<not> (33 \<le> (of_char (hd p) :: nat) \<and> (of_char (hd p) :: nat) < 127)"
    and "s \<noteq> []" "33 \<le> (of_char (hd s) :: nat) \<and> (of_char (hd s) :: nat) < 127"
  shows "leadingLength pats s = 0"
proof -
  have "\<forall>p \<in> set pats. take (length p) s \<noteq> p"
  proof
    fix p assume p: "p \<in> set pats"
    with assms(1) have ne: "p \<noteq> []" by auto
    show "take (length p) s \<noteq> p"
    proof
      assume e: "take (length p) s = p"
      from ne assms(3) have "hd (take (length p) s) = hd s" by (cases s; cases p) simp_all
      with e have "hd p = hd s" by simp
      with assms(2,4) p show False by auto
    qed
  qed
  with assms(1) show ?thesis by (simp add: leadingLength_zero_iff)
qed

lemma jsWhitespace_not_plain:
  "\<forall>p \<in> set jsWhitespace. \<not> (33 \<le> (of_char (hd p) :: nat) \<and> (of_char (hd p) :: nat) < 127)"
  "\<forall>p \<in> set (map rev jsWhitespace). \<not> (33 \<le> (of_char (hd p) :: nat) \<and> (of_char (hd p) :: nat) < 127)"
  by (simp_all add: jsWhitespace_def)

lemma trim_plain:
  assumes "s \<noteq> []" "33 \<le> (of_char (hd s) :: nat) \<and> (of_char (hd s) :: nat) < 127"
    "33 \<le> (of_char (last s) :: nat) \<and> (of_char (last s) :: nat) < 127"
  shows "trim s = s"
proof -
  have a: "stripLeading jsWhitespace s = s"
    by (rule stripLeading_stop)
       (rule leadingLength_plain [OF jsWhitespace_nonempty(1) jsWhitespace_not_plain(1) assms(1,2)])
  from assms(1,3) have r: "rev s \<noteq> []"
    "33 \<le> (of_char (hd (rev s)) :: nat) \<and> (of_char (hd (rev s)) :: nat) < 127"
    by (simp_all add: hd_rev)
  have b: "stripLeading (map rev jsWhitespace) (rev s) = rev s"
    by (rule stripLeading_stop)
       (rule leadingLength_plain [OF jsWhitespace_nonempty(2) jsWhitespace_not_plain(2) r])
  from a b show ?thesis by (simp add: trim_def)
qed

lemma trim_examples:
  "trim [] = []" "trim '' '' = []" "trim [CHR 0xC2, CHR 0xA0] = []"
  "trim ''Sep 14 '' = ''Sep 14''" "trim '' g'' = ''g''" "trim '' Maybe'' = ''Maybe''"
  by (simp_all add: trim_unfold)

lemmas trim_eval = trim_plain trim_examples

lemmas lower_eval = isCyrillicUpper_def lowerCyrillic_def

lemma splitPieces_end: "splitPieces piece [] = [piece]"
  by (subst splitPieces.simps) simp

lemma splitPieces_more:
  "s \<noteq> [] \<Longrightarrow> separatorLength s = 0 \<Longrightarrow> splitPieces piece s = splitPieces (piece @ [hd s]) (tl s)"
  by (subst splitPieces.simps) simp

lemma splitPieces_cut:
  "s \<noteq> [] \<Longrightarrow> separatorLength s \<noteq> 0 \<Longrightarrow>
   splitPieces piece s = piece # splitPieces [] (drop (separatorLength s) s)"
  by (subst splitPieces.simps) simp

subsection \<open>Maps and folds\<close>

lemma map_of_mapSet: "map_of (mapSet k v m) = (map_of m)(k \<mapsto> v)"
  by (induction m) (auto simp add: fun_eq_iff)

lemma set_mapSet: "p \<in> set (mapSet k v m) \<Longrightarrow> p = (k, v) \<or> p \<in> set m"
  by (induction m) (auto split: if_splits)

lemma key_in_mapSet: "k \<in> fst ` set (mapSet k v m)"
  by (induction m) auto

lemma keys_kept_mapSet: "a \<in> fst ` set m \<Longrightarrow> a \<in> fst ` set (mapSet k v m)"
  by (induction m) auto

lemma foldl_invariant:
  assumes "I a" and "\<And>acc x. x \<in> set xs \<Longrightarrow> I acc \<Longrightarrow> I (f acc x)"
  shows "I (foldl f a xs)"
  using assms by (induction xs arbitrary: a) simp_all

subsection \<open>Unfolding the loops\<close>

lemma indexToColumnLetter_loop_step:
  "index > 0 \<Longrightarrow> indexToColumnLetter_loop index result
     = indexToColumnLetter_loop ((index - 1) div 26) (char_of (65 + (index - 1) mod 26) # result)"
  by (subst indexToColumnLetter_loop.simps) simp

lemma indexToColumnLetter_loop_stop: "index \<le> 0 \<Longrightarrow> indexToColumnLetter_loop index result = result"
  by (subst indexToColumnLetter_loop.simps) simp

lemma findLastDateColumn_loop_end:
  "\<not> i < length vals \<Longrightarrow> findLastDateColumn_loop vals i = None"
  by (subst findLastDateColumn_loop.simps) simp

lemma findLastDateColumn_loop_blank:
  "i < length vals \<Longrightarrow> isBlankCell (vals ! i) \<Longrightarrow>
   findLastDateColumn_loop vals i
     = Some \<lparr>dcColumn = indexToColumnLetter
                           (columnLetterToIndex SHEET_DATA_FIRST_COLUMN + (int i - 1)),
             dcDate = trim (String_of (cellAt vals (int i - 1)))\<rparr>"
  by (subst findLastDateColumn_loop.simps) simp

lemma findLastDateColumn_loop_next:
  "i < length vals \<Longrightarrow> \<not> isBlankCell (vals ! i) \<Longrightarrow>
   findLastDateColumn_loop vals i = findLastDateColumn_loop vals (i + 1)"
  by (subst findLastDateColumn_loop.simps) simp

lemma showNat_digit: "n < 10 \<Longrightarrow> showNat n = [char_of (48 + n)]"
  by (subst showNat.simps) simp

lemma showNat_more: "\<not> n < 10 \<Longrightarrow> showNat n = showNat (n div 10) @ [char_of (48 + n mod 10)]"
  by (subst showNat.simps) simp

lemmas loops = indexToColumnLetter_loop_step indexToColumnLetter_loop_stop
  findLastDateColumn_loop_end findLastDateColumn_loop_blank findLastDateColumn_loop_next
  showNat_digit showNat_more

subsection \<open>Column letters\<close>

lemma isUpper_digit: "isUpper c \<Longrightarrow> 1 \<le> (of_char c :: int) - 64 \<and> (of_char c :: int) - 64 \<le> 26"
proof -
  assume "isUpper c"
  then have "(65::nat) \<le> of_char c" and "(of_char c :: nat) \<le> 90"
    by (simp_all add: isUpper_def)
  then have "int 65 \<le> int (of_char c)" and "int (of_char c) \<le> int 90"
    by (simp_all only: of_nat_le_iff)
  then show ?thesis by (simp add: of_nat_of_char)
qed

lemma char_of_int_eq: "char_of (n::int) = c \<longleftrightarrow> n mod 256 = of_char c"
  by (simp add: char_of_eq_iff take_bit_eq_mod)

lemma char_of_nat_eq: "char_of (n::nat) = c \<longleftrightarrow> n mod 256 = of_char c"
  by (simp add: char_of_eq_iff take_bit_eq_mod)

lemma foldl_letters_value:
  "foldl (\<lambda>index c. index * 26 + (of_char c - 64)) 0 s = letters_value (rev s)"
  by (induction s rule: rev_induct) simp_all

lemma columnLetterToIndex_value: "columnLetterToIndex s = letters_value (rev s) - 1"
  by (simp add: columnLetterToIndex_def foldl_letters_value)

lemma letters_value_nonneg: "list_all isUpper r \<Longrightarrow> 0 \<le> letters_value r"
  by (induction r) (use isUpper_digit in fastforce)+

lemma digit_div_mod:
  fixes d v :: int
  assumes "1 \<le> d" "d \<le> 26"
  shows "(d + 26 * v - 1) div 26 = v" and "(d + 26 * v - 1) mod 26 = d - 1"
proof -
  have e: "d + 26 * v - 1 = (d - 1) + 26 * v" by simp
  show "(d + 26 * v - 1) div 26 = v" unfolding e using assms by simp
  show "(d + 26 * v - 1) mod 26 = d - 1" unfolding e using assms by simp
qed

text \<open>The loop of \<open>indexToColumnLetter\<close> writes out the letters of a value.\<close>

lemma loop_letters_value:
  "list_all isUpper r \<Longrightarrow> indexToColumnLetter_loop (letters_value r) acc = rev r @ acc"
proof (induction r arbitrary: acc)
  case Nil
  then show ?case by (simp add: indexToColumnLetter_loop_stop)
next
  case (Cons c r)
  let ?d = "(of_char c :: int) - 64"
  let ?v = "letters_value r"
  from Cons.prems have up: "isUpper c" and rest: "list_all isUpper r" by simp_all
  from isUpper_digit [OF up] have d: "1 \<le> ?d" "?d \<le> 26" by simp_all
  from letters_value_nonneg [OF rest] have v: "0 \<le> ?v" .
  have pos: "letters_value (c # r) > 0" using d v by simp
  have dv: "(letters_value (c # r) - 1) div 26 = ?v"
    using digit_div_mod(1) [OF d] by simp
  have md: "(letters_value (c # r) - 1) mod 26 = ?d - 1"
    using digit_div_mod(2) [OF d] by simp
  have ch: "char_of (65 + (?d - 1)) = c"
  proof -
    have "65 + (?d - 1) = (of_char c :: int)" by simp
    then show ?thesis by (simp only: char_of_char)
  qed
  have "indexToColumnLetter_loop (letters_value (c # r)) acc
        = indexToColumnLetter_loop ?v (c # acc)"
    by (subst indexToColumnLetter_loop.simps) (simp only: pos dv md ch if_True)
  also have "\<dots> = rev r @ (c # acc)" using Cons.IH [OF rest] .
  finally show ?case by simp
qed

lemma of_char_Z: "(of_char c :: nat) = 90 \<longleftrightarrow> c = CHR ''Z''"
proof -
  have "(of_char c :: nat) = of_char CHR ''Z'' \<longleftrightarrow> c = CHR ''Z''" by (rule of_char_eq_iff)
  then show ?thesis by simp
qed

lemma succ_char:
  assumes "isUpper c" "c \<noteq> CHR ''Z''"
  shows "isUpper (char_of (of_char c + (1::nat)))"
    and "(of_char (char_of (of_char c + (1::nat))) :: int) = of_char c + 1"
proof -
  from assms(1) have b: "(65::nat) \<le> of_char c" "(of_char c :: nat) \<le> 90"
    by (simp_all add: isUpper_def)
  from assms(2) have "(of_char c :: nat) \<noteq> 90" by (simp add: of_char_Z)
  with b have lt: "(of_char c :: nat) < 90" by simp
  have n: "(of_char (char_of (of_char c + (1::nat))) :: nat) = of_char c + 1"
    using lt by simp
  show "isUpper (char_of (of_char c + (1::nat)))"
    unfolding isUpper_def n using b lt by simp
  have "(of_char (char_of (of_char c + (1::nat))) :: int)
        = int (of_char (char_of (of_char c + (1::nat))))"
    by (simp only: of_nat_of_char)
  also have "\<dots> = int (of_char c + 1)" by (simp only: n)
  also have "\<dots> = of_char c + 1" by (simp add: of_nat_of_char)
  finally show "(of_char (char_of (of_char c + (1::nat))) :: int) = of_char c + 1" .
qed

lemma succ_letters_upper: "list_all isUpper r \<Longrightarrow> list_all isUpper (succ_letters r)"
proof (induction r)
  case Nil
  show ?case by (simp add: isUpper_def)
next
  case (Cons c r)
  then have up: "isUpper c" and rest: "list_all isUpper r" by simp_all
  show ?case
  proof (cases "c = CHR ''Z''")
    case True
    then show ?thesis using Cons.IH [OF rest] by (simp add: isUpper_def)
  next
    case False
    then show ?thesis using succ_char(1) [OF up False] rest by simp
  qed
qed

lemma succ_letters_value:
  "list_all isUpper r \<Longrightarrow> letters_value (succ_letters r) = letters_value r + 1"
proof (induction r)
  case Nil
  show ?case by simp
next
  case (Cons c r)
  then have up: "isUpper c" and rest: "list_all isUpper r" by simp_all
  show ?case
  proof (cases "c = CHR ''Z''")
    case True
    then show ?thesis using Cons.IH [OF rest] by simp
  next
    case False
    then show ?thesis using succ_char(2) [OF up False] by simp
  qed
qed

lemma getNextColumnLetter_spec:
  assumes "isColumnLetters s"
  shows "getNextColumnLetter s = nextColumn_spec s"
proof -
  from assms have up: "list_all isUpper (rev s)" by (simp add: isColumnLetters_def)
  have "getNextColumnLetter s = indexToColumnLetter_loop (letters_value (rev s) + 1) []"
    by (simp add: getNextColumnLetter_def indexToColumnLetter_def columnLetterToIndex_value)
  also have "\<dots> = indexToColumnLetter_loop (letters_value (succ_letters (rev s))) []"
    by (simp only: succ_letters_value [OF up])
  also have "\<dots> = rev (succ_letters (rev s)) @ []"
    by (rule loop_letters_value [OF succ_letters_upper [OF up]])
  finally show ?thesis by (simp add: nextColumn_spec_def)
qed

lemma nextColumn_spec_letters: "isColumnLetters s \<Longrightarrow> isColumnLetters (nextColumn_spec s)"
  using succ_letters_upper [of "rev s"] by (simp add: isColumnLetters_def nextColumn_spec_def)

lemma nextColumn_spec_index:
  "isColumnLetters s \<Longrightarrow> columnLetterToIndex (nextColumn_spec s) = columnLetterToIndex s + 1"
  using succ_letters_value [of "rev s"]
  by (simp add: isColumnLetters_def nextColumn_spec_def columnLetterToIndex_value)

lemma getNextColumnLetter_examples:
  "getNextColumnLetter ''Z'' = ''AA''" "getNextColumnLetter ''O'' = ''P''"
  "getNextColumnLetter ''AZ'' = ''BA''"
  by (simp_all add: getNextColumnLetter_def indexToColumnLetter_def columnLetterToIndex_def
        char_of_int_eq loops)

text \<open>
  C9. \<open>getNextColumnLetter\<close> is the successor of base 26 with the digits \<open>A\<close> to \<open>Z\<close>
  and no zero: on every string of capital letters it returns what the carry rule
  \<open>nextColumn_spec\<close> returns, again a string of capital letters, whose index is one more;
  and \<open>Z\<close> goes to \<open>AA\<close>, \<open>O\<close> to \<open>P\<close>, \<open>AZ\<close> to \<open>BA\<close>.
\<close>

theorem getNextColumnLetter_successor:
  "(isColumnLetters s \<longrightarrow>
      getNextColumnLetter s = nextColumn_spec s
    \<and> isColumnLetters (getNextColumnLetter s)
    \<and> columnLetterToIndex (getNextColumnLetter s) = columnLetterToIndex s + 1)
   \<and> getNextColumnLetter ''Z'' = ''AA''
   \<and> getNextColumnLetter ''O'' = ''P''
   \<and> getNextColumnLetter ''AZ'' = ''BA''"
  using getNextColumnLetter_spec [of s] nextColumn_spec_letters [of s] nextColumn_spec_index [of s]
    getNextColumnLetter_examples
  by simp

theorem getNextColumnLetter_successor_witness:
  "isColumnLetters ''ZZ'' \<and> getNextColumnLetter ''ZZ'' = nextColumn_spec ''ZZ''
   \<and> nextColumn_spec ''ZZ'' = ''AAA''
   \<and> columnLetterToIndex (getNextColumnLetter ''ZZ'') = columnLetterToIndex ''ZZ'' + 1"
proof -
  have h: "isColumnLetters ''ZZ''" by (simp add: isColumnLetters_def isUpper_def)
  have v: "nextColumn_spec ''ZZ'' = ''AAA''" by (simp add: nextColumn_spec_def)
  from getNextColumnLetter_successor [of "''ZZ''"] h v show ?thesis
    by (simp add: columnLetterToIndex_def)
qed

subsection \<open>The header scan\<close>


lemma loop_None_iff:
  "findLastDateColumn_loop vals i = None
   \<longleftrightarrow> (\<forall>k. i \<le> k \<and> k < length vals \<longrightarrow> \<not> isBlankCell (vals ! k))"
proof (induction vals i rule: findLastDateColumn_loop.induct)
  case (1 vals i)
  show ?case
  proof (cases "i < length vals")
    case False
    then show ?thesis by (subst findLastDateColumn_loop.simps) auto
  next
    case inr: True
    show ?thesis
    proof (cases "isBlankCell (vals ! i)")
      case True
      with inr show ?thesis by (subst findLastDateColumn_loop.simps) auto
    next
      case False
      have "findLastDateColumn_loop vals i = findLastDateColumn_loop vals (i + 1)"
        using inr False by (subst findLastDateColumn_loop.simps) simp
      moreover have "(\<forall>k. i \<le> k \<and> k < length vals \<longrightarrow> \<not> isBlankCell (vals ! k))
        \<longleftrightarrow> (\<forall>k. i + 1 \<le> k \<and> k < length vals \<longrightarrow> \<not> isBlankCell (vals ! k))"
      proof -
        have "\<And>k. i \<le> k \<Longrightarrow> k = i \<or> i + 1 \<le> k" by arith
        then show ?thesis using False by fastforce
      qed
      ultimately show ?thesis using "1.IH" [OF inr False] by simp
    qed
  qed
qed

lemma loop_first_blank:
  assumes "j < length vals" "isBlankCell (vals ! j)"
    and "\<forall>k. i \<le> k \<and> k < j \<longrightarrow> \<not> isBlankCell (vals ! k)" "i \<le> j"
  shows "findLastDateColumn_loop vals i =
     Some \<lparr>dcColumn = indexToColumnLetter (columnLetterToIndex SHEET_DATA_FIRST_COLUMN + (int j - 1)),
           dcDate = trim (String_of (cellAt vals (int j - 1)))\<rparr>"
  using assms
proof (induction vals i rule: findLastDateColumn_loop.induct)
  case (1 vals i)
  from "1.prems" have inr: "i < length vals" by simp
  show ?case
  proof (cases "i = j")
    case True
    with "1.prems" inr show ?thesis by (subst findLastDateColumn_loop.simps) simp
  next
    case False
    with "1.prems" have lt: "i < j" by simp
    with "1.prems" have nb: "\<not> isBlankCell (vals ! i)" by simp
    have step: "findLastDateColumn_loop vals i = findLastDateColumn_loop vals (i + 1)"
      using inr nb by (subst findLastDateColumn_loop.simps) simp
    have "\<forall>k. i + 1 \<le> k \<and> k < j \<longrightarrow> \<not> isBlankCell (vals ! k)"
      using "1.prems"(3) by simp
    moreover have "i + 1 \<le> j" using lt by simp
    ultimately show ?thesis
      using "1.IH" [OF inr nb "1.prems"(1) "1.prems"(2)] step by simp
  qed
qed

lemma scan_run:
  assumes "pre \<noteq> []" "list_all (\<lambda>c. \<not> isBlankCell c) pre" "isBlankCell b"
  shows "findLastDateColumn_scan (Some ((pre @ b # rest) # others)) =
     Some \<lparr>dcColumn = indexToColumnLetter
                         (columnLetterToIndex SHEET_DATA_FIRST_COLUMN + (int (length pre) - 1)),
           dcDate = trim (String_of (last pre))\<rparr>"
proof -
  let ?vals = "pre @ b # rest"
  have j: "length pre < length ?vals" by simp
  have bj: "isBlankCell (?vals ! length pre)" using assms(3) by simp
  have before: "\<forall>k. 0 \<le> k \<and> k < length pre \<longrightarrow> \<not> isBlankCell (?vals ! k)"
    using assms(2) by (simp add: nth_append list_all_length)
  have prev: "cellAt ?vals (int (length pre) - 1) = last pre"
  proof -
    from assms(1) have pos: "0 < length pre" by simp
    then have n: "nat (int (length pre) - 1) = length pre - 1" by simp
    have "cellAt ?vals (int (length pre) - 1) = ?vals ! (length pre - 1)"
      using pos by (simp add: cellAt_def n)
    also have "\<dots> = pre ! (length pre - 1)" using pos by (simp add: nth_append)
    also have "\<dots> = last pre" using assms(1) by (simp add: last_conv_nth)
    finally show ?thesis .
  qed
  show ?thesis
    unfolding findLastDateColumn_scan_def firstRow.simps
    using loop_first_blank [OF j bj before] prev by simp
qed

lemma scan_example:
  "findLastDateColumn_scan (Some [[CStr ''Sep 7'', CStr ''Sep 14'', CStr '''']]) =
     Some \<lparr>dcColumn = ''G'', dcDate = ''Sep 14''\<rparr>"
  by (simp add: findLastDateColumn_scan_def SHEET_DATA_FIRST_COLUMN_def columnLetterToIndex_def
       indexToColumnLetter_def cellAt_def trim_eval char_of_int_eq loops)

subsection \<open>Poll votes\<close>

lemma votersFor_removeFromAll:
  "votersFor (removeFromAll u vs) k = removeAll u (votersFor vs k)"
  by (induction vs) (auto simp add: votersFor_def removeFromAll_def)

lemma votersFor_addToOption:
  "votersFor (addToOption u vs i) k = (if k = i then setAdd u (votersFor vs i) else votersFor vs k)"
  by (cases "map_of vs i") (simp_all add: addToOption_def votersFor_def map_of_mapSet)

lemma set_setAdd: "set (setAdd u voters) = insert u (set voters)"
  by (auto simp add: setAdd_def)

lemma voters_after_adding:
  "set (votersFor (foldl (addToOption u) vs ids) k)
   = (if k \<in> set ids then insert u (set (votersFor vs k)) else set (votersFor vs k))"
  by (induction ids arbitrary: vs) (auto simp add: votersFor_addToOption set_setAdd)

lemma voters_after_event:
  "set (votersFor (foldl (addToOption u) (removeFromAll u vs) ids) k)
   = (if k \<in> set ids then insert u (set (votersFor vs k)) else set (votersFor vs k) - {u})"
  by (auto simp add: voters_after_adding votersFor_removeFromAll)

lemma exclusive_after_event:
  assumes ex: "exclusive vs" and one: "length (remdups ids) \<le> 1"
  shows "exclusive (foldl (addToOption u) (removeFromAll u vs) ids)"
proof -
  have same: "\<And>i j. i \<in> set ids \<Longrightarrow> j \<in> set ids \<Longrightarrow> i = j"
  proof -
    fix i j assume "i \<in> set ids" "j \<in> set ids"
    then have "i \<in> set (remdups ids)" "j \<in> set (remdups ids)" by simp_all
    with one show "i = j" by (cases "remdups ids") (auto split: if_splits)
  qed
  show ?thesis
    unfolding exclusive_def
  proof (intro allI impI)
    fix w i j
    assume m: "w \<in> set (votersFor (foldl (addToOption u) (removeFromAll u vs) ids) i)
             \<and> w \<in> set (votersFor (foldl (addToOption u) (removeFromAll u vs) ids) j)"
    show "i = j"
    proof (cases "w = u")
      case True
      with m have "i \<in> set ids" "j \<in> set ids"
        by (auto simp add: voters_after_event split: if_splits)
      then show ?thesis by (rule same)
    next
      case False
      with m have "w \<in> set (votersFor vs i)" "w \<in> set (votersFor vs j)"
        by (auto simp add: voters_after_event split: if_splits)
      with ex show ?thesis by (auto simp add: exclusive_def)
    qed
  qed
qed

lemma pollVotes_onPollAnswer:
  "pollVotes (onPollAnswer pa polls) pid = pollVotes polls pid
   \<or> (\<exists>a name. pa = Some a \<and> pid = poll_id a \<and> map_of polls pid \<noteq> None
        \<and> user a \<noteq> None \<and> name \<noteq> []
        \<and> pollVotes (onPollAnswer pa polls) pid
            = foldl (addToOption (CHR ''@'' # name)) (removeFromAll (CHR ''@'' # name) (pollVotes polls pid))
                (option_ids a))"
  by (auto simp add: onPollAnswer_def pollVotes_def map_of_mapSet Let_def
        split: option.splits)

lemma exclusive_onPollAnswer:
  assumes "exclusive (pollVotes polls pid)"
    and "\<forall>a. pa = Some a \<longrightarrow> length (remdups (option_ids a)) \<le> 1"
  shows "exclusive (pollVotes (onPollAnswer pa polls) pid)"
  using pollVotes_onPollAnswer [of pa polls pid] assms
  by (auto simp add: exclusive_after_event)

lemma onPollAnswer_untracked:
  "map_of polls (poll_id a) = None \<Longrightarrow> onPollAnswer (Some a) polls = polls"
  by (simp add: onPollAnswer_def)

lemma onPollAnswer_no_username:
  "user a = None \<or> (\<exists>usr. user a = Some usr \<and> (username usr = None \<or> username usr = Some []))
   \<Longrightarrow> onPollAnswer (Some a) polls = polls"
  by (auto simp add: onPollAnswer_def split: option.splits)

lemma onPollAnswer_tracked:
  assumes "map_of polls (poll_id a) = Some pd" "user a = Some usr" "username usr = Some name"
    "name \<noteq> []"
  shows "map_of (onPollAnswer (Some a) polls)
     = (map_of polls)(poll_id a \<mapsto>
          pd\<lparr>votes := foldl (addToOption (CHR ''@'' # name))
                          (removeFromAll (CHR ''@'' # name) (votes pd)) (option_ids a)\<rparr>)"
  using assms by (simp add: onPollAnswer_def map_of_mapSet Let_def)

lemma registerPoll_exclusive:
  assumes "\<forall>pid. exclusive (pollVotes polls pid)"
  shows "exclusive (pollVotes (registerPoll newId q opts polls) pid)"
  using assms
  by (cases "pid = newId")
     (simp_all add: registerPoll_def pollVotes_def map_of_mapSet exclusive_def votersFor_def)

lemma no_polls_exclusive: "exclusive (pollVotes [] pid)"
  by (simp add: exclusive_def pollVotes_def votersFor_def)

text \<open>
  C1. The polls of the registry are those that the \<open>/poll\<close> command creates: without
  \<open>allows_multiple_answers\<close>, so that an answer carries at most one option index, and with
  no votes. When no identity of any poll of the registry is in two options' sets, as
  with no poll and after every registration, then after the handler has processed any
  sequence of such answers no identity of any poll is in two options' sets.
\<close>

theorem onPollAnswers_exclusive:
  "\<forall>pid. exclusive (pollVotes polls pid) \<Longrightarrow>
   \<forall>a \<in> set answers. length (remdups (option_ids a)) \<le> 1 \<Longrightarrow>
   exclusive (pollVotes (onPollAnswers answers polls) pid)"
proof (induction answers arbitrary: polls pid)
  case Nil
  then show ?case by (simp add: onPollAnswers_def)
next
  case (Cons a answers)
  have "\<forall>pid. exclusive (pollVotes (onPollAnswer (Some a) polls) pid)"
    using Cons.prems by (auto intro: exclusive_onPollAnswer)
  moreover have "\<forall>a \<in> set answers. length (remdups (option_ids a)) \<le> 1"
    using Cons.prems by simp
  ultimately have "exclusive (pollVotes (onPollAnswers answers (onPollAnswer (Some a) polls)) pid)"
    by (rule Cons.IH)
  then show ?case by (simp add: onPollAnswers_def)
qed

theorem onPollAnswers_exclusive_witness:
  "exclusive (pollVotes (onPollAnswers
        [\<lparr>poll_id = ''p'', user = Some \<lparr>username = Some ''x''\<rparr>, option_ids = [0]\<rparr>,
         \<lparr>poll_id = ''p'', user = Some \<lparr>username = Some ''y''\<rparr>, option_ids = [0]\<rparr>,
         \<lparr>poll_id = ''p'', user = Some \<lparr>username = Some ''x''\<rparr>, option_ids = [1]\<rparr>]
        [(''p'', \<lparr>question = ''Q'', options = [''Yes'', ''No''], votes = []\<rparr>)]) ''p'')
   \<and> pollVotes (onPollAnswers
        [\<lparr>poll_id = ''p'', user = Some \<lparr>username = Some ''x''\<rparr>, option_ids = [0]\<rparr>,
         \<lparr>poll_id = ''p'', user = Some \<lparr>username = Some ''y''\<rparr>, option_ids = [0]\<rparr>,
         \<lparr>poll_id = ''p'', user = Some \<lparr>username = Some ''x''\<rparr>, option_ids = [1]\<rparr>]
        [(''p'', \<lparr>question = ''Q'', options = [''Yes'', ''No''], votes = []\<rparr>)]) ''p''
      = [(0, [''@y'']), (1, [''@x''])]"
proof -
  have h1: "\<forall>pid. exclusive (pollVotes
      [(''p'', \<lparr>question = ''Q'', options = [''Yes'', ''No''], votes = []\<rparr>)] pid)"
    by (simp add: exclusive_def pollVotes_def votersFor_def)
  have h2: "\<forall>a \<in> set
        [\<lparr>poll_id = ''p'', user = Some \<lparr>username = Some ''x''\<rparr>, option_ids = [0]\<rparr>,
         \<lparr>poll_id = ''p'', user = Some \<lparr>username = Some ''y''\<rparr>, option_ids = [0]\<rparr>,
         \<lparr>poll_id = ''p'', user = Some \<lparr>username = Some ''x''\<rparr>, option_ids = [1::nat]\<rparr>].
      length (remdups (option_ids a)) \<le> 1"
    by simp
  have v: "pollVotes (onPollAnswers
        [\<lparr>poll_id = ''p'', user = Some \<lparr>username = Some ''x''\<rparr>, option_ids = [0]\<rparr>,
         \<lparr>poll_id = ''p'', user = Some \<lparr>username = Some ''y''\<rparr>, option_ids = [0]\<rparr>,
         \<lparr>poll_id = ''p'', user = Some \<lparr>username = Some ''x''\<rparr>, option_ids = [1]\<rparr>]
        [(''p'', \<lparr>question = ''Q'', options = [''Yes'', ''No''], votes = []\<rparr>)]) ''p''
      = [(0, [''@y'']), (1, [''@x''])]"
    by (simp add: onPollAnswers_def onPollAnswer_def pollVotes_def removeFromAll_def addToOption_def
        setAdd_def Let_def)
  from onPollAnswers_exclusive [OF h1 h2, of "''p''"] v show ?thesis by simp
qed

text \<open>
  C3. An answer for a poll that is not tracked leaves the registry as it is. An answer
  for a tracked poll whose voter has a user name changes that poll only: afterwards the
  set of an option carried by the answer is its old set with the identity added, the set
  of any other option is its old set without the identity, as removing the identity
  everywhere and then adding it to the carried options gives; with no option carried the
  identity is in no set.
\<close>

theorem onPollAnswer_vote_change:
  "(map_of polls (poll_id a) = None \<longrightarrow> onPollAnswer (Some a) polls = polls)
   \<and> (map_of polls (poll_id a) = Some pd \<and> user a = Some usr \<and> username usr = Some name
        \<and> name \<noteq> [] \<longrightarrow>
        pollVotes (onPollAnswer (Some a) polls) (poll_id a)
          = foldl (addToOption (CHR ''@'' # name))
              (removeFromAll (CHR ''@'' # name) (votes pd)) (option_ids a)
      \<and> (\<forall>k. set (votersFor (removeFromAll (CHR ''@'' # name) (votes pd)) k)
               = set (votersFor (votes pd) k) - {CHR ''@'' # name})
      \<and> (\<forall>k. set (votersFor (pollVotes (onPollAnswer (Some a) polls) (poll_id a)) k)
               = (if k \<in> set (option_ids a)
                  then insert (CHR ''@'' # name) (set (votersFor (votes pd) k))
                  else set (votersFor (votes pd) k) - {CHR ''@'' # name}))
      \<and> (\<forall>pid. pid \<noteq> poll_id a \<longrightarrow>
               map_of (onPollAnswer (Some a) polls) pid = map_of polls pid)
      \<and> (option_ids a = [] \<longrightarrow>
            (\<forall>k. CHR ''@'' # name \<notin> set (votersFor (pollVotes (onPollAnswer (Some a) polls) (poll_id a)) k))))"
proof (intro conjI impI)
  assume "map_of polls (poll_id a) = None"
  then show "onPollAnswer (Some a) polls = polls" by (rule onPollAnswer_untracked)
next
  assume h: "map_of polls (poll_id a) = Some pd \<and> user a = Some usr \<and> username usr = Some name
        \<and> name \<noteq> []"
  then have m: "map_of (onPollAnswer (Some a) polls)
     = (map_of polls)(poll_id a \<mapsto>
          pd\<lparr>votes := foldl (addToOption (CHR ''@'' # name))
                          (removeFromAll (CHR ''@'' # name) (votes pd)) (option_ids a)\<rparr>)"
    by (simp add: onPollAnswer_tracked)
  show v: "pollVotes (onPollAnswer (Some a) polls) (poll_id a)
          = foldl (addToOption (CHR ''@'' # name))
              (removeFromAll (CHR ''@'' # name) (votes pd)) (option_ids a)"
    by (simp add: pollVotes_def m)
  show "\<forall>k. set (votersFor (removeFromAll (CHR ''@'' # name) (votes pd)) k)
               = set (votersFor (votes pd) k) - {CHR ''@'' # name}"
    by (auto simp add: votersFor_removeFromAll)
  show "\<forall>k. set (votersFor (pollVotes (onPollAnswer (Some a) polls) (poll_id a)) k)
               = (if k \<in> set (option_ids a)
                  then insert (CHR ''@'' # name) (set (votersFor (votes pd) k))
                  else set (votersFor (votes pd) k) - {CHR ''@'' # name})"
    by (simp only: v voters_after_event) simp
  show "\<forall>pid. pid \<noteq> poll_id a \<longrightarrow>
               map_of (onPollAnswer (Some a) polls) pid = map_of polls pid"
    by (simp add: m)
  assume "option_ids a = []"
  then show "\<forall>k. CHR ''@'' # name \<notin> set (votersFor (pollVotes (onPollAnswer (Some a) polls) (poll_id a)) k)"
    by (simp only: v voters_after_event) simp
qed

theorem onPollAnswer_vote_change_witness:
  "pollVotes (onPollAnswer
       (Some \<lparr>poll_id = ''p'', user = Some \<lparr>username = Some ''x''\<rparr>, option_ids = [1]\<rparr>)
       [(''p'', \<lparr>question = ''Q'', options = [''Yes'', ''No''],
                votes = [(0, [''@x'', ''@y'']), (1, [])]\<rparr>)]) ''p''
     = [(0, [''@y'']), (1, [''@x''])]
   \<and> onPollAnswer
       (Some \<lparr>poll_id = ''q'', user = Some \<lparr>username = Some ''x''\<rparr>, option_ids = [1]\<rparr>)
       [(''p'', \<lparr>question = ''Q'', options = [''Yes'', ''No''],
                votes = [(0, [''@x'', ''@y'']), (1, [])]\<rparr>)]
     = [(''p'', \<lparr>question = ''Q'', options = [''Yes'', ''No''],
                votes = [(0, [''@x'', ''@y'']), (1, [])]\<rparr>)]"
proof -
  have h: "map_of [(''p'', \<lparr>question = ''Q'', options = [''Yes'', ''No''],
                votes = [(0::nat, [''@x'', ''@y'']), (1, [])]\<rparr>)] ''p''
      = Some \<lparr>question = ''Q'', options = [''Yes'', ''No''],
                votes = [(0, [''@x'', ''@y'']), (1, [])]\<rparr>
     \<and> Some \<lparr>username = Some ''x''\<rparr> = Some \<lparr>username = Some ''x''\<rparr>
     \<and> Some ''x'' = Some ''x'' \<and> ''x'' \<noteq> []"
    by simp
  have u: "map_of [(''p'', \<lparr>question = ''Q'', options = [''Yes'', ''No''],
                votes = [(0::nat, [''@x'', ''@y'']), (1, [])]\<rparr>)] ''q'' = None"
    by simp
  from onPollAnswer_vote_change
         [of "[(''p'', \<lparr>question = ''Q'', options = [''Yes'', ''No''],
                votes = [(0, [''@x'', ''@y'']), (1, [])]\<rparr>)]"
             "\<lparr>poll_id = ''p'', user = Some \<lparr>username = Some ''x''\<rparr>, option_ids = [1]\<rparr>"
             "\<lparr>question = ''Q'', options = [''Yes'', ''No''],
                votes = [(0, [''@x'', ''@y'']), (1, [])]\<rparr>"
             "\<lparr>username = Some ''x''\<rparr>" "''x''"] h
  have p1: "pollVotes (onPollAnswer
       (Some \<lparr>poll_id = ''p'', user = Some \<lparr>username = Some ''x''\<rparr>, option_ids = [1]\<rparr>)
       [(''p'', \<lparr>question = ''Q'', options = [''Yes'', ''No''],
                votes = [(0, [''@x'', ''@y'']), (1, [])]\<rparr>)]) ''p''
     = [(0, [''@y'']), (1, [''@x''])]"
    by (simp add: removeFromAll_def addToOption_def setAdd_def)
  from onPollAnswer_vote_change
         [of "[(''p'', \<lparr>question = ''Q'', options = [''Yes'', ''No''],
                votes = [(0, [''@x'', ''@y'']), (1, [])]\<rparr>)]"
             "\<lparr>poll_id = ''q'', user = Some \<lparr>username = Some ''x''\<rparr>, option_ids = [1]\<rparr>"] u
  have p2: "onPollAnswer
       (Some \<lparr>poll_id = ''q'', user = Some \<lparr>username = Some ''x''\<rparr>, option_ids = [1]\<rparr>)
       [(''p'', \<lparr>question = ''Q'', options = [''Yes'', ''No''],
                votes = [(0, [''@x'', ''@y'']), (1, [])]\<rparr>)]
     = [(''p'', \<lparr>question = ''Q'', options = [''Yes'', ''No''],
                votes = [(0, [''@x'', ''@y'']), (1, [])]\<rparr>)]"
    by simp
  from p1 p2 show ?thesis by simp
qed

subsection \<open>Rules for failures\<close>

lemma propagates_quiet:
  assumes "\<And>st. calls (snd (snd (m st))) = calls (snd st)"
  shows "propagates m"
  unfolding propagates_def
proof
  fix st
  show "\<exists>d. calls (snd (snd (m st))) = calls (snd st) @ d
        \<and> (\<forall>c \<in> set (butlast d). \<not> failed c)
        \<and> (d \<noteq> [] \<and> failed (last d) \<longrightarrow> fst (m st) = Inl (thrownBy (snd (last d))))"
    by (rule exI [of _ "[]"]) (simp add: assms)
qed

lemma propagates_ret: "propagates (ret x)"
  by (rule propagates_quiet) (simp add: ret_def)

lemma propagates_throw: "propagates (throw e)"
  by (rule propagates_quiet) (simp add: throw_def)

lemma propagates_sendReply: "propagates (sendReply r)"
  by (rule propagates_quiet) (simp add: sendReply_def)

lemma propagates_setSession: "propagates (setSession f)"
  by (rule propagates_quiet) (simp add: setSession_def)

lemma propagates_callStore: "propagates (callStore req)"
  unfolding propagates_def
proof
  fix st :: "'a \<times> world"
  let ?r = "nextResponse (snd st)"
  show "\<exists>d. calls (snd (snd (callStore req st))) = calls (snd st) @ d
        \<and> (\<forall>c \<in> set (butlast d). \<not> failed c)
        \<and> (d \<noteq> [] \<and> failed (last d) \<longrightarrow> fst (callStore req st) = Inl (thrownBy (snd (last d))))"
    by (rule exI [of _ "[(req, ?r)]"]) (simp add: callStore_def Let_def failed_def)
qed

text \<open>Appending the calls of two computations run one after the other.\<close>

lemma all_ok_nonfailed_last:
  assumes "\<forall>c \<in> set (butlast d). \<not> failed c" "d \<noteq> [] \<Longrightarrow> \<not> failed (last d)"
  shows "\<forall>c \<in> set d. \<not> failed c"
proof (cases "d = []")
  case True
  then show ?thesis by simp
next
  case False
  then have "d = butlast d @ [last d]" by simp
  then have "set d = insert (last d) (set (butlast d))"
    by (metis Un_insert_right append_Nil2 list.simps(15) set_append)
  then show ?thesis using assms False by auto
qed

lemma butlast_append_ok:
  assumes "\<forall>c \<in> set (butlast d1). \<not> failed c" "\<forall>c \<in> set (butlast d2). \<not> failed c"
    and "d1 \<noteq> [] \<Longrightarrow> \<not> failed (last d1)"
  shows "\<forall>c \<in> set (butlast (d1 @ d2)). \<not> failed c"
proof (cases "d2 = []")
  case True
  then show ?thesis using assms(1) by simp
next
  case False
  from all_ok_nonfailed_last [OF assms(1) assms(3)] have "\<forall>c \<in> set d1. \<not> failed c" by simp
  then show ?thesis using assms(2) False by (auto simp add: butlast_append)
qed

text \<open>A computation that throws on failure, followed by one that recovers.\<close>

lemma recovers_andThen:
  assumes m: "propagates m" and f: "\<And>x. recovers (f x)"
  shows "recovers (andThen m f)"
  unfolding recovers_def
proof
  fix st
  from m obtain d1 where d1: "calls (snd (snd (m st))) = calls (snd st) @ d1"
    "\<forall>c \<in> set (butlast d1). \<not> failed c"
    "d1 \<noteq> [] \<and> failed (last d1) \<longrightarrow> fst (m st) = Inl (thrownBy (snd (last d1)))"
    unfolding propagates_def by blast
  let ?G = "\<lambda>out d. calls (snd (snd out)) = calls (snd st) @ d
        \<and> (\<forall>c \<in> set (butlast d). \<not> failed c)
        \<and> (d \<noteq> [] \<and> failed (last d) \<longrightarrow>
              fst out = Inl (thrownBy (snd (last d)))
            \<or> (\<exists>x. fst out = Inr x) \<and> cleared (fst (snd out))
                \<and> errorReplied (thrownBy (snd (last d))) (snd (snd out)))"
  show "\<exists>d. ?G (andThen m f st) d"
  proof (cases "fst (m st)")
    case (Inl e)
    then have "andThen m f st = (Inl e, snd (m st))"
      by (cases "m st") (simp add: andThen_def)
    with d1 Inl have "?G (andThen m f st) d1" by simp
    then show ?thesis ..
  next
    case (Inr x)
    then have run: "andThen m f st = f x (snd (m st))"
      by (cases "m st") (simp add: andThen_def)
    from Inr d1(3) have ok1: "d1 \<noteq> [] \<Longrightarrow> \<not> failed (last d1)" by auto
    from f [of x] obtain d2 where d2:
      "calls (snd (snd (f x (snd (m st))))) = calls (snd (snd (m st))) @ d2"
      "\<forall>c \<in> set (butlast d2). \<not> failed c"
      "d2 \<noteq> [] \<and> failed (last d2) \<longrightarrow>
              fst (f x (snd (m st))) = Inl (thrownBy (snd (last d2)))
            \<or> (\<exists>y. fst (f x (snd (m st))) = Inr y) \<and> cleared (fst (snd (f x (snd (m st)))))
                \<and> errorReplied (thrownBy (snd (last d2))) (snd (snd (f x (snd (m st)))))"
      unfolding recovers_def by blast
    have "?G (andThen m f st) (d1 @ d2)"
    proof (intro conjI)
      show "calls (snd (snd (andThen m f st))) = calls (snd st) @ d1 @ d2"
        by (simp add: run d1(1) d2(1))
      show "\<forall>c \<in> set (butlast (d1 @ d2)). \<not> failed c"
        using d1(2) d2(2) ok1 by (rule butlast_append_ok)
      show "d1 @ d2 \<noteq> [] \<and> failed (last (d1 @ d2)) \<longrightarrow>
              fst (andThen m f st) = Inl (thrownBy (snd (last (d1 @ d2))))
            \<or> (\<exists>x. fst (andThen m f st) = Inr x) \<and> cleared (fst (snd (andThen m f st)))
                \<and> errorReplied (thrownBy (snd (last (d1 @ d2)))) (snd (snd (andThen m f st)))"
      proof (cases "d2 = []")
        case True
        then show ?thesis using ok1 by auto
      next
        case False
        then show ?thesis using d2(3) by (simp add: run)
      qed
    qed
    then show ?thesis ..
  qed
qed


lemma propagates_andThen:
  assumes m: "propagates m" and f: "\<And>x. propagates (f x)"
  shows "propagates (andThen m f)"
  unfolding propagates_def
proof
  fix st
  from m obtain d1 where d1: "calls (snd (snd (m st))) = calls (snd st) @ d1"
    "\<forall>c \<in> set (butlast d1). \<not> failed c"
    "d1 \<noteq> [] \<and> failed (last d1) \<longrightarrow> fst (m st) = Inl (thrownBy (snd (last d1)))"
    unfolding propagates_def by blast
  let ?G = "\<lambda>out d. calls (snd (snd out)) = calls (snd st) @ d
        \<and> (\<forall>c \<in> set (butlast d). \<not> failed c)
        \<and> (d \<noteq> [] \<and> failed (last d) \<longrightarrow> fst out = Inl (thrownBy (snd (last d))))"
  show "\<exists>d. ?G (andThen m f st) d"
  proof (cases "fst (m st)")
    case (Inl e)
    then have "andThen m f st = (Inl e, snd (m st))"
      by (cases "m st") (simp add: andThen_def)
    with d1 Inl have "?G (andThen m f st) d1" by simp
    then show ?thesis ..
  next
    case (Inr x)
    then have run: "andThen m f st = f x (snd (m st))"
      by (cases "m st") (simp add: andThen_def)
    from Inr d1(3) have ok1: "d1 \<noteq> [] \<Longrightarrow> \<not> failed (last d1)" by auto
    from f [of x] obtain d2 where d2:
      "calls (snd (snd (f x (snd (m st))))) = calls (snd (snd (m st))) @ d2"
      "\<forall>c \<in> set (butlast d2). \<not> failed c"
      "d2 \<noteq> [] \<and> failed (last d2) \<longrightarrow>
              fst (f x (snd (m st))) = Inl (thrownBy (snd (last d2)))"
      unfolding propagates_def by blast
    have "?G (andThen m f st) (d1 @ d2)"
    proof (intro conjI)
      show "calls (snd (snd (andThen m f st))) = calls (snd st) @ d1 @ d2"
        by (simp add: run d1(1) d2(1))
      show "\<forall>c \<in> set (butlast (d1 @ d2)). \<not> failed c"
        using d1(2) d2(2) ok1 by (rule butlast_append_ok)
      show "d1 @ d2 \<noteq> [] \<and> failed (last (d1 @ d2)) \<longrightarrow>
              fst (andThen m f st) = Inl (thrownBy (snd (last (d1 @ d2))))"
      proof (cases "d2 = []")
        case True
        then show ?thesis using ok1 by auto
      next
        case False
        then show ?thesis using d2(3) by (simp add: run)
      qed
    qed
    then show ?thesis ..
  qed
qed

lemma propagates_thenDo: "propagates m \<Longrightarrow> propagates n \<Longrightarrow> propagates (thenDo m n)"
  unfolding thenDo_def by (rule propagates_andThen)

lemma propagates_withSession: "(\<And>s. propagates (f s)) \<Longrightarrow> propagates (withSession f)"
  unfolding propagates_def withSession_def by blast

lemma propagates_withPolls: "(\<And>p. propagates (f p)) \<Longrightarrow> propagates (withPolls f)"
  unfolding propagates_def withPolls_def by blast

lemma recovers_propagates: "propagates m \<Longrightarrow> recovers m"
  unfolding propagates_def recovers_def by blast

lemma recovers_thenDo: "propagates m \<Longrightarrow> recovers n \<Longrightarrow> recovers (thenDo m n)"
  unfolding thenDo_def by (rule recovers_andThen)

lemma recovers_withSession: "(\<And>s. recovers (f s)) \<Longrightarrow> recovers (withSession f)"
  unfolding recovers_def withSession_def by blast

lemma recovers_withPolls: "(\<And>p. recovers (f p)) \<Longrightarrow> recovers (withPolls f)"
  unfolding recovers_def withPolls_def by blast

text \<open>A computation that recovers, followed by one without effect.\<close>

lemma recovers_then_pure:
  fixes m :: "('x session_scheme, 'a) io"
  assumes m: "recovers m" and f: "\<And>x. pure (f x)"
  shows "recovers (andThen m f)"
  unfolding recovers_def
proof
  fix st :: "'x session_scheme \<times> world"
  let ?G = "\<lambda>out d. calls (snd (snd out)) = calls (snd st) @ d
        \<and> (\<forall>c \<in> set (butlast d). \<not> failed c)
        \<and> (d \<noteq> [] \<and> failed (last d) \<longrightarrow>
              fst out = Inl (thrownBy (snd (last d)))
            \<or> (\<exists>x. fst out = Inr x) \<and> cleared (fst (snd out))
                \<and> errorReplied (thrownBy (snd (last d))) (snd (snd out)))"
  from m obtain d where d: "?G (m st) d" unfolding recovers_def by blast
  have "?G (andThen m f st) d"
  proof (cases "fst (m st)")
    case (Inl e)
    then have "andThen m f st = (Inl e, snd (m st))"
      by (cases "m st") (simp add: andThen_def)
    with d Inl show ?thesis by simp
  next
    case (Inr x)
    from f [of x] obtain y where "f x (snd (m st)) = (Inr y, snd (m st))"
      unfolding pure_def by blast
    with Inr have "andThen m f st = (Inr y, snd (m st))"
      by (cases "m st") (simp add: andThen_def)
    with d Inr show ?thesis by simp
  qed
  then show "\<exists>d. ?G (andThen m f st) d" ..
qed

lemma pure_ret: "pure (ret x)"
  by (simp add: pure_def ret_def)

lemma recovers_then_ret: "recovers m \<Longrightarrow> recovers (thenDo m (ret x))"
  unfolding thenDo_def by (rule recovers_then_pure) (simp_all add: pure_ret)

text \<open>\<open>try\<close> and \<open>catch\<close>.\<close>

lemma recovers_tryElse:
  assumes m: "propagates m" and h: "catches h" and k: "\<And>x. recovers (k x)"
  shows "recovers (tryElse m h k)"
  unfolding recovers_def
proof
  fix st
  from m obtain d1 where d1: "calls (snd (snd (m st))) = calls (snd st) @ d1"
    "\<forall>c \<in> set (butlast d1). \<not> failed c"
    "d1 \<noteq> [] \<and> failed (last d1) \<longrightarrow> fst (m st) = Inl (thrownBy (snd (last d1)))"
    unfolding propagates_def by blast
  let ?G = "\<lambda>out d. calls (snd (snd out)) = calls (snd st) @ d
        \<and> (\<forall>c \<in> set (butlast d). \<not> failed c)
        \<and> (d \<noteq> [] \<and> failed (last d) \<longrightarrow>
              fst out = Inl (thrownBy (snd (last d)))
            \<or> (\<exists>x. fst out = Inr x) \<and> cleared (fst (snd out))
                \<and> errorReplied (thrownBy (snd (last d))) (snd (snd out)))"
  show "\<exists>d. ?G (tryElse m h k st) d"
  proof (cases "fst (m st)")
    case (Inl e)
    then have run: "tryElse m h k st = h e (snd (m st))"
      by (cases "m st") (simp add: tryElse_def)
    from h have hh: "(\<exists>x. fst (h e (snd (m st))) = Inr x)"
      "calls (snd (snd (h e (snd (m st))))) = calls (snd (snd (m st)))"
      "cleared (fst (snd (h e (snd (m st)))))" "errorReplied e (snd (snd (h e (snd (m st)))))"
      unfolding catches_def by blast+
    have "?G (tryElse m h k st) d1"
      using d1 hh Inl by (auto simp add: run)
    then show ?thesis ..
  next
    case (Inr x)
    then have run: "tryElse m h k st = k x (snd (m st))"
      by (cases "m st") (simp add: tryElse_def)
    from Inr d1(3) have ok1: "d1 \<noteq> [] \<Longrightarrow> \<not> failed (last d1)" by auto
    from k [of x] obtain d2 where d2:
      "calls (snd (snd (k x (snd (m st))))) = calls (snd (snd (m st))) @ d2"
      "\<forall>c \<in> set (butlast d2). \<not> failed c"
      "d2 \<noteq> [] \<and> failed (last d2) \<longrightarrow>
              fst (k x (snd (m st))) = Inl (thrownBy (snd (last d2)))
            \<or> (\<exists>y. fst (k x (snd (m st))) = Inr y) \<and> cleared (fst (snd (k x (snd (m st)))))
                \<and> errorReplied (thrownBy (snd (last d2))) (snd (snd (k x (snd (m st)))))"
      unfolding recovers_def by blast
    have "?G (tryElse m h k st) (d1 @ d2)"
    proof (intro conjI)
      show "calls (snd (snd (tryElse m h k st))) = calls (snd st) @ d1 @ d2"
        by (simp add: run d1(1) d2(1))
      show "\<forall>c \<in> set (butlast (d1 @ d2)). \<not> failed c"
        using d1(2) d2(2) ok1 by (rule butlast_append_ok)
      show "d1 @ d2 \<noteq> [] \<and> failed (last (d1 @ d2)) \<longrightarrow>
              fst (tryElse m h k st) = Inl (thrownBy (snd (last (d1 @ d2))))
            \<or> (\<exists>x. fst (tryElse m h k st) = Inr x) \<and> cleared (fst (snd (tryElse m h k st)))
                \<and> errorReplied (thrownBy (snd (last (d1 @ d2)))) (snd (snd (tryElse m h k st)))"
      proof (cases "d2 = []")
        case True
        then show ?thesis using ok1 by auto
      next
        case False
        then show ?thesis using d2(3) by (simp add: run)
      qed
    qed
    then show ?thesis ..
  qed
qed

lemma recovers_tryCatch:
  fixes m :: "('x session_scheme, 'a) io"
  assumes m: "recovers m" and h: "catches h"
  shows "recovers (tryCatch m h)"
  unfolding recovers_def
proof
  fix st :: "'x session_scheme \<times> world"
  let ?G = "\<lambda>out d. calls (snd (snd out)) = calls (snd st) @ d
        \<and> (\<forall>c \<in> set (butlast d). \<not> failed c)
        \<and> (d \<noteq> [] \<and> failed (last d) \<longrightarrow>
              fst out = Inl (thrownBy (snd (last d)))
            \<or> (\<exists>x. fst out = Inr x) \<and> cleared (fst (snd out))
                \<and> errorReplied (thrownBy (snd (last d))) (snd (snd out)))"
  from m obtain d where d: "?G (m st) d" unfolding recovers_def by blast
  have "?G (tryCatch m h st) d"
  proof (cases "fst (m st)")
    case (Inl e)
    then have run: "tryCatch m h st = h e (snd (m st))"
      by (cases "m st") (simp add: tryCatch_def)
    from h have hh: "(\<exists>x. fst (h e (snd (m st))) = Inr x)"
      "calls (snd (snd (h e (snd (m st))))) = calls (snd (snd (m st)))"
      "cleared (fst (snd (h e (snd (m st)))))" "errorReplied e (snd (snd (h e (snd (m st)))))"
      unfolding catches_def by blast+
    show ?thesis using d hh Inl by (auto simp add: run)
  next
    case (Inr x)
    then have "tryCatch m h st = m st"
      by (cases "m st") (simp add: tryCatch_def)
    with d show ?thesis by simp
  qed
  then show "\<exists>d. ?G (tryCatch m h st) d" ..
qed

text \<open>The handlers of every \<open>catch\<close> of the bot.\<close>

lemma cleared_resetSession: "cleared (resetSession s)"
  by (simp add: cleared_def resetSession_def)

lemma catches_handleApiError: "catches (\<lambda>error. handleApiError error action hint)"
  by (simp add: catches_def handleApiError_def replyErrorAndReset_def thenDo_def andThen_def
        sendReply_def setSession_def cleared_resetSession errorReplied_def)

lemma catches_handleApiError_ret:
  "catches (\<lambda>error. thenDo (handleApiError error action hint) (ret x))"
  by (simp add: catches_def handleApiError_def replyErrorAndReset_def thenDo_def andThen_def
        sendReply_def setSession_def cleared_resetSession errorReplied_def ret_def)

lemma propagates_replyErrorAndReset: "propagates (replyErrorAndReset r)"
  unfolding replyErrorAndReset_def
  by (intro propagates_thenDo propagates_sendReply propagates_setSession)

text \<open>The dispatcher's step.\<close>

lemma recovers_orElse:
  fixes h :: "('x session_scheme, bool) io"
  assumes h: "recovers h" and dec: "declines h" and rest: "recovers rest"
  shows "recovers (orElse h rest)"
  unfolding recovers_def
proof
  fix st :: "'x session_scheme \<times> world"
  let ?G = "\<lambda>st0 out d. calls (snd (snd out)) = calls (snd st0) @ d
        \<and> (\<forall>c \<in> set (butlast d). \<not> failed c)
        \<and> (d \<noteq> [] \<and> failed (last d) \<longrightarrow>
              fst out = Inl (thrownBy (snd (last d)))
            \<or> (\<exists>x. fst out = Inr x) \<and> cleared (fst (snd out))
                \<and> errorReplied (thrownBy (snd (last d))) (snd (snd out)))"
  show "\<exists>d. ?G st (orElse h rest st) d"
  proof (cases "fst (h st)")
    case (Inl e)
    then have "orElse h rest st = (Inl e, snd (h st))"
      by (cases "h st") (simp add: orElse_def andThen_def)
    moreover from h obtain d where "?G st (h st) d" unfolding recovers_def by blast
    ultimately have "?G st (orElse h rest st) d" using Inl by simp
    then show ?thesis ..
  next
    case (Inr handled)
    show ?thesis
    proof (cases handled)
      case True
      with Inr have "orElse h rest st = (Inr (), snd (h st))"
        by (cases "h st") (simp add: orElse_def andThen_def ret_def)
      moreover from h obtain d where "?G st (h st) d" unfolding recovers_def by blast
      ultimately have "?G st (orElse h rest st) d" using Inr by simp
      then show ?thesis ..
    next
      case False
      with Inr have "fst (h st) = Inr False" by simp
      with dec have "snd (h st) = st" unfolding declines_def by blast
      with Inr False have "orElse h rest st = rest st"
        by (cases "h st") (simp add: orElse_def andThen_def)
      moreover from rest obtain d where "?G st (rest st) d" unfolding recovers_def by blast
      ultimately have "?G st (orElse h rest st) d" by simp
      then show ?thesis ..
    qed
  qed
qed

lemmas propagates_rules =
  propagates_ret propagates_throw propagates_sendReply propagates_setSession
  propagates_callStore propagates_andThen propagates_thenDo propagates_withSession
  propagates_withPolls propagates_replyErrorAndReset

lemma propagates_initSheetsClient: "propagates initSheetsClient"
  unfolding initSheetsClient_def by (intro propagates_rules)

lemma propagates_valuesGet: "propagates (valuesGet a1)"
  unfolding valuesGet_def
  by (intro propagates_rules) (simp add: propagates_rules split: response.split)

lemma propagates_valuesBatchGet: "propagates (valuesBatchGet ranges)"
  unfolding valuesBatchGet_def
  by (intro propagates_rules) (simp add: propagates_rules split: response.split)

lemma propagates_valuesBatchUpdate: "propagates (valuesBatchUpdate updates)"
  unfolding valuesBatchUpdate_def by (intro propagates_rules)

lemma propagates_findColumnByDateText: "propagates (findColumnByDateText t)"
  unfolding findColumnByDateText_def
  by (intro propagates_rules) (simp add: propagates_rules split: response.split)

lemma propagates_findLastDateColumn: "propagates findLastDateColumn"
  unfolding findLastDateColumn_def by (intro propagates_rules propagates_valuesGet)

lemma propagates_findNicknameRows: "propagates (findNicknameRows lower nicknames)"
  unfolding findNicknameRows_def by (intro propagates_rules propagates_valuesGet)

lemma propagates_checkExistingValues: "propagates (checkExistingValues nicknameRows col)"
  unfolding checkExistingValues_def
  by (auto intro!: propagates_rules propagates_valuesBatchGet split: option.split sum.split)

lemma propagates_writeZeros: "propagates (writeZeros nicknameRows col overrideExisting)"
  unfolding writeZeros_def
  by (auto intro!: propagates_rules propagates_checkExistingValues propagates_valuesBatchUpdate)

lemma propagates_getColumnMetadata: "propagates (getColumnMetadata lib col)"
  unfolding getColumnMetadata_def by (intro propagates_rules propagates_valuesGet)

lemma propagates_writeColumnMetadata: "propagates (writeColumnMetadata col d c n)"
  unfolding writeColumnMetadata_def Let_def
  by (auto intro!: propagates_rules propagates_valuesBatchUpdate)

lemma propagates_getPollDataOrError: "propagates getPollDataOrError"
  unfolding getPollDataOrError_def
  by (auto intro!: propagates_rules split: option.split)

lemma propagates_writeZerosAndRespond:
  "propagates (writeZerosAndRespond nicknameRows col overrideExisting skipped)"
  unfolding writeZerosAndRespond_def Let_def
  by (intro propagates_rules propagates_initSheetsClient propagates_writeZeros)

lemma propagates_checkOverridesAndWrite: "propagates (checkOverridesAndWrite nicknameRows)"
  unfolding checkOverridesAndWrite_def
  by (auto intro!: propagates_rules propagates_initSheetsClient propagates_checkExistingValues
        propagates_writeZerosAndRespond split: option.split)

lemmas propagates_store =
  propagates_initSheetsClient propagates_valuesGet propagates_valuesBatchGet
  propagates_valuesBatchUpdate propagates_findColumnByDateText propagates_findLastDateColumn
  propagates_findNicknameRows propagates_checkExistingValues propagates_writeZeros
  propagates_getColumnMetadata propagates_writeColumnMetadata propagates_getPollDataOrError
  propagates_writeZerosAndRespond propagates_checkOverridesAndWrite

lemmas recovers_basic =
  propagates_ret [THEN recovers_propagates] propagates_throw [THEN recovers_propagates]
  propagates_sendReply [THEN recovers_propagates] propagates_setSession [THEN recovers_propagates]
  propagates_replyErrorAndReset [THEN recovers_propagates]
  propagates_writeZerosAndRespond [THEN recovers_propagates]
  propagates_checkOverridesAndWrite [THEN recovers_propagates]

lemmas recovers_rules =
  recovers_then_ret recovers_thenDo recovers_andThen recovers_withSession recovers_withPolls
  recovers_tryCatch recovers_tryElse catches_handleApiError catches_handleApiError_ret
  recovers_basic propagates_rules propagates_store

lemma recovers_startColumnDetectionFlow: "recovers startColumnDetectionFlow"
  unfolding startColumnDetectionFlow_def
  by (auto intro!: recovers_rules split: option.split)

lemma recovers_proceedWithPlayerCountCheck: "recovers proceedWithPlayerCountCheck"
  unfolding proceedWithPlayerCountCheck_def
  by (auto intro!: recovers_rules split: option.split)

lemma recovers_proceedWithMetadataCollection: "recovers (proceedWithMetadataCollection lib)"
  unfolding proceedWithMetadataCollection_def
  by (auto intro!: recovers_rules recovers_proceedWithPlayerCountCheck split: option.split)

subsection \<open>Handlers that decline, computations that never throw\<close>

lemma returnsTrue_ret: "returnsTrue (ret True)"
  by (simp add: returnsTrue_def ret_def)

lemma returnsTrue_andThen: "(\<And>x. returnsTrue (f x)) \<Longrightarrow> returnsTrue (andThen m f)"
  unfolding returnsTrue_def andThen_def
  by (auto split: prod.split sum.split)

lemma returnsTrue_thenDo: "returnsTrue n \<Longrightarrow> returnsTrue (thenDo m n)"
  unfolding thenDo_def by (rule returnsTrue_andThen)

lemma returnsTrue_tryElse:
  "(\<And>e. returnsTrue (h e)) \<Longrightarrow> (\<And>x. returnsTrue (k x)) \<Longrightarrow> returnsTrue (tryElse m h k)"
  unfolding returnsTrue_def tryElse_def
  by (auto split: prod.split sum.split)

lemma returnsTrue_withSession: "(\<And>s. returnsTrue (f s)) \<Longrightarrow> returnsTrue (withSession f)"
  unfolding returnsTrue_def withSession_def by blast

lemmas returnsTrue_rules =
  returnsTrue_ret returnsTrue_andThen returnsTrue_thenDo returnsTrue_tryElse
  returnsTrue_withSession

lemma declines_guarded:
  assumes "\<And>s. \<not> c s \<Longrightarrow> returnsTrue (body s)"
  shows "declines (withSession (\<lambda>s. if c s then ret False else body s))"
  unfolding declines_def withSession_def
proof (intro allI impI)
  fix st :: "'a \<times> world"
  assume r: "fst ((if c (fst st) then ret False else body (fst st)) st) = Inr False"
  show "snd ((if c (fst st) then ret False else body (fst st)) st) = st"
  proof (cases "c (fst st)")
    case True
    then show ?thesis by (simp add: ret_def)
  next
    case False
    with assms have "fst (body (fst st) st) \<noteq> Inr False" unfolding returnsTrue_def by blast
    with r False show ?thesis by simp
  qed
qed

lemma neverThrows_ret: "neverThrows (ret x)"
  by (simp add: neverThrows_def ret_def)

lemma neverThrows_sendReply: "neverThrows (sendReply r)"
  by (simp add: neverThrows_def sendReply_def)

lemma neverThrows_setSession: "neverThrows (setSession f)"
  by (simp add: neverThrows_def setSession_def)

lemma neverThrows_andThen:
  assumes "neverThrows m" "\<And>x. neverThrows (f x)"
  shows "neverThrows (andThen m f)"
  unfolding neverThrows_def
proof
  fix st
  from assms(1) obtain x where "fst (m st) = Inr x" unfolding neverThrows_def by blast
  then have "andThen m f st = f x (snd (m st))"
    by (cases "m st") (simp add: andThen_def)
  moreover from assms(2) [of x] have "\<exists>y. fst (f x (snd (m st))) = Inr y"
    unfolding neverThrows_def by blast
  ultimately show "\<exists>y. fst (andThen m f st) = Inr y" by simp
qed

lemma neverThrows_thenDo: "neverThrows m \<Longrightarrow> neverThrows n \<Longrightarrow> neverThrows (thenDo m n)"
  unfolding thenDo_def by (rule neverThrows_andThen)

lemma neverThrows_tryCatch: "(\<And>e. neverThrows (h e)) \<Longrightarrow> neverThrows (tryCatch m h)"
  unfolding neverThrows_def tryCatch_def
  by (auto split: prod.split sum.split)

lemma neverThrows_tryElse:
  "(\<And>e. neverThrows (h e)) \<Longrightarrow> (\<And>x. neverThrows (k x)) \<Longrightarrow> neverThrows (tryElse m h k)"
  unfolding neverThrows_def tryElse_def
  by (auto split: prod.split sum.split)

lemma neverThrows_withSession: "(\<And>s. neverThrows (f s)) \<Longrightarrow> neverThrows (withSession f)"
  unfolding neverThrows_def withSession_def by blast

lemma neverThrows_withPolls: "(\<And>p. neverThrows (f p)) \<Longrightarrow> neverThrows (withPolls f)"
  unfolding neverThrows_def withPolls_def by blast

lemma neverThrows_orElse: "neverThrows h \<Longrightarrow> neverThrows rest \<Longrightarrow> neverThrows (orElse h rest)"
  unfolding orElse_def by (rule neverThrows_andThen) (simp_all add: neverThrows_ret)

lemmas neverThrows_basic =
  neverThrows_ret neverThrows_sendReply neverThrows_setSession neverThrows_andThen
  neverThrows_thenDo neverThrows_tryCatch neverThrows_tryElse neverThrows_withSession
  neverThrows_withPolls

lemma neverThrows_replyErrorAndReset: "neverThrows (replyErrorAndReset r)"
  unfolding replyErrorAndReset_def by (intro neverThrows_basic)

lemma neverThrows_handleApiError: "neverThrows (handleApiError e action hint)"
  unfolding handleApiError_def by (rule neverThrows_replyErrorAndReset)

lemma neverThrows_getPollDataOrError: "neverThrows getPollDataOrError"
  unfolding getPollDataOrError_def
  by (auto intro!: neverThrows_basic neverThrows_replyErrorAndReset split: option.split)

lemma neverThrows_startColumnDetectionFlow: "neverThrows startColumnDetectionFlow"
  unfolding startColumnDetectionFlow_def
  by (intro neverThrows_basic neverThrows_handleApiError)

lemma neverThrows_proceedWithPlayerCountCheck: "neverThrows proceedWithPlayerCountCheck"
  unfolding proceedWithPlayerCountCheck_def
  by (auto intro!: neverThrows_basic neverThrows_handleApiError neverThrows_replyErrorAndReset)

lemma neverThrows_proceedWithMetadataCollection: "neverThrows (proceedWithMetadataCollection lib)"
  unfolding proceedWithMetadataCollection_def
  by (auto intro!: neverThrows_basic neverThrows_handleApiError neverThrows_replyErrorAndReset
        split: option.split)

lemmas neverThrows_rules =
  neverThrows_basic neverThrows_replyErrorAndReset neverThrows_handleApiError
  neverThrows_getPollDataOrError neverThrows_startColumnDetectionFlow
  neverThrows_proceedWithPlayerCountCheck neverThrows_proceedWithMetadataCollection


lemma recovers_if: "(c \<Longrightarrow> recovers a) \<Longrightarrow> (\<not> c \<Longrightarrow> recovers b) \<Longrightarrow> recovers (if c then a else b)"
  by simp

lemma recovers_option:
  "(x = None \<Longrightarrow> recovers a) \<Longrightarrow> (\<And>y. x = Some y \<Longrightarrow> recovers (b y))
   \<Longrightarrow> recovers (case x of None \<Rightarrow> a | Some y \<Rightarrow> b y)"
  by (cases x) simp_all

lemma returnsTrue_if:
  "(c \<Longrightarrow> returnsTrue a) \<Longrightarrow> (\<not> c \<Longrightarrow> returnsTrue b) \<Longrightarrow> returnsTrue (if c then a else b)"
  by simp

lemma returnsTrue_option:
  "(x = None \<Longrightarrow> returnsTrue a) \<Longrightarrow> (\<And>y. x = Some y \<Longrightarrow> returnsTrue (b y))
   \<Longrightarrow> returnsTrue (case x of None \<Rightarrow> a | Some y \<Rightarrow> b y)"
  by (cases x) simp_all

lemma neverThrows_if:
  "(c \<Longrightarrow> neverThrows a) \<Longrightarrow> (\<not> c \<Longrightarrow> neverThrows b) \<Longrightarrow> neverThrows (if c then a else b)"
  by simp

lemma neverThrows_option:
  "(x = None \<Longrightarrow> neverThrows a) \<Longrightarrow> (\<And>y. x = Some y \<Longrightarrow> neverThrows (b y))
   \<Longrightarrow> neverThrows (case x of None \<Rightarrow> a | Some y \<Rightarrow> b y)"
  by (cases x) simp_all

lemmas recovers_cases = recovers_if recovers_option
lemmas returnsTrue_cases = returnsTrue_if returnsTrue_option
lemmas neverThrows_cases = neverThrows_if neverThrows_option

subsection \<open>The handlers\<close>

lemma handleUsernames_ok:
  "recovers (handleUsernames rawText)" "declines (handleUsernames rawText)"
  "neverThrows (handleUsernames rawText)"
  unfolding handleUsernames_def Let_def
    apply (intro recovers_cases recovers_rules recovers_proceedWithPlayerCountCheck)
   apply (rule declines_guarded, intro returnsTrue_cases returnsTrue_rules)
  apply (intro neverThrows_cases neverThrows_rules)
  done

lemma handlePlayerCountConfirmation_ok:
  "recovers (handlePlayerCountConfirmation text)" "declines (handlePlayerCountConfirmation text)"
  "neverThrows (handlePlayerCountConfirmation text)"
  unfolding handlePlayerCountConfirmation_def Let_def prod.case
    apply (intro recovers_cases recovers_rules)
   apply (rule declines_guarded, intro returnsTrue_cases returnsTrue_rules)
  apply (intro neverThrows_cases neverThrows_rules)
  done

lemma handlePlayerCount_ok:
  "recovers (handlePlayerCount lib text)" "declines (handlePlayerCount lib text)"
  "neverThrows (handlePlayerCount lib text)"
  unfolding handlePlayerCount_def Let_def prod.case
    apply (intro recovers_cases recovers_rules)
   apply (rule declines_guarded, intro returnsTrue_cases returnsTrue_rules)
  apply (intro neverThrows_cases neverThrows_rules)
  done

lemma handleOverrideConfirmation_ok:
  "recovers (handleOverrideConfirmation text)" "declines (handleOverrideConfirmation text)"
  "neverThrows (handleOverrideConfirmation text)"
  unfolding handleOverrideConfirmation_def Let_def prod.case
    apply (intro recovers_cases recovers_rules)
   apply (rule declines_guarded, intro returnsTrue_cases returnsTrue_rules)
  apply (intro neverThrows_cases neverThrows_rules)
  done

lemma handleColumnConfirmation_ok:
  "recovers (handleColumnConfirmation lib text)" "declines (handleColumnConfirmation lib text)"
  "neverThrows (handleColumnConfirmation lib text)"
  unfolding handleColumnConfirmation_def Let_def
    apply (intro recovers_cases recovers_rules recovers_proceedWithMetadataCollection)
   apply (rule declines_guarded, intro returnsTrue_cases returnsTrue_rules)
  apply (intro neverThrows_cases neverThrows_rules)
  done

lemma handleNewColumnChoice_ok:
  "recovers (handleNewColumnChoice text)" "declines (handleNewColumnChoice text)"
  "neverThrows (handleNewColumnChoice text)"
  unfolding handleNewColumnChoice_def Let_def
    apply (intro recovers_cases recovers_rules)
   apply (rule declines_guarded, intro returnsTrue_cases returnsTrue_rules)
  apply (intro neverThrows_cases neverThrows_rules)
  done

lemma handleDateName_ok:
  "recovers (handleDateName lib rawText)" "declines (handleDateName lib rawText)"
  "neverThrows (handleDateName lib rawText)"
  unfolding handleDateName_def Let_def
    apply (intro recovers_cases recovers_rules recovers_proceedWithMetadataCollection)
   apply (rule declines_guarded, intro returnsTrue_cases returnsTrue_rules)
  apply (intro neverThrows_cases neverThrows_rules)
  done

lemma handleCost_ok:
  "recovers (handleCost lib text)" "declines (handleCost lib text)"
  "neverThrows (handleCost lib text)"
  unfolding handleCost_def Let_def
    apply (intro recovers_cases recovers_rules recovers_proceedWithMetadataCollection)
   apply (rule declines_guarded, intro returnsTrue_cases returnsTrue_rules)
  apply (intro neverThrows_cases neverThrows_rules)
  done

lemma handlePollIntent_ok:
  "recovers (handlePollIntent text)" "declines (handlePollIntent text)"
  "neverThrows (handlePollIntent text)"
  unfolding handlePollIntent_def Let_def
    apply (intro recovers_cases recovers_rules)
   apply (rule declines_guarded, intro returnsTrue_cases returnsTrue_rules)
  apply (intro neverThrows_cases neverThrows_rules)
  done

lemma handlePollOptionSelection_ok:
  "recovers (handlePollOptionSelection lib rawText)" "declines (handlePollOptionSelection lib rawText)"
  "neverThrows (handlePollOptionSelection lib rawText)"
  unfolding handlePollOptionSelection_def Let_def
    apply (intro recovers_cases recovers_rules recovers_startColumnDetectionFlow)
   apply (rule declines_guarded, intro returnsTrue_cases returnsTrue_rules)
  apply (intro neverThrows_cases neverThrows_rules)
  done

lemmas handlers_ok =
  handleUsernames_ok handlePlayerCountConfirmation_ok handlePlayerCount_ok
  handleOverrideConfirmation_ok handleColumnConfirmation_ok handleNewColumnChoice_ok
  handleDateName_ok handleCost_ok handlePollIntent_ok handlePollOptionSelection_ok

lemma onMessageText_recovers: "recovers (onMessageText lib messageText)"
  unfolding onMessageText_def onMessageText_with_def Let_def
  by (intro recovers_orElse handlers_ok recovers_basic)

lemma onMessageText_neverThrows: "neverThrows (onMessageText lib messageText)"
  unfolding onMessageText_def onMessageText_with_def Let_def
  by (intro neverThrows_orElse handlers_ok neverThrows_rules)

lemma commandUpdate_ok: "recovers commandUpdate" "neverThrows commandUpdate"
  unfolding commandUpdate_def
  by (intro recovers_rules recovers_startColumnDetectionFlow neverThrows_rules)+

lemma failureHandled_intro:
  fixes m :: "('x session_scheme, unit) io"
  assumes "recovers m" "neverThrows m"
  shows "failureHandled st (m st)"
proof -
  from assms(2) obtain x where x: "fst (m st) = Inr x" unfolding neverThrows_def by blast
  from assms(1) obtain d where d: "calls (snd (snd (m st))) = calls (snd st) @ d"
     "\<forall>c \<in> set (butlast d). \<not> failed c"
     "d \<noteq> [] \<and> failed (last d) \<longrightarrow>
              fst (m st) = Inl (thrownBy (snd (last d)))
            \<or> (\<exists>x. fst (m st) = Inr x) \<and> cleared (fst (snd (m st)))
                \<and> errorReplied (thrownBy (snd (last d))) (snd (snd (m st)))"
    unfolding recovers_def by blast
  from x d show ?thesis unfolding failureHandled_def by auto
qed

lemmas io_defs = ret_def throw_def andThen_def thenDo_def tryCatch_def tryElse_def
  withSession_def setSession_def sendReply_def withPolls_def orElse_def

text \<open>Capitalised answers parse in both scripts: \<open>Yes\<close>, and the Russian words for yes and no.\<close>

lemma parseYesNo_capitals:
  "parseYesNo ''Yes'' = Some Yes"
  "parseYesNo [CHR 0xD0, CHR 0x94, CHR 0xD0, CHR 0xB0] = Some Yes"
  "parseYesNo [CHR 0xD0, CHR 0x9D, CHR 0xD0, CHR 0x95, CHR 0xD0, CHR 0xA2] = Some No"
  by (simp_all add: parseYesNo_def trim_unfold lower_eval lowerChar_def isUpper_def char_of_nat_eq)

lemma parseYesNo_normalized: "parseYesNo (toLowerCase (trim m)) = parseYesNo m"
  by (simp add: parseYesNo_def Let_def trim_toLowerCase_trim toLowerCase_idem)


lemma orElse_declined: "h st = (Inr False, st) \<Longrightarrow> orElse h rest st = rest st"
  by (simp add: orElse_def andThen_def)

lemma orElse_handled: "h st = (Inr True, st') \<Longrightarrow> orElse h rest st = (Inr (), st')"
  by (simp add: orElse_def andThen_def ret_def)

lemma handlers_skip:
  "state s \<noteq> awaiting_poll_intent \<Longrightarrow> handlePollIntent text (s, w) = (Inr False, s, w)"
  "state s \<noteq> awaiting_poll_option_selection \<Longrightarrow>
     handlePollOptionSelection lib text (s, w) = (Inr False, s, w)"
  "state s \<noteq> awaiting_column_confirmation \<Longrightarrow>
     handleColumnConfirmation lib text (s, w) = (Inr False, s, w)"
  "state s \<noteq> awaiting_new_column_choice \<Longrightarrow> handleNewColumnChoice text (s, w) = (Inr False, s, w)"
  "state s \<noteq> awaiting_date_name \<Longrightarrow> handleDateName lib text (s, w) = (Inr False, s, w)"
  "state s \<noteq> awaiting_cost \<Longrightarrow> handleCost lib text (s, w) = (Inr False, s, w)"
  "state s \<noteq> awaiting_usernames \<Longrightarrow> handleUsernames text (s, w) = (Inr False, s, w)"
  "state s \<noteq> awaiting_player_count_confirmation \<Longrightarrow>
     handlePlayerCountConfirmation text (s, w) = (Inr False, s, w)"
  "state s \<noteq> awaiting_player_count \<Longrightarrow> handlePlayerCount lib text (s, w) = (Inr False, s, w)"
  "state s \<noteq> awaiting_override_confirmation \<Longrightarrow>
     handleOverrideConfirmation text (s, w) = (Inr False, s, w)"
  by (simp_all add: handlePollIntent_def handlePollOptionSelection_def handleColumnConfirmation_def
        handleNewColumnChoice_def handleDateName_def handleCost_def handleUsernames_def
        handlePlayerCountConfirmation_def handlePlayerCount_def handleOverrideConfirmation_def
        withSession_def ret_def)

lemma handlers_reprompt:
  "state s = awaiting_column_confirmation \<Longrightarrow> parseYesNo text = None \<Longrightarrow>
     handleColumnConfirmation lib text (s, w) = (Inr True, s, w\<lparr>outbox := outbox w @ [ErrInvalidYesNo]\<rparr>)"
  "state s = awaiting_new_column_choice \<Longrightarrow> parseYesNo text = None \<Longrightarrow>
     handleNewColumnChoice text (s, w) = (Inr True, s, w\<lparr>outbox := outbox w @ [ErrInvalidYesNo]\<rparr>)"
  "state s = awaiting_player_count_confirmation \<Longrightarrow> parseYesNo text = None \<Longrightarrow>
     handlePlayerCountConfirmation text (s, w) = (Inr True, s, w\<lparr>outbox := outbox w @ [ErrInvalidYesNo]\<rparr>)"
  "state s = awaiting_override_confirmation \<Longrightarrow> parseYesNo text = None \<Longrightarrow>
     handleOverrideConfirmation text (s, w) = (Inr True, s, w\<lparr>outbox := outbox w @ [ErrInvalidYesNo]\<rparr>)"
  by (simp_all add: handleColumnConfirmation_def handleNewColumnChoice_def
        handlePlayerCountConfirmation_def handleOverrideConfirmation_def io_defs)

lemma onMessageText_reprompt:
  assumes "state s = awaiting_column_confirmation \<or> state s = awaiting_new_column_choice
         \<or> state s = awaiting_player_count_confirmation \<or> state s = awaiting_override_confirmation"
    and "parseYesNo messageText = None"
  shows "onMessageText lib messageText (s, w)
         = (Inr (), s, w\<lparr>outbox := outbox w @ [ErrInvalidYesNo]\<rparr>)"
proof -
  have p: "parseYesNo (toLowerCase (trim messageText)) = None"
    using assms(2) by (simp add: parseYesNo_normalized)
  from assms(1) show ?thesis
    by (elim disjE)
       (simp_all add: onMessageText_def onMessageText_with_def Let_def orElse_declined
          orElse_handled handlers_skip handlers_reprompt p)
qed

subsection \<open>Column detection without a candidate\<close>

lemma scan_None_iff:
  "findLastDateColumn_scan grid = None \<longleftrightarrow> list_all (\<lambda>c. \<not> isBlankCell c) (firstRow grid)"
  by (simp add: findLastDateColumn_scan_def loop_None_iff list_all_length)

lemma scan_Some_iff:
  "findLastDateColumn_scan grid \<noteq> None
   \<longleftrightarrow> (\<exists>i < length (firstRow grid). isBlankCell (firstRow grid ! i))"
  by (simp add: findLastDateColumn_scan_def loop_None_iff)

lemmas sheet_consts = cellRef_def SHEET_DATA_FIRST_COLUMN_def SHEET_DATE_ROW_def SHEET_NAME_def
  SHEET_COST_ROW_def SHEET_PLAYER_COUNT_ROW_def SHEET_DATA_FIRST_ROW_def SHEET_NICKNAME_COLUMN_def
  showNat_digit showNat_more char_of_nat_eq

lemmas store_defs = initSheetsClient_def valuesGet_def valuesBatchGet_def valuesBatchUpdate_def
  findColumnByDateText_def callStore_def nextResponse_def

lemma start_without_candidate:
  assumes "pending w = ClientReady # Values grid # rest" "findLastDateColumn_scan grid = None"
  shows "startColumnDetectionFlow (s, w)
     = (Inr (),
        s\<lparr>state := awaiting_new_column_choice, targetColumn := Some ''F'',
           isNewColumn := Some True\<rparr>,
        w\<lparr>pending := rest,
           calls := calls w @ [(InitSheetsClient, ClientReady),
                               (ValuesGet ([CHR 0x27] @ ''Sheet1'' @ [CHR 0x27] @ ''!F1:ZZ1''), Values grid)],
           outbox := outbox w @ [DetectingLastDateColumn, NoDateColumnsFound ''F'']\<rparr>)"
  using assms
  by (simp add: startColumnDetectionFlow_def io_defs initSheetsClient_def findLastDateColumn_def
        store_defs Let_def sheet_consts)

lemma start_with_candidate:
  assumes "pending w = ClientReady # Values grid # rest" "findLastDateColumn_scan grid = Some found"
  shows "startColumnDetectionFlow (s, w)
     = (Inr (),
        s\<lparr>detectedColumn := Some (dcColumn found), targetColumn := Some (dcColumn found),
           state := awaiting_column_confirmation\<rparr>,
        w\<lparr>pending := rest,
           calls := calls w @ [(InitSheetsClient, ClientReady),
                               (ValuesGet ([CHR 0x27] @ ''Sheet1'' @ [CHR 0x27] @ ''!F1:ZZ1''), Values grid)],
           outbox := outbox w @ [DetectingLastDateColumn,
                                 DetectedColumn (dcColumn found) (dcDate found)]\<rparr>)"
  using assms
  by (simp add: startColumnDetectionFlow_def io_defs initSheetsClient_def findLastDateColumn_def
        store_defs Let_def sheet_consts)

text \<open>
  C10. When no cell of the header values read is blank, also when the occupied run
  simply ends, \<open>findLastDateColumn\<close> returns \<open>null\<close>; it returns a candidate exactly when
  some cell of the values read is blank. With the client ready and such values read, the
  flow reports that no date columns were found, names the first data column F, and
  leaves the session in \<open>awaiting_new_column_choice\<close> with F as the target and marked new.
\<close>

theorem findLastDateColumn_no_blank:
  "(list_all (\<lambda>c. \<not> isBlankCell c) (firstRow grid) \<longrightarrow> findLastDateColumn_scan grid = None)
   \<and> (findLastDateColumn_scan grid \<noteq> None
        \<longleftrightarrow> (\<exists>i < length (firstRow grid). isBlankCell (firstRow grid ! i)))
   \<and> (list_all (\<lambda>c. \<not> isBlankCell c) (firstRow grid)
        \<and> pending w = ClientReady # Values grid # rest \<longrightarrow>
        startColumnDetectionFlow (s, w)
          = (Inr (),
             s\<lparr>state := awaiting_new_column_choice, targetColumn := Some ''F'',
                isNewColumn := Some True\<rparr>,
             w\<lparr>pending := rest,
                calls := calls w @ [(InitSheetsClient, ClientReady),
                                    (ValuesGet ([CHR 0x27] @ ''Sheet1'' @ [CHR 0x27] @ ''!F1:ZZ1''),
                                     Values grid)],
                outbox := outbox w @ [DetectingLastDateColumn, NoDateColumnsFound ''F'']\<rparr>))"
  using scan_None_iff [of grid] scan_Some_iff [of grid] start_without_candidate [of w grid rest s]
  by simp

theorem findLastDateColumn_no_blank_witness:
  "findLastDateColumn_scan (Some [[CStr ''Sep 7'', CStr ''Sep 14'']]) = None
   \<and> startColumnDetectionFlow
        (initialSession,
         \<lparr>pending = [ClientReady, Values (Some [[CStr ''Sep 7'', CStr ''Sep 14'']])],
          calls = [], outbox = [], activePolls = []\<rparr>)
      = (Inr (),
         initialSession\<lparr>state := awaiting_new_column_choice, targetColumn := Some ''F'',
                         isNewColumn := Some True\<rparr>,
         \<lparr>pending = [],
          calls = [(InitSheetsClient, ClientReady),
                   (ValuesGet ([CHR 0x27] @ ''Sheet1'' @ [CHR 0x27] @ ''!F1:ZZ1''),
                    Values (Some [[CStr ''Sep 7'', CStr ''Sep 14'']]))],
          outbox = [DetectingLastDateColumn, NoDateColumnsFound ''F''], activePolls = []\<rparr>)"
proof -
  have h: "list_all (\<lambda>c. \<not> isBlankCell c) (firstRow (Some [[CStr ''Sep 7'', CStr ''Sep 14'']]))"
    by (simp add: trim_eval)
  have p: "pending \<lparr>pending = [ClientReady, Values (Some [[CStr ''Sep 7'', CStr ''Sep 14'']])],
          calls = [], outbox = [], activePolls = []\<rparr>
       = ClientReady # Values (Some [[CStr ''Sep 7'', CStr ''Sep 14'']]) # []"
    by simp
  from findLastDateColumn_no_blank
         [of "Some [[CStr ''Sep 7'', CStr ''Sep 14'']]"
             "\<lparr>pending = [ClientReady, Values (Some [[CStr ''Sep 7'', CStr ''Sep 14'']])],
               calls = [], outbox = [], activePolls = []\<rparr>" "[]" initialSession] h p
  show ?thesis by simp
qed


subsection \<open>Column detection with a candidate\<close>

lemma findLastDateColumn_reads:
  assumes "pending w = Values grid # rest"
  shows "findLastDateColumn (s, w)
     = (Inr (findLastDateColumn_scan grid), s,
        w\<lparr>pending := rest,
           calls := calls w @ [(ValuesGet ([CHR 0x27] @ ''Sheet1'' @ [CHR 0x27] @ ''!F1:ZZ1''),
                                Values grid)]\<rparr>)"
  using assms by (simp add: findLastDateColumn_def io_defs store_defs Let_def sheet_consts)

lemma findLastDateColumn_run:
  assumes "pre \<noteq> []" "list_all (\<lambda>c. \<not> isBlankCell c) pre" "isBlankCell b"
    and "pending w = Values (Some ((pre @ b # following) # others)) # rest"
  shows "findLastDateColumn (s, w)
     = (Inr (Some \<lparr>dcColumn = indexToColumnLetter
                                 (columnLetterToIndex ''F'' + (int (length pre) - 1)),
                   dcDate = trim (String_of (last pre))\<rparr>),
        s,
        w\<lparr>pending := rest,
           calls := calls w @ [(ValuesGet ([CHR 0x27] @ ''Sheet1'' @ [CHR 0x27] @ ''!F1:ZZ1''),
                                Values (Some ((pre @ b # following) # others)))]\<rparr>)"
  using findLastDateColumn_reads [OF assms(4)] scan_run [OF assms(1-3)]
  by (simp add: SHEET_DATA_FIRST_COLUMN_def)

lemma start_run:
  assumes "pre \<noteq> []" "list_all (\<lambda>c. \<not> isBlankCell c) pre" "isBlankCell b"
    and "pending w = ClientReady # Values (Some ((pre @ b # following) # others)) # rest"
  shows "startColumnDetectionFlow (s, w)
     = (Inr (),
        s\<lparr>detectedColumn := Some (indexToColumnLetter
                                     (columnLetterToIndex ''F'' + (int (length pre) - 1))),
           targetColumn := Some (indexToColumnLetter
                                   (columnLetterToIndex ''F'' + (int (length pre) - 1))),
           state := awaiting_column_confirmation\<rparr>,
        w\<lparr>pending := rest,
           calls := calls w @ [(InitSheetsClient, ClientReady),
                               (ValuesGet ([CHR 0x27] @ ''Sheet1'' @ [CHR 0x27] @ ''!F1:ZZ1''),
                                Values (Some ((pre @ b # following) # others)))],
           outbox := outbox w @ [DetectingLastDateColumn,
                                 DetectedColumn
                                   (indexToColumnLetter
                                      (columnLetterToIndex ''F'' + (int (length pre) - 1)))
                                   (trim (String_of (last pre)))]\<rparr>)"
  using start_with_candidate [OF assms(4) scan_run [OF assms(1-3)]]
  by (simp add: SHEET_DATA_FIRST_COLUMN_def)

lemma findLastDateColumn_example:
  assumes "pending w = Values (Some [[CStr ''Sep 7'', CStr ''Sep 14'', CStr '''']]) # rest"
  shows "findLastDateColumn (s, w)
     = (Inr (Some \<lparr>dcColumn = ''G'', dcDate = ''Sep 14''\<rparr>), s,
        w\<lparr>pending := rest,
           calls := calls w @ [(ValuesGet ([CHR 0x27] @ ''Sheet1'' @ [CHR 0x27] @ ''!F1:ZZ1''),
                                Values (Some [[CStr ''Sep 7'', CStr ''Sep 14'', CStr '''']]))]\<rparr>)"
  using findLastDateColumn_reads [OF assms] scan_example by simp

text \<open>
  When the first cell read is itself blank there is no occupied cell before it: the
  function then returns the column before the first data column, with the text of
  \<open>undefined\<close>.
\<close>

lemma findLastDateColumn_leading_blank:
  assumes "isBlankCell b" "pending w = Values (Some ((b # following) # others)) # rest"
  shows "findLastDateColumn (s, w)
     = (Inr (Some \<lparr>dcColumn = ''E'', dcDate = ''undefined''\<rparr>), s,
        w\<lparr>pending := rest,
           calls := calls w @ [(ValuesGet ([CHR 0x27] @ ''Sheet1'' @ [CHR 0x27] @ ''!F1:ZZ1''),
                                Values (Some ((b # following) # others)))]\<rparr>)"
proof -
  have "findLastDateColumn_scan (Some ((b # following) # others))
          = Some \<lparr>dcColumn = ''E'', dcDate = ''undefined''\<rparr>"
    using assms(1)
    by (simp add: findLastDateColumn_scan_def SHEET_DATA_FIRST_COLUMN_def columnLetterToIndex_def
          indexToColumnLetter_def cellAt_def trim_eval char_of_int_eq loops)
  with findLastDateColumn_reads [OF assms(2)] show ?thesis by simp
qed

text \<open>
  C2. Where the header values read from column F on start with a non-empty run of
  occupied cells followed by a blank cell, \<open>findLastDateColumn\<close> returns the column of
  the last cell of that run with its trimmed text, whatever follows the blank cell, and
  the flow, with the client ready, offers that column for confirmation and takes it as
  the target. For the values \<open>["Sep 7", "Sep 14", ""]\<close> the function returns column G with
  the date "Sep 14".
\<close>

theorem findLastDateColumn_before_first_blank:
  "(pre \<noteq> [] \<and> list_all (\<lambda>c. \<not> isBlankCell c) pre \<and> isBlankCell b
      \<and> pending w = Values (Some ((pre @ b # following) # others)) # rest \<longrightarrow>
      findLastDateColumn (s, w)
        = (Inr (Some \<lparr>dcColumn = indexToColumnLetter
                                    (columnLetterToIndex ''F'' + (int (length pre) - 1)),
                      dcDate = trim (String_of (last pre))\<rparr>),
           s,
           w\<lparr>pending := rest,
              calls := calls w @ [(ValuesGet ([CHR 0x27] @ ''Sheet1'' @ [CHR 0x27] @ ''!F1:ZZ1''),
                                   Values (Some ((pre @ b # following) # others)))]\<rparr>))
   \<and> (pre \<noteq> [] \<and> list_all (\<lambda>c. \<not> isBlankCell c) pre \<and> isBlankCell b
      \<and> pending w = ClientReady # Values (Some ((pre @ b # following) # others)) # rest \<longrightarrow>
      startColumnDetectionFlow (s, w)
        = (Inr (),
           s\<lparr>detectedColumn := Some (indexToColumnLetter
                                        (columnLetterToIndex ''F'' + (int (length pre) - 1))),
              targetColumn := Some (indexToColumnLetter
                                      (columnLetterToIndex ''F'' + (int (length pre) - 1))),
              state := awaiting_column_confirmation\<rparr>,
           w\<lparr>pending := rest,
              calls := calls w @ [(InitSheetsClient, ClientReady),
                                  (ValuesGet ([CHR 0x27] @ ''Sheet1'' @ [CHR 0x27] @ ''!F1:ZZ1''),
                                   Values (Some ((pre @ b # following) # others)))],
              outbox := outbox w @ [DetectingLastDateColumn,
                                    DetectedColumn
                                      (indexToColumnLetter
                                         (columnLetterToIndex ''F'' + (int (length pre) - 1)))
                                      (trim (String_of (last pre)))]\<rparr>))
   \<and> (pending w = Values (Some [[CStr ''Sep 7'', CStr ''Sep 14'', CStr '''']]) # rest \<longrightarrow>
      findLastDateColumn (s, w)
        = (Inr (Some \<lparr>dcColumn = ''G'', dcDate = ''Sep 14''\<rparr>), s,
           w\<lparr>pending := rest,
              calls := calls w @ [(ValuesGet ([CHR 0x27] @ ''Sheet1'' @ [CHR 0x27] @ ''!F1:ZZ1''),
                                   Values (Some [[CStr ''Sep 7'', CStr ''Sep 14'', CStr '''']]))]\<rparr>))"
  using findLastDateColumn_run [of pre b w following others rest s]
    start_run [of pre b w following others rest s]
    findLastDateColumn_example [of w rest s]
  by simp

theorem findLastDateColumn_before_first_blank_witness:
  "findLastDateColumn
     (initialSession,
      \<lparr>pending = [Values (Some [[CStr ''Sep 7'', CStr ''Sep 14 '', CStr [CHR 0xC2, CHR 0xA0],
                                  CStr ''Oct 5'']])],
       calls = [], outbox = [], activePolls = []\<rparr>)
     = (Inr (Some \<lparr>dcColumn = ''G'', dcDate = ''Sep 14''\<rparr>), initialSession,
        \<lparr>pending = [],
         calls = [(ValuesGet ([CHR 0x27] @ ''Sheet1'' @ [CHR 0x27] @ ''!F1:ZZ1''),
                   Values (Some [[CStr ''Sep 7'', CStr ''Sep 14 '', CStr [CHR 0xC2, CHR 0xA0],
                                  CStr ''Oct 5'']]))],
         outbox = [], activePolls = []\<rparr>)
   \<and> startColumnDetectionFlow
     (initialSession,
      \<lparr>pending = [ClientReady, Values (Some [[CStr ''Sep 7'', CStr ''Sep 14'', CStr '''']])],
       calls = [], outbox = [], activePolls = []\<rparr>)
     = (Inr (),
        initialSession\<lparr>detectedColumn := Some ''G'', targetColumn := Some ''G'',
                        state := awaiting_column_confirmation\<rparr>,
        \<lparr>pending = [],
         calls = [(InitSheetsClient, ClientReady),
                  (ValuesGet ([CHR 0x27] @ ''Sheet1'' @ [CHR 0x27] @ ''!F1:ZZ1''),
                   Values (Some [[CStr ''Sep 7'', CStr ''Sep 14'', CStr '''']]))],
         outbox = [DetectingLastDateColumn, DetectedColumn ''G'' ''Sep 14''], activePolls = []\<rparr>)"
proof -
  let ?g1 = "[CStr ''Sep 7'', CStr ''Sep 14 '', CStr [CHR 0xC2, CHR 0xA0], CStr ''Oct 5'']"
  let ?w1 = "\<lparr>pending = [Values (Some [?g1])], calls = [], outbox = [], activePolls = []\<rparr>"
  let ?g2 = "[CStr ''Sep 7'', CStr ''Sep 14'', CStr '''']"
  let ?w2 = "\<lparr>pending = [ClientReady, Values (Some [?g2])], calls = [], outbox = [],
              activePolls = []\<rparr>"
  have h1: "[CStr ''Sep 7'', CStr ''Sep 14 ''] \<noteq> []
      \<and> list_all (\<lambda>c. \<not> isBlankCell c) [CStr ''Sep 7'', CStr ''Sep 14 '']
      \<and> isBlankCell (CStr [CHR 0xC2, CHR 0xA0])
      \<and> pending ?w1 = Values (Some (([CStr ''Sep 7'', CStr ''Sep 14 '']
                                      @ CStr [CHR 0xC2, CHR 0xA0] # [CStr ''Oct 5'']) # [])) # []"
    by (simp add: trim_eval)
  have h2: "[CStr ''Sep 7'', CStr ''Sep 14''] \<noteq> []
      \<and> list_all (\<lambda>c. \<not> isBlankCell c) [CStr ''Sep 7'', CStr ''Sep 14'']
      \<and> isBlankCell (CStr '''')
      \<and> pending ?w2 = ClientReady # Values (Some (([CStr ''Sep 7'', CStr ''Sep 14'']
                                      @ CStr '''' # []) # [])) # []"
    by (simp add: trim_eval)
  have e: "indexToColumnLetter (columnLetterToIndex ''F'' + (int (length [CStr ''Sep 7'', CStr ''Sep 14 '']) - 1)) = ''G''"
      "trim ''Sep 14 '' = ''Sep 14''" "trim ''Sep 14'' = ''Sep 14''"
    by (simp_all add: columnLetterToIndex_def indexToColumnLetter_def trim_eval char_of_int_eq loops)
  from findLastDateColumn_before_first_blank
         [of "[CStr ''Sep 7'', CStr ''Sep 14 '']" "CStr [CHR 0xC2, CHR 0xA0]" ?w1
             "[CStr ''Oct 5'']" "[]" "[]" initialSession, THEN conjunct1]
       findLastDateColumn_before_first_blank
         [of "[CStr ''Sep 7'', CStr ''Sep 14'']" "CStr ''''" ?w2
             "[]" "[]" "[]" initialSession, THEN conjunct2, THEN conjunct1]
       h1 h2 e
  show ?thesis by simp
qed
lemma handleColumnConfirmation2_skip:
  "state s \<noteq> awaiting_column_confirmation \<Longrightarrow>
     handleColumnConfirmation2 lib text (s, w) = (Inr False, s, w)"
  by (simp add: handleColumnConfirmation2_def withSession_def ret_def)

lemma handleNewColumnChoice2_skip:
  "state s \<noteq> awaiting_new_column_choice \<Longrightarrow> handleNewColumnChoice2 text (s, w) = (Inr False, s, w)"
  by (simp add: handleNewColumnChoice2_def withSession_def ret_def)

lemma handleNewColumnChoice2_reprompt:
  "state s = awaiting_new_column_choice \<Longrightarrow> parseYesNo text = None \<Longrightarrow>
     handleNewColumnChoice2 text (s, w) = (Inr True, s, w\<lparr>outbox := outbox w @ [ErrInvalidYesNo]\<rparr>)"
  by (simp add: handleNewColumnChoice2_def io_defs)

lemma onMessageText2_reprompt:
  assumes "state s = awaiting_new_column_choice
         \<or> state s = awaiting_player_count_confirmation \<or> state s = awaiting_override_confirmation"
    and "parseYesNo messageText = None"
  shows "onMessageText2 lib messageText (s, w)
         = (Inr (), s, w\<lparr>outbox := outbox w @ [ErrInvalidYesNo]\<rparr>)"
proof -
  have p: "parseYesNo (toLowerCase (trim messageText)) = None"
    using assms(2) by (simp add: parseYesNo_normalized)
  from assms(1) show ?thesis
    by (elim disjE)
       (simp_all add: onMessageText2_def onMessageText_with_def Let_def orElse_declined
          orElse_handled handlers_skip handlers_reprompt p handleColumnConfirmation2_skip
          handleNewColumnChoice2_skip handleNewColumnChoice2_reprompt)
qed

text \<open>
  C7. In each of the four states that ask for yes or no, a message that does not parse
  as yes or no is answered by the request to answer yes or no and nothing else: the
  session, the pending answers of the store and the calls made are as they were. The
  later revision of the column handlers does the same in the three of those states in
  which it still asks for yes or no only.
\<close>

theorem unparseable_yes_no_reprompts:
  "((state s = awaiting_column_confirmation \<or> state s = awaiting_new_column_choice
      \<or> state s = awaiting_player_count_confirmation \<or> state s = awaiting_override_confirmation)
    \<and> parseYesNo messageText = None \<longrightarrow>
     onMessageText lib messageText (s, w) = (Inr (), s, w\<lparr>outbox := outbox w @ [ErrInvalidYesNo]\<rparr>))
   \<and> ((state x = awaiting_new_column_choice
      \<or> state x = awaiting_player_count_confirmation \<or> state x = awaiting_override_confirmation)
    \<and> parseYesNo messageText = None \<longrightarrow>
     onMessageText2 lib messageText (x, w) = (Inr (), x, w\<lparr>outbox := outbox w @ [ErrInvalidYesNo]\<rparr>))"
  using onMessageText_reprompt [of s messageText lib w] onMessageText2_reprompt [of x messageText lib w]
  by blast

lemma parseYesNo_maybe: "parseYesNo '' Maybe'' = None"
  by (simp add: parseYesNo_def trim_eval lower_eval lowerChar_def isUpper_def
        char_of_nat_eq)

theorem unparseable_yes_no_reprompts_witness:
  "onMessageText noNumbers '' Maybe''
     (initialSession\<lparr>state := awaiting_override_confirmation, usernames := [''@a''],
                     targetColumn := Some ''G'', column := Some ''G'',
                     nicknameRowsEntries := Some [(''@a'', 7)],
                     existingValuesEntries := Some [\<lparr>nickname = ''@a'', cellValue = CStr ''5''\<rparr>]\<rparr>,
      \<lparr>pending = [ClientReady], calls = [], outbox = [], activePolls = []\<rparr>)
   = (Inr (),
      initialSession\<lparr>state := awaiting_override_confirmation, usernames := [''@a''],
                     targetColumn := Some ''G'', column := Some ''G'',
                     nicknameRowsEntries := Some [(''@a'', 7)],
                     existingValuesEntries := Some [\<lparr>nickname = ''@a'', cellValue = CStr ''5''\<rparr>]\<rparr>,
      \<lparr>pending = [ClientReady], calls = [], outbox = [ErrInvalidYesNo], activePolls = []\<rparr>)
   \<and> onMessageText2 noNumbers '' Maybe''
     (\<lparr>state = awaiting_new_column_choice, usernames = [], detectedColumn = None,
       targetColumn = Some ''F'', isNewColumn = Some True, dateName = None, cost = None,
       playerCount = None, column = None, nicknameRowsEntries = None,
       existingValuesEntries = None, pollId = None, pollQuestion = None, columnMatches = None\<rparr>,
      \<lparr>pending = [], calls = [], outbox = [], activePolls = []\<rparr>)
   = (Inr (),
      \<lparr>state = awaiting_new_column_choice, usernames = [], detectedColumn = None,
       targetColumn = Some ''F'', isNewColumn = Some True, dateName = None, cost = None,
       playerCount = None, column = None, nicknameRowsEntries = None,
       existingValuesEntries = None, pollId = None, pollQuestion = None, columnMatches = None\<rparr>,
      \<lparr>pending = [], calls = [], outbox = [ErrInvalidYesNo], activePolls = []\<rparr>)"
proof -
  have h: "state (initialSession\<lparr>state := awaiting_override_confirmation, usernames := [''@a''],
                     targetColumn := Some ''G'', column := Some ''G'',
                     nicknameRowsEntries := Some [(''@a'', 7)],
                     existingValuesEntries := Some [\<lparr>nickname = ''@a'', cellValue = CStr ''5''\<rparr>]\<rparr>)
           = awaiting_override_confirmation"
    by simp
  have h2: "state \<lparr>state = awaiting_new_column_choice, usernames = [], detectedColumn = None,
       targetColumn = Some ''F'', isNewColumn = Some True, dateName = None, cost = None,
       playerCount = None, column = None, nicknameRowsEntries = None,
       existingValuesEntries = None, pollId = None, pollQuestion = None, columnMatches = None\<rparr>
       = awaiting_new_column_choice"
    by simp
  have a: "onMessageText noNumbers '' Maybe''
     (initialSession\<lparr>state := awaiting_override_confirmation, usernames := [''@a''],
                     targetColumn := Some ''G'', column := Some ''G'',
                     nicknameRowsEntries := Some [(''@a'', 7)],
                     existingValuesEntries := Some [\<lparr>nickname = ''@a'', cellValue = CStr ''5''\<rparr>]\<rparr>,
      \<lparr>pending = [ClientReady], calls = [], outbox = [], activePolls = []\<rparr>)
   = (Inr (),
      initialSession\<lparr>state := awaiting_override_confirmation, usernames := [''@a''],
                     targetColumn := Some ''G'', column := Some ''G'',
                     nicknameRowsEntries := Some [(''@a'', 7)],
                     existingValuesEntries := Some [\<lparr>nickname = ''@a'', cellValue = CStr ''5''\<rparr>]\<rparr>,
      \<lparr>pending = [ClientReady], calls = [], outbox = [ErrInvalidYesNo], activePolls = []\<rparr>)"
    using unparseable_yes_no_reprompts
      [where s = "initialSession\<lparr>state := awaiting_override_confirmation, usernames := [''@a''],
                     targetColumn := Some ''G'', column := Some ''G'',
                     nicknameRowsEntries := Some [(''@a'', 7)],
                     existingValuesEntries := Some [\<lparr>nickname = ''@a'', cellValue = CStr ''5''\<rparr>]\<rparr>"
         and messageText = "'' Maybe''" and lib = noNumbers
         and w = "\<lparr>pending = [ClientReady], calls = [], outbox = [], activePolls = []\<rparr>",
       THEN conjunct1] h parseYesNo_maybe
    by simp
  have b: "onMessageText2 noNumbers '' Maybe''
     (\<lparr>state = awaiting_new_column_choice, usernames = [], detectedColumn = None,
       targetColumn = Some ''F'', isNewColumn = Some True, dateName = None, cost = None,
       playerCount = None, column = None, nicknameRowsEntries = None,
       existingValuesEntries = None, pollId = None, pollQuestion = None, columnMatches = None\<rparr>,
      \<lparr>pending = [], calls = [], outbox = [], activePolls = []\<rparr>)
   = (Inr (),
      \<lparr>state = awaiting_new_column_choice, usernames = [], detectedColumn = None,
       targetColumn = Some ''F'', isNewColumn = Some True, dateName = None, cost = None,
       playerCount = None, column = None, nicknameRowsEntries = None,
       existingValuesEntries = None, pollId = None, pollQuestion = None, columnMatches = None\<rparr>,
      \<lparr>pending = [], calls = [], outbox = [ErrInvalidYesNo], activePolls = []\<rparr>)"
    using unparseable_yes_no_reprompts
      [where x = "\<lparr>state = awaiting_new_column_choice, usernames = [], detectedColumn = None,
       targetColumn = Some ''F'', isNewColumn = Some True, dateName = None, cost = None,
       playerCount = None, column = None, nicknameRowsEntries = None,
       existingValuesEntries = None, pollId = None, pollQuestion = None, columnMatches = None\<rparr>"
         and messageText = "'' Maybe''" and lib = noNumbers
         and w = "\<lparr>pending = [], calls = [], outbox = [], activePolls = []\<rparr>",
       THEN conjunct2] h2 parseYesNo_maybe
    by simp
  from a b show ?thesis by (rule conjI)
qed

subsection \<open>Failing calls\<close>

lemma cleared_initial: "cleared (s :: session) \<longleftrightarrow> s = initialSession"
  by (cases s) (auto simp add: cleared_def initialSession_def)

text \<open>
  C6. Whatever the store answers, handling a text message or the update command
  returns; when a call to the store fails during it, that call is the last one made
  (nothing is tried again and nothing else is called), every field of the session is at
  its default afterwards, and the last message sent is the error message with the
  description of what the call threw.
\<close>

theorem store_failure_replies_and_resets:
  "failureHandled (s, w) (onMessageText lib messageText (s, w))
   \<and> failureHandled (s, w) (commandUpdate (s, w))"
  by (simp add: failureHandled_intro onMessageText_recovers onMessageText_neverThrows
        commandUpdate_ok)

lemma handleDateName_store_fails:
  "onMessageText noNumbers ''Sep 7''
     (initialSession\<lparr>state := awaiting_date_name, targetColumn := Some ''F'',
                     isNewColumn := Some True\<rparr>,
      \<lparr>pending = [ClientReady, Throws (JsError ''quota exceeded''), Updated],
       calls = [], outbox = [], activePolls = []\<rparr>)
   = (Inr (), initialSession,
      \<lparr>pending = [Updated],
       calls = [(InitSheetsClient, ClientReady),
                (ValuesBatchUpdate [([CHR 0x27] @ ''Sheet1'' @ [CHR 0x27] @ ''!F1'', WStr ''Sep 7'')],
                 Throws (JsError ''quota exceeded''))],
       outbox = [ApiError ''writing date'' ''quota exceeded'' False], activePolls = []\<rparr>)"
  by (simp add: onMessageText_def onMessageText_with_def Let_def orElse_declined orElse_handled
        handlers_skip initialSession_def handleDateName_def io_defs store_defs
        writeColumnMetadata_def handleApiError_def replyErrorAndReset_def resetSession_def
        trim_eval lower_eval lowerChar_def isUpper_def sheet_consts)

theorem store_failure_replies_and_resets_witness:
  "failureHandled
     (initialSession\<lparr>state := awaiting_date_name, targetColumn := Some ''F'',
                     isNewColumn := Some True\<rparr>,
      \<lparr>pending = [ClientReady, Throws (JsError ''quota exceeded''), Updated],
       calls = [], outbox = [], activePolls = []\<rparr>)
     (Inr (), initialSession,
      \<lparr>pending = [Updated],
       calls = [(InitSheetsClient, ClientReady),
                (ValuesBatchUpdate [([CHR 0x27] @ ''Sheet1'' @ [CHR 0x27] @ ''!F1'', WStr ''Sep 7'')],
                 Throws (JsError ''quota exceeded''))],
       outbox = [ApiError ''writing date'' ''quota exceeded'' False], activePolls = []\<rparr>)
   \<and> failed (ValuesBatchUpdate [([CHR 0x27] @ ''Sheet1'' @ [CHR 0x27] @ ''!F1'', WStr ''Sep 7'')],
              Throws (JsError ''quota exceeded''))
   \<and> cleared initialSession"
  using store_failure_replies_and_resets
    [of "initialSession\<lparr>state := awaiting_date_name, targetColumn := Some ''F'',
                        isNewColumn := Some True\<rparr>"
        "\<lparr>pending = [ClientReady, Throws (JsError ''quota exceeded''), Updated],
          calls = [], outbox = [], activePolls = []\<rparr>" noNumbers "''Sep 7''"]
  by (simp add: handleDateName_store_fails failed_def cleared_initial)

subsection \<open>Matching nicknames\<close>

lemma stripAt_withoutMarker: "stripAt x = withoutMarker x"
  by (cases x) (simp_all add: withoutMarker_def)

lemma sameIdentity_iff:
  "sameIdentity lower a b \<longleftrightarrow> normalizeNickname lower a = normalizeNickname lower b"
  by (simp add: sameIdentity_def normalizeNickname_def stripAt_withoutMarker)

lemma normalizedNicknames_sound:
  "map_of (normalizedNicknames lower nicknames) n = Some orig
   \<Longrightarrow> orig \<in> set nicknames \<and> normalizeNickname lower orig = n"
proof -
  let ?I = "\<lambda>m. \<forall>n orig. map_of m n = Some orig
              \<longrightarrow> orig \<in> set nicknames \<and> normalizeNickname lower orig = n"
  have "?I (normalizedNicknames lower nicknames)"
    unfolding normalizedNicknames_def
    by (rule foldl_invariant) (auto simp add: map_of_mapSet split: if_splits)
  then show "map_of (normalizedNicknames lower nicknames) n = Some orig
   \<Longrightarrow> orig \<in> set nicknames \<and> normalizeNickname lower orig = n" by blast
qed

lemma normalizedNicknames_dom:
  "dom (map_of (foldl (\<lambda>m nick. mapSet (normalizeNickname lower nick) nick m) acc nicknames))
     = dom (map_of acc) \<union> normalizeNickname lower ` set nicknames"
  by (induction nicknames arbitrary: acc) (auto simp add: map_of_mapSet)

lemma normalizedNicknames_complete:
  assumes "k \<in> set nicknames"
  shows "\<exists>orig. map_of (normalizedNicknames lower nicknames) (normalizeNickname lower k) = Some orig"
proof -
  have "normalizeNickname lower k \<in> dom (map_of (normalizedNicknames lower nicknames))"
    unfolding normalizedNicknames_def normalizedNicknames_dom using assms by simp
  then show ?thesis by blast
qed

lemma findNicknameRows_sound:
  assumes "(k, r) \<in> set (findNicknameRows_match lower nicknames grid)"
  shows "k \<in> set nicknames \<and> matchedAt lower (gridRows grid) k r"
proof -
  let ?rows = "gridRows grid"
  let ?I = "\<lambda>acc. \<forall>(k, r) \<in> set acc. k \<in> set nicknames \<and> matchedAt lower ?rows k r"
  have "?I (findNicknameRows_match lower nicknames grid)"
    unfolding findNicknameRows_match_def
  proof (rule foldl_invariant)
    show "?I []" by simp
  next
    fix acc x
    assume x: "x \<in> set (enumerate 0 ?rows)" and acc: "?I acc"
    obtain index row where xe: "x = (index, row)" by (cases x)
    from x xe have ir: "index < length ?rows" "?rows ! index = row"
      by (auto simp add: in_set_enumerate_eq)
    show "?I (findNicknameRows_row lower (normalizedNicknames lower nicknames) acc x)"
    proof (cases "truthy (cellAt row 0)")
      case False
      then show ?thesis using acc by (simp add: findNicknameRows_row_def xe)
    next
      case tr: True
      show ?thesis
      proof (cases "map_of (normalizedNicknames lower nicknames)
                      (normalizeNickname lower (String_of (cellAt row 0)))")
        case None
        then show ?thesis using acc tr by (simp add: findNicknameRows_row_def xe)
      next
        case (Some orig)
        from normalizedNicknames_sound [OF Some]
        have o: "orig \<in> set nicknames"
          "normalizeNickname lower orig = normalizeNickname lower (String_of (cellAt row 0))"
          by simp_all
        have m: "matchedAt lower ?rows orig (SHEET_DATA_FIRST_ROW + index)"
          unfolding matchedAt_def sameIdentity_iff SHEET_DATA_FIRST_ROW_def using ir tr o by auto
        show ?thesis
          using acc tr Some o m
          by (auto simp add: findNicknameRows_row_def xe dest!: set_mapSet)
      qed
    qed
  qed
  with assms show ?thesis by blast
qed

lemma rekey_mapSet:
  assumes "\<forall>p \<in> set m. fst p = b"
  shows "rekey a (mapSet b v m) = mapSet a v (rekey a m)"
    and "\<forall>p \<in> set (mapSet b v m). fst p = b"
  using assms by (cases m; auto simp add: rekey_def)+

lemma normalizedNicknames_single:
  "normalizedNicknames lower [a] = [(normalizeNickname lower a, a)]"
  by (simp add: normalizedNicknames_def)

lemma rekey_fold:
  assumes n: "normalizeNickname lower a = normalizeNickname lower b" and ne: "a \<noteq> []" "b \<noteq> []"
  shows "\<forall>p \<in> set acc. fst p = b \<Longrightarrow>
     foldl (findNicknameRows_row lower [(normalizeNickname lower a, a)]) (rekey a acc) xs
     = rekey a (foldl (findNicknameRows_row lower [(normalizeNickname lower b, b)]) acc xs)"
proof (induction xs arbitrary: acc)
  case Nil
  then show ?case by simp
next
  case (Cons x xs)
  obtain index row where xe: "x = (index, row)" by (cases x)
  let ?fa = "findNicknameRows_row lower [(normalizeNickname lower a, a)]"
  let ?fb = "findNicknameRows_row lower [(normalizeNickname lower b, b)]"
  have step: "?fa (rekey a acc) x = rekey a (?fb acc x)
              \<and> (\<forall>p \<in> set (?fb acc x). fst p = b)"
    using rekey_mapSet [OF Cons.prems] Cons.prems n ne
    by (simp add: findNicknameRows_row_def xe)
  then show ?case using Cons.IH [of "?fb acc x"] by simp
qed

lemma findNicknameRows_rekey:
  assumes "sameIdentity lower a b" "a \<noteq> []" "b \<noteq> []"
  shows "findNicknameRows_match lower [a] grid = rekey a (findNicknameRows_match lower [b] grid)"
  using rekey_fold [OF assms(1) [unfolded sameIdentity_iff] assms(2,3), of "[]"]
  by (simp add: findNicknameRows_match_def normalizedNicknames_single rekey_def)

lemma keys_kept_row:
  "a \<in> fst ` set acc \<Longrightarrow> a \<in> fst ` set (findNicknameRows_row lower nm acc x)"
  by (cases x) (auto simp add: findNicknameRows_row_def keys_kept_mapSet split: option.splits)

lemma keys_kept_fold:
  "a \<in> fst ` set acc \<Longrightarrow> a \<in> fst ` set (foldl (findNicknameRows_row lower nm) acc xs)"
  by (induction xs arbitrary: acc) (simp_all add: keys_kept_row)

lemma found_fold:
  assumes "(index, row) \<in> set xs" "truthy (cellAt row 0)"
    "map_of nm (normalizeNickname lower (String_of (cellAt row 0))) = Some orig" "orig \<noteq> []"
  shows "orig \<in> fst ` set (foldl (findNicknameRows_row lower nm) acc xs)"
  using assms(1)
proof (induction xs arbitrary: acc)
  case Nil
  then show ?case by simp
next
  case (Cons x xs)
  show ?case
  proof (cases "x = (index, row)")
    case True
    have "orig \<in> fst ` set (findNicknameRows_row lower nm acc x)"
      using assms(2-4) True by (simp add: findNicknameRows_row_def key_in_mapSet)
    then show ?thesis by (simp add: keys_kept_fold)
  next
    case False
    with Cons.prems have "(index, row) \<in> set xs" by simp
    then show ?thesis using Cons.IH by simp
  qed
qed

lemma findNicknameRows_complete:
  assumes "[] \<notin> set nicknames" "k \<in> set nicknames" "matchedAt lower (gridRows grid) k r"
  shows "\<exists>orig \<in> fst ` set (findNicknameRows_match lower nicknames grid). sameIdentity lower orig k"
proof -
  from assms(3) obtain index where i: "index < length (gridRows grid)"
      "truthy (cellAt (gridRows grid ! index) 0)"
      "normalizeNickname lower (String_of (cellAt (gridRows grid ! index) 0))
         = normalizeNickname lower k"
    unfolding matchedAt_def sameIdentity_iff by blast
  from normalizedNicknames_complete [OF assms(2)] obtain orig
    where o: "map_of (normalizedNicknames lower nicknames) (normalizeNickname lower k) = Some orig"
    by blast
  from normalizedNicknames_sound [OF o]
  have s: "orig \<in> set nicknames" "normalizeNickname lower orig = normalizeNickname lower k"
    by simp_all
  with assms(1) have ne: "orig \<noteq> []" by auto
  have "(index, gridRows grid ! index) \<in> set (enumerate 0 (gridRows grid))"
    using i(1) by (simp add: in_set_enumerate_eq)
  from found_fold [OF this i(2) _ ne, of "normalizedNicknames lower nicknames" lower "[]"] o i(3)
  have "orig \<in> fst ` set (findNicknameRows_match lower nicknames grid)"
    by (simp add: findNicknameRows_match_def)
  with s(2) show ?thesis by (auto simp add: sameIdentity_iff)
qed

lemma findNicknameRows_reads:
  assumes "pending w = Values grid # rest"
  shows "findNicknameRows lower nicknames (s, w)
     = (Inr (findNicknameRows_match lower nicknames grid), s,
        w\<lparr>pending := rest, calls := calls w @ [(ValuesGet ''B7:B'', Values grid)]\<rparr>)"
  using assms by (simp add: findNicknameRows_def io_defs store_defs Let_def sheet_consts)

lemmas match_eval = findNicknameRows_match_def normalizedNicknames_def findNicknameRows_row_def
  normalizeNickname_def cellAt_def enumerate_eq_zip SHEET_DATA_FIRST_ROW_def
  lower_eval lowerChar_def isUpper_def char_of_nat_eq

lemma findNicknameRows_examples:
  "findNicknameRows_match toLowerCase [''@User1''] (Some [[CStr ''@USER1'']]) = [(''@User1'', 7)]"
  "findNicknameRows_match toLowerCase [''user1''] (Some [[CStr ''@USER1'']]) = [(''user1'', 7)]"
  "findNicknameRows_match toLowerCase [''zed''] (Some [[CStr ''bob'']]) = []"
  by (simp_all add: match_eval)

text \<open>
  C8. Whatever the lower-casing function: \<open>findNicknameRows\<close> reads the nickname column
  from row 7 down and returns the match of the identities against the rows read. Two
  spellings \<open>a\<close> and \<open>b\<close> that are equal after stripping the leading marker and
  lower-casing are matched to the same rows, the key of the result being the caller's own
  string. Every pair of a result is an input identity with the number of a row whose
  nickname cell is equal to it after stripping the leading marker and lower-casing on
  both sides; and an input identity with such a row is in the result, under its own
  spelling or that of another input naming the same identity. With \<open>toLowerCase\<close>, the
  inputs \<open>@User1\<close> and \<open>user1\<close> are both matched to the row of the cell \<open>@USER1\<close>, each under
  its own spelling, and \<open>zed\<close> is not matched to the cell \<open>bob\<close>.
\<close>

theorem findNicknameRows_normalized_match:
  "(pending w = Values grid # rest \<longrightarrow>
      findNicknameRows lower nicknames (s, w)
        = (Inr (findNicknameRows_match lower nicknames grid), s,
           w\<lparr>pending := rest, calls := calls w @ [(ValuesGet ''B7:B'', Values grid)]\<rparr>))
   \<and> (sameIdentity lower a b \<and> a \<noteq> [] \<and> b \<noteq> [] \<longrightarrow>
      findNicknameRows_match lower [a] grid = rekey a (findNicknameRows_match lower [b] grid))
   \<and> ((k, r) \<in> set (findNicknameRows_match lower nicknames grid) \<longrightarrow>
        k \<in> set nicknames \<and> matchedAt lower (gridRows grid) k r)
   \<and> ([] \<notin> set nicknames \<and> k \<in> set nicknames \<and> matchedAt lower (gridRows grid) k r \<longrightarrow>
        (\<exists>orig \<in> fst ` set (findNicknameRows_match lower nicknames grid). sameIdentity lower orig k))
   \<and> findNicknameRows_match toLowerCase [''@User1''] (Some [[CStr ''@USER1'']]) = [(''@User1'', 7)]
   \<and> findNicknameRows_match toLowerCase [''user1''] (Some [[CStr ''@USER1'']]) = [(''user1'', 7)]
   \<and> findNicknameRows_match toLowerCase [''zed''] (Some [[CStr ''bob'']]) = []"
  using findNicknameRows_reads [of w grid rest lower nicknames s]
    findNicknameRows_rekey [of lower a b grid]
    findNicknameRows_sound [of k r lower nicknames grid]
    findNicknameRows_complete [of nicknames k lower grid r]
    findNicknameRows_examples
  by simp

theorem findNicknameRows_normalized_match_witness:
  "findNicknameRows toLowerCase [''@User1'', ''zed'']
     (initialSession,
      \<lparr>pending = [Values (Some [[CStr ''Ann''], [CStr ''@USER1''], [CStr ''bob'']])],
       calls = [], outbox = [], activePolls = []\<rparr>)
     = (Inr [(''@User1'', 8)], initialSession,
        \<lparr>pending = [],
         calls = [(ValuesGet ''B7:B'', Values (Some [[CStr ''Ann''], [CStr ''@USER1''], [CStr ''bob'']]))],
         outbox = [], activePolls = []\<rparr>)
   \<and> sameIdentity toLowerCase ''@User1'' ''user1''
   \<and> findNicknameRows_match toLowerCase [''@User1'']
        (Some [[CStr ''Ann''], [CStr ''@USER1''], [CStr ''bob'']])
     = rekey ''@User1'' [(''user1'', 8)]
   \<and> matchedAt toLowerCase [[CStr ''Ann''], [CStr ''@USER1''], [CStr ''bob'']] ''@User1'' 8
   \<and> \<not> matchedAt toLowerCase [[CStr ''Ann''], [CStr ''@USER1''], [CStr ''bob'']] ''zed'' 9"
proof -
  let ?grid = "Some [[CStr ''Ann''], [CStr ''@USER1''], [CStr ''bob'']]"
  let ?w = "\<lparr>pending = [Values ?grid], calls = [], outbox = [], activePolls = []\<rparr>"
  have p: "pending ?w = Values ?grid # []" by simp
  have h: "sameIdentity toLowerCase ''@User1'' ''user1'' \<and> ''@User1'' \<noteq> [] \<and> ''user1'' \<noteq> []"
    by (simp add: sameIdentity_def withoutMarker_def lower_eval lowerChar_def isUpper_def
          char_of_nat_eq)
  have v: "findNicknameRows_match toLowerCase [''@User1'', ''zed''] ?grid = [(''@User1'', 8)]"
    "findNicknameRows_match toLowerCase [''user1''] ?grid = [(''user1'', 8)]"
    by (simp_all add: match_eval)
  have m: "(''@User1'', 8) \<in> set (findNicknameRows_match toLowerCase [''@User1'', ''zed''] ?grid)"
    by (simp add: v)
  have z: "\<not> matchedAt toLowerCase [[CStr ''Ann''], [CStr ''@USER1''], [CStr ''bob'']] ''zed'' 9"
    by (simp add: matchedAt_def sameIdentity_def withoutMarker_def cellAt_def lower_eval
          lowerChar_def isUpper_def char_of_nat_eq)
  from findNicknameRows_normalized_match
         [of ?w ?grid "[]" toLowerCase "[''@User1'', ''zed'']" initialSession
             "''@User1''" "''user1''" "''@User1''" 8] p h v m z
  show ?thesis by simp
qed

subsection \<open>The override gate\<close>

lemma write_returns_cleared:
  assumes "writeZerosAndRespond nicknameRows col overrideExisting skipped st = (Inr u, s', w')"
  shows "cleared s'"
  using assms
  by (auto simp add: writeZerosAndRespond_def io_defs Let_def cleared_resetSession
        split: prod.splits sum.splits)

lemma handleApiError_cleared: "handleApiError e action hint st = (r, s', w') \<Longrightarrow> cleared s'"
  by (auto simp add: handleApiError_def replyErrorAndReset_def io_defs cleared_resetSession)

lemma replyErrorAndReset_cleared: "replyErrorAndReset m st = (r, s', w') \<Longrightarrow> cleared s'"
  by (auto simp add: replyErrorAndReset_def io_defs cleared_resetSession)

lemma guarded_write_cleared:
  assumes "thenDo (tryCatch (writeZerosAndRespond nr col ov sk)
                     (\<lambda>error. handleApiError error action hint)) (ret True) st = (r, s', w')"
  shows "r = Inr True \<and> cleared s'"
proof (cases "writeZerosAndRespond nr col ov sk st")
  case (fields r1 s1 w1)
  show ?thesis
  proof (cases r1)
    case (Inl e)
    obtain r2 s2 w2 where h: "handleApiError e action hint (s1, w1) = (r2, s2, w2)"
      by (cases "handleApiError e action hint (s1, w1)") auto
    from neverThrows_handleApiError [of e action hint] obtain x where "r2 = Inr x"
      using h unfolding neverThrows_def by (metis fst_conv)
    with assms fields Inl h handleApiError_cleared [OF h] show ?thesis
      by (auto simp add: io_defs)
  next
    case (Inr u)
    with assms fields write_returns_cleared [of nr col ov sk st u s1 w1] show ?thesis
      by (auto simp add: io_defs)
  qed
qed

lemma reply_reset_cleared:
  assumes "thenDo (replyErrorAndReset m) (ret True) st = (r, s', w')"
  shows "r = Inr True \<and> cleared s'"
  using assms by (auto simp add: replyErrorAndReset_def io_defs cleared_resetSession)

lemma override_answer_idle:
  assumes "state s = awaiting_override_confirmation" "parseYesNo text = Some answer"
    and "handleOverrideConfirmation text (s, w) = (r, s', w')"
  shows "r = Inr True \<and> cleared s'"
  using assms
  by (cases "nonEmpty (column s)"; cases "nonEmpty (targetColumn s)";
      cases "nicknameRowsEntries s")
     (auto simp add: handleOverrideConfirmation_def withSession_def Let_def
        dest!: guarded_write_cleared reply_reset_cleared)


lemma mapSet_fresh: "k \<notin> fst ` set m \<Longrightarrow> mapSet k v m = m @ [(k, v)]"
  by (induction m) auto

lemma entries_fold:
  "distinct (map fst (acc @ es))
   \<Longrightarrow> foldl (\<lambda>m kv. mapSet (fst kv) (snd kv) m) acc es = acc @ es"
proof (induction es arbitrary: acc)
  case Nil
  then show ?case by simp
next
  case (Cons e es)
  from Cons.prems have f: "fst e \<notin> fst ` set acc" by auto
  from Cons.prems have d: "distinct (map fst ((acc @ [e]) @ es))" by simp
  from Cons.IH [OF d] f show ?case by (simp add: mapSet_fresh)
qed

lemma mapFromEntries_distinct: "distinct (map fst es) \<Longrightarrow> mapFromEntries es = es"
  using entries_fold [of "[]" es] by (simp add: mapFromEntries_def)

lemma rowsToUpdate_fold:
  "distinct (map fst (acc @ es))
   \<Longrightarrow> foldl (\<lambda>rowsToUpdate kv. if fst kv \<in> X then rowsToUpdate
                                  else mapSet (fst kv) (snd kv) rowsToUpdate) acc es
       = acc @ filter (\<lambda>kv. fst kv \<notin> X) es"
proof (induction es arbitrary: acc)
  case Nil
  then show ?case by simp
next
  case (Cons e es)
  from Cons.prems have f: "fst e \<notin> fst ` set acc" by auto
  from Cons.prems have d: "distinct (map fst ((acc @ [e]) @ es))" by simp
  from Cons.prems have d0: "distinct (map fst (acc @ es))" by simp
  show ?case
  proof (cases "fst e \<in> X")
    case True
    with Cons.IH [OF d0] show ?thesis by simp
  next
    case False
    with Cons.IH [OF d] f show ?thesis by (simp add: mapSet_fresh)
  qed
qed

lemma rowsToUpdate_filter:
  "distinct (map fst es)
   \<Longrightarrow> foldl (\<lambda>rowsToUpdate kv. if fst kv \<in> X then rowsToUpdate
                                  else mapSet (fst kv) (snd kv) rowsToUpdate) [] es
       = filter (\<lambda>kv. fst kv \<notin> X) es"
  using rowsToUpdate_fold [of "[]" es X] by simp

lemmas write_defs = writeZerosAndRespond_def writeZeros_def checkExistingValues_def
  io_defs store_defs Let_def

lemma write_without_conflicts:
  assumes "nonEmpty (targetColumn s) = Some col" "nicknameRows \<noteq> []"
    and "pending w = ClientReady # ValueRanges vrs # ClientReady # Updated # rest"
    and "existingIn nicknameRows vrs = Inr []"
  shows "checkOverridesAndWrite nicknameRows (s, w)
     = (Inr (), resetSession s,
        w\<lparr>pending := rest,
           calls := calls w @
             [(InitSheetsClient, ClientReady),
              (ValuesBatchGet (map (\<lambda>kv. cellRef col (snd kv)) nicknameRows), ValueRanges vrs),
              (InitSheetsClient, ClientReady),
              (ValuesBatchUpdate (map (\<lambda>kv. (cellRef col (snd kv), WNum 0)) nicknameRows), Updated)],
           outbox := outbox w @
             [UpdatingSheet,
              UpdateResult col (length nicknameRows) (map fst nicknameRows) []
                (filter (\<lambda>u. u \<notin> fst ` set nicknameRows) (usernames s))]\<rparr>)"
  using assms by (simp add: checkOverridesAndWrite_def write_defs)

lemma ask_with_conflicts:
  assumes "nonEmpty (targetColumn s) = Some col" "nicknameRows \<noteq> []"
    and "pending w = ClientReady # ValueRanges vrs # rest"
    and "existingIn nicknameRows vrs = Inr existingValues" "existingValues \<noteq> []"
  shows "checkOverridesAndWrite nicknameRows (s, w)
     = (Inr (),
        s\<lparr>column := Some col, nicknameRowsEntries := Some nicknameRows,
           existingValuesEntries := Some existingValues,
           state := awaiting_override_confirmation\<rparr>,
        w\<lparr>pending := rest,
           calls := calls w @
             [(InitSheetsClient, ClientReady),
              (ValuesBatchGet (map (\<lambda>kv. cellRef col (snd kv)) nicknameRows), ValueRanges vrs)],
           outbox := outbox w @ [ExistingValuesWarning col existingValues]\<rparr>)"
  using assms by (simp add: checkOverridesAndWrite_def write_defs)

lemma override_confirmed:
  assumes "state s = awaiting_override_confirmation" "parseYesNo answerText = Some Yes"
    and "nonEmpty (column s) = Some col" "nicknameRowsEntries s = Some entries"
    and "entries \<noteq> []" "distinct (map fst entries)"
    and "pending w = ClientReady # Updated # rest"
  shows "handleOverrideConfirmation answerText (s, w)
     = (Inr True, resetSession s,
        w\<lparr>pending := rest,
           calls := calls w @
             [(InitSheetsClient, ClientReady),
              (ValuesBatchUpdate (map (\<lambda>kv. (cellRef col (snd kv), WNum 0)) entries), Updated)],
           outbox := outbox w @
             [UpdatingSheet,
              UpdateResult col (length entries) (map fst entries) []
                (filter (\<lambda>u. u \<notin> fst ` set entries) (usernames s))]\<rparr>)"
  using assms
  by (simp add: handleOverrideConfirmation_def mapFromEntries_distinct write_defs
        split: option.split)

lemma override_declined:
  assumes "state s = awaiting_override_confirmation" "parseYesNo answerText = Some No"
    and "nonEmpty (column s) = Some col" "nicknameRowsEntries s = Some entries"
    and "existingValuesEntries s = Some conflicts"
    and "entries \<noteq> []" "distinct (map fst entries)"
    and "pending w = ClientReady # ValueRanges vrs # Updated # rest"
    and "existingIn entries vrs = Inr current"
    and "filter (\<lambda>kv. fst kv \<notin> nickname ` set current) entries \<noteq> []"
  shows "handleOverrideConfirmation answerText (s, w)
     = (Inr True, resetSession s,
        w\<lparr>pending := rest,
           calls := calls w @
             [(InitSheetsClient, ClientReady),
              (ValuesBatchGet (map (\<lambda>kv. cellRef col (snd kv)) entries), ValueRanges vrs),
              (ValuesBatchUpdate
                 (map (\<lambda>kv. (cellRef col (snd kv), WNum 0))
                    (filter (\<lambda>kv. fst kv \<notin> nickname ` set current) entries)),
               Updated)],
           outbox := outbox w @
             [UpdatingSheet,
              UpdateResult col (length (filter (\<lambda>kv. fst kv \<notin> nickname ` set current) entries))
                (filter (\<lambda>n. n \<notin> nickname ` set conflicts) (map fst entries))
                (map nickname conflicts)
                (filter (\<lambda>u. u \<notin> fst ` set entries) (usernames s))]\<rparr>)"
  using assms
  by (simp add: handleOverrideConfirmation_def mapFromEntries_distinct rowsToUpdate_filter
        write_defs)

lemma override_declined_all_occupied:
  assumes "state s = awaiting_override_confirmation" "parseYesNo answerText = Some No"
    and "nonEmpty (column s) = Some col" "nicknameRowsEntries s = Some entries"
    and "existingValuesEntries s = Some conflicts"
    and "entries \<noteq> []" "distinct (map fst entries)"
    and "pending w = ClientReady # ValueRanges vrs # rest"
    and "existingIn entries vrs = Inr current"
    and "filter (\<lambda>kv. fst kv \<notin> nickname ` set current) entries = []"
  shows "handleOverrideConfirmation answerText (s, w)
     = (Inr True, resetSession s,
        w\<lparr>pending := rest,
           calls := calls w @
             [(InitSheetsClient, ClientReady),
              (ValuesBatchGet (map (\<lambda>kv. cellRef col (snd kv)) entries), ValueRanges vrs)],
           outbox := outbox w @
             [UpdatingSheet,
              UpdateResult col 0
                (filter (\<lambda>n. n \<notin> nickname ` set conflicts) (map fst entries))
                (map nickname conflicts)
                (filter (\<lambda>u. u \<notin> fst ` set entries) (usernames s))]\<rparr>)"
  using assms
  by (simp add: handleOverrideConfirmation_def mapFromEntries_distinct rowsToUpdate_filter
        write_defs)


text \<open>
  C4. With a target column set, matched rows and the client ready: when the check of the
  matched rows finds no occupied cell, \<open>checkOverridesAndWrite\<close> sets the cell of every
  matched row to zero in one update, reports all of them as updated and none as skipped,
  and resets the session; when the check finds occupied cells, nothing is written, the
  column, the matched rows and the occupied cells are stored, the state becomes
  \<open>awaiting_override_confirmation\<close> and the warning is sent. In that state, with the
  stored rows at hand, the answer yes sets the cell of every stored row to zero without
  reading the sheet again and reports none as skipped; the answer no reads the cells
  again, sets to zero the cells of the rows that are not occupied then (making no update
  when all are occupied), and reports the stored conflicting identities as skipped; both
  reset the session. An answer that parses returns \<open>true\<close> with every field of the
  session at its default, whether the write succeeds or fails, and a reset session has
  every field at its default.
\<close>

theorem override_gate:
  "(nonEmpty (targetColumn s) = Some col \<and> nicknameRows \<noteq> []
      \<and> pending w = ClientReady # ValueRanges vrs # ClientReady # Updated # rest
      \<and> existingIn nicknameRows vrs = Inr [] \<longrightarrow>
      checkOverridesAndWrite nicknameRows (s, w)
        = (Inr (), resetSession s,
           w\<lparr>pending := rest,
              calls := calls w @
                [(InitSheetsClient, ClientReady),
                 (ValuesBatchGet (map (\<lambda>kv. cellRef col (snd kv)) nicknameRows), ValueRanges vrs),
                 (InitSheetsClient, ClientReady),
                 (ValuesBatchUpdate (map (\<lambda>kv. (cellRef col (snd kv), WNum 0)) nicknameRows),
                  Updated)],
              outbox := outbox w @
                [UpdatingSheet,
                 UpdateResult col (length nicknameRows) (map fst nicknameRows) []
                   (filter (\<lambda>u. u \<notin> fst ` set nicknameRows) (usernames s))]\<rparr>))
   \<and> (nonEmpty (targetColumn s) = Some col \<and> nicknameRows \<noteq> []
      \<and> pending w = ClientReady # ValueRanges vrs # rest
      \<and> existingIn nicknameRows vrs = Inr existingValues \<and> existingValues \<noteq> [] \<longrightarrow>
      checkOverridesAndWrite nicknameRows (s, w)
        = (Inr (),
           s\<lparr>column := Some col, nicknameRowsEntries := Some nicknameRows,
              existingValuesEntries := Some existingValues,
              state := awaiting_override_confirmation\<rparr>,
           w\<lparr>pending := rest,
              calls := calls w @
                [(InitSheetsClient, ClientReady),
                 (ValuesBatchGet (map (\<lambda>kv. cellRef col (snd kv)) nicknameRows), ValueRanges vrs)],
              outbox := outbox w @ [ExistingValuesWarning col existingValues]\<rparr>))
   \<and> (state s = awaiting_override_confirmation \<and> parseYesNo answerText = Some Yes
      \<and> nonEmpty (column s) = Some col \<and> nicknameRowsEntries s = Some entries
      \<and> entries \<noteq> [] \<and> distinct (map fst entries)
      \<and> pending w = ClientReady # Updated # rest \<longrightarrow>
      handleOverrideConfirmation answerText (s, w)
        = (Inr True, resetSession s,
           w\<lparr>pending := rest,
              calls := calls w @
                [(InitSheetsClient, ClientReady),
                 (ValuesBatchUpdate (map (\<lambda>kv. (cellRef col (snd kv), WNum 0)) entries), Updated)],
              outbox := outbox w @
                [UpdatingSheet,
                 UpdateResult col (length entries) (map fst entries) []
                   (filter (\<lambda>u. u \<notin> fst ` set entries) (usernames s))]\<rparr>))
   \<and> (state s = awaiting_override_confirmation \<and> parseYesNo answerText = Some No
      \<and> nonEmpty (column s) = Some col \<and> nicknameRowsEntries s = Some entries
      \<and> existingValuesEntries s = Some conflicts
      \<and> entries \<noteq> [] \<and> distinct (map fst entries)
      \<and> pending w = ClientReady # ValueRanges vrs # Updated # rest
      \<and> existingIn entries vrs = Inr current
      \<and> filter (\<lambda>kv. fst kv \<notin> nickname ` set current) entries \<noteq> [] \<longrightarrow>
      handleOverrideConfirmation answerText (s, w)
        = (Inr True, resetSession s,
           w\<lparr>pending := rest,
              calls := calls w @
                [(InitSheetsClient, ClientReady),
                 (ValuesBatchGet (map (\<lambda>kv. cellRef col (snd kv)) entries), ValueRanges vrs),
                 (ValuesBatchUpdate
                    (map (\<lambda>kv. (cellRef col (snd kv), WNum 0))
                       (filter (\<lambda>kv. fst kv \<notin> nickname ` set current) entries)),
                  Updated)],
              outbox := outbox w @
                [UpdatingSheet,
                 UpdateResult col
                   (length (filter (\<lambda>kv. fst kv \<notin> nickname ` set current) entries))
                   (filter (\<lambda>n. n \<notin> nickname ` set conflicts) (map fst entries))
                   (map nickname conflicts)
                   (filter (\<lambda>u. u \<notin> fst ` set entries) (usernames s))]\<rparr>))
   \<and> (state s = awaiting_override_confirmation \<and> parseYesNo answerText = Some No
      \<and> nonEmpty (column s) = Some col \<and> nicknameRowsEntries s = Some entries
      \<and> existingValuesEntries s = Some conflicts
      \<and> entries \<noteq> [] \<and> distinct (map fst entries)
      \<and> pending w = ClientReady # ValueRanges vrs # rest
      \<and> existingIn entries vrs = Inr current
      \<and> filter (\<lambda>kv. fst kv \<notin> nickname ` set current) entries = [] \<longrightarrow>
      handleOverrideConfirmation answerText (s, w)
        = (Inr True, resetSession s,
           w\<lparr>pending := rest,
              calls := calls w @
                [(InitSheetsClient, ClientReady),
                 (ValuesBatchGet (map (\<lambda>kv. cellRef col (snd kv)) entries), ValueRanges vrs)],
              outbox := outbox w @
                [UpdatingSheet,
                 UpdateResult col 0
                   (filter (\<lambda>n. n \<notin> nickname ` set conflicts) (map fst entries))
                   (map nickname conflicts)
                   (filter (\<lambda>u. u \<notin> fst ` set entries) (usernames s))]\<rparr>))
   \<and> (state s = awaiting_override_confirmation \<and> parseYesNo answerText = Some answer
      \<and> handleOverrideConfirmation answerText (s, w) = (r, s3, w3) \<longrightarrow>
      r = Inr True \<and> cleared s3)
   \<and> cleared (resetSession s)"
proof (intro conjI impI)
  assume "nonEmpty (targetColumn s) = Some col \<and> nicknameRows \<noteq> []
      \<and> pending w = ClientReady # ValueRanges vrs # ClientReady # Updated # rest
      \<and> existingIn nicknameRows vrs = Inr []"
  then show "checkOverridesAndWrite nicknameRows (s, w)
        = (Inr (), resetSession s,
           w\<lparr>pending := rest,
              calls := calls w @
                [(InitSheetsClient, ClientReady),
                 (ValuesBatchGet (map (\<lambda>kv. cellRef col (snd kv)) nicknameRows), ValueRanges vrs),
                 (InitSheetsClient, ClientReady),
                 (ValuesBatchUpdate (map (\<lambda>kv. (cellRef col (snd kv), WNum 0)) nicknameRows),
                  Updated)],
              outbox := outbox w @
                [UpdatingSheet,
                 UpdateResult col (length nicknameRows) (map fst nicknameRows) []
                   (filter (\<lambda>u. u \<notin> fst ` set nicknameRows) (usernames s))]\<rparr>)"
    by (elim conjE) (rule write_without_conflicts)
next
  assume "nonEmpty (targetColumn s) = Some col \<and> nicknameRows \<noteq> []
      \<and> pending w = ClientReady # ValueRanges vrs # rest
      \<and> existingIn nicknameRows vrs = Inr existingValues \<and> existingValues \<noteq> []"
  then show "checkOverridesAndWrite nicknameRows (s, w)
        = (Inr (),
           s\<lparr>column := Some col, nicknameRowsEntries := Some nicknameRows,
              existingValuesEntries := Some existingValues,
              state := awaiting_override_confirmation\<rparr>,
           w\<lparr>pending := rest,
              calls := calls w @
                [(InitSheetsClient, ClientReady),
                 (ValuesBatchGet (map (\<lambda>kv. cellRef col (snd kv)) nicknameRows), ValueRanges vrs)],
              outbox := outbox w @ [ExistingValuesWarning col existingValues]\<rparr>)"
    by (elim conjE) (rule ask_with_conflicts)
next
  assume "state s = awaiting_override_confirmation \<and> parseYesNo answerText = Some Yes
      \<and> nonEmpty (column s) = Some col \<and> nicknameRowsEntries s = Some entries
      \<and> entries \<noteq> [] \<and> distinct (map fst entries)
      \<and> pending w = ClientReady # Updated # rest"
  then show "handleOverrideConfirmation answerText (s, w)
        = (Inr True, resetSession s,
           w\<lparr>pending := rest,
              calls := calls w @
                [(InitSheetsClient, ClientReady),
                 (ValuesBatchUpdate (map (\<lambda>kv. (cellRef col (snd kv), WNum 0)) entries), Updated)],
              outbox := outbox w @
                [UpdatingSheet,
                 UpdateResult col (length entries) (map fst entries) []
                   (filter (\<lambda>u. u \<notin> fst ` set entries) (usernames s))]\<rparr>)"
    by (elim conjE) (rule override_confirmed)
next
  assume "state s = awaiting_override_confirmation \<and> parseYesNo answerText = Some No
      \<and> nonEmpty (column s) = Some col \<and> nicknameRowsEntries s = Some entries
      \<and> existingValuesEntries s = Some conflicts
      \<and> entries \<noteq> [] \<and> distinct (map fst entries)
      \<and> pending w = ClientReady # ValueRanges vrs # Updated # rest
      \<and> existingIn entries vrs = Inr current
      \<and> filter (\<lambda>kv. fst kv \<notin> nickname ` set current) entries \<noteq> []"
  then show "handleOverrideConfirmation answerText (s, w)
        = (Inr True, resetSession s,
           w\<lparr>pending := rest,
              calls := calls w @
                [(InitSheetsClient, ClientReady),
                 (ValuesBatchGet (map (\<lambda>kv. cellRef col (snd kv)) entries), ValueRanges vrs),
                 (ValuesBatchUpdate
                    (map (\<lambda>kv. (cellRef col (snd kv), WNum 0))
                       (filter (\<lambda>kv. fst kv \<notin> nickname ` set current) entries)),
                  Updated)],
              outbox := outbox w @
                [UpdatingSheet,
                 UpdateResult col
                   (length (filter (\<lambda>kv. fst kv \<notin> nickname ` set current) entries))
                   (filter (\<lambda>n. n \<notin> nickname ` set conflicts) (map fst entries))
                   (map nickname conflicts)
                   (filter (\<lambda>u. u \<notin> fst ` set entries) (usernames s))]\<rparr>)"
    by (elim conjE) (rule override_declined)
next
  assume "state s = awaiting_override_confirmation \<and> parseYesNo answerText = Some No
      \<and> nonEmpty (column s) = Some col \<and> nicknameRowsEntries s = Some entries
      \<and> existingValuesEntries s = Some conflicts
      \<and> entries \<noteq> [] \<and> distinct (map fst entries)
      \<and> pending w = ClientReady # ValueRanges vrs # rest
      \<and> existingIn entries vrs = Inr current
      \<and> filter (\<lambda>kv. fst kv \<notin> nickname ` set current) entries = []"
  then show "handleOverrideConfirmation answerText (s, w)
        = (Inr True, resetSession s,
           w\<lparr>pending := rest,
              calls := calls w @
                [(InitSheetsClient, ClientReady),
                 (ValuesBatchGet (map (\<lambda>kv. cellRef col (snd kv)) entries), ValueRanges vrs)],
              outbox := outbox w @
                [UpdatingSheet,
                 UpdateResult col 0
                   (filter (\<lambda>n. n \<notin> nickname ` set conflicts) (map fst entries))
                   (map nickname conflicts)
                   (filter (\<lambda>u. u \<notin> fst ` set entries) (usernames s))]\<rparr>)"
    by (elim conjE) (rule override_declined_all_occupied)
next
  assume a: "state s = awaiting_override_confirmation \<and> parseYesNo answerText = Some answer
      \<and> handleOverrideConfirmation answerText (s, w) = (r, s3, w3)"
  from a show "r = Inr True" using override_answer_idle [of s answerText answer w r s3 w3] by simp
  from a show "cleared s3" using override_answer_idle [of s answerText answer w r s3 w3] by simp
next
  show "cleared (resetSession s)" by (rule cleared_resetSession)
qed

lemma parseYesNo_examples: "parseYesNo ''no'' = Some No" "parseYesNo ''Yes'' = Some Yes"
  by (simp_all add: parseYesNo_def trim_eval lower_eval lowerChar_def isUpper_def
        char_of_nat_eq)

theorem override_gate_witness:
  "checkOverridesAndWrite [(''@a'', 7), (''@b'', 8)]
     (initialSession\<lparr>state := awaiting_usernames, usernames := [''@a'', ''@b'', ''@c''],
                     targetColumn := Some ''G'', playerCount := Some 2\<rparr>,
      \<lparr>pending = [ClientReady, ValueRanges (Some [None, Some [[CStr '' '']]]), ClientReady, Updated],
       calls = [], outbox = [], activePolls = []\<rparr>)
   = (Inr (), initialSession,
      \<lparr>pending = [],
       calls = [(InitSheetsClient, ClientReady),
                (ValuesBatchGet [[CHR 0x27] @ ''Sheet1'' @ [CHR 0x27] @ ''!G7'', [CHR 0x27] @ ''Sheet1'' @ [CHR 0x27] @ ''!G8''], ValueRanges (Some [None, Some [[CStr '' '']]])),
                (InitSheetsClient, ClientReady),
                (ValuesBatchUpdate [([CHR 0x27] @ ''Sheet1'' @ [CHR 0x27] @ ''!G7'', WNum 0), ([CHR 0x27] @ ''Sheet1'' @ [CHR 0x27] @ ''!G8'', WNum 0)], Updated)],
       outbox = [UpdatingSheet, UpdateResult ''G'' 2 [''@a'', ''@b''] [] [''@c'']],
       activePolls = []\<rparr>)
   \<and> checkOverridesAndWrite [(''@a'', 7), (''@b'', 8)]
     (initialSession\<lparr>state := awaiting_usernames, usernames := [''@a'', ''@b'', ''@c''],
                     targetColumn := Some ''G'', playerCount := Some 2\<rparr>,
      \<lparr>pending = [ClientReady, ValueRanges (Some [Some [[CStr ''5'']], None])],
       calls = [], outbox = [], activePolls = []\<rparr>)
   = (Inr (),
      initialSession\<lparr>state := awaiting_override_confirmation, usernames := [''@a'', ''@b'', ''@c''],
                     targetColumn := Some ''G'', playerCount := Some 2, column := Some ''G'',
                     nicknameRowsEntries := Some [(''@a'', 7), (''@b'', 8)],
                     existingValuesEntries := Some [\<lparr>nickname = ''@a'', cellValue = CStr ''5''\<rparr>]\<rparr>,
      \<lparr>pending = [],
       calls = [(InitSheetsClient, ClientReady),
                (ValuesBatchGet [[CHR 0x27] @ ''Sheet1'' @ [CHR 0x27] @ ''!G7'', [CHR 0x27] @ ''Sheet1'' @ [CHR 0x27] @ ''!G8''], ValueRanges (Some [Some [[CStr ''5'']], None]))],
       outbox = [ExistingValuesWarning ''G'' [\<lparr>nickname = ''@a'', cellValue = CStr ''5''\<rparr>]],
       activePolls = []\<rparr>)
   \<and> handleOverrideConfirmation ''Yes''
     (initialSession\<lparr>state := awaiting_override_confirmation, usernames := [''@a'', ''@b'', ''@c''],
                     targetColumn := Some ''G'', playerCount := Some 2, column := Some ''G'',
                     nicknameRowsEntries := Some [(''@a'', 7), (''@b'', 8)],
                     existingValuesEntries := Some [\<lparr>nickname = ''@a'', cellValue = CStr ''5''\<rparr>]\<rparr>,
      \<lparr>pending = [ClientReady, Updated], calls = [], outbox = [], activePolls = []\<rparr>)
   = (Inr True, initialSession,
      \<lparr>pending = [],
       calls = [(InitSheetsClient, ClientReady),
                (ValuesBatchUpdate [([CHR 0x27] @ ''Sheet1'' @ [CHR 0x27] @ ''!G7'', WNum 0), ([CHR 0x27] @ ''Sheet1'' @ [CHR 0x27] @ ''!G8'', WNum 0)], Updated)],
       outbox = [UpdatingSheet, UpdateResult ''G'' 2 [''@a'', ''@b''] [] [''@c'']],
       activePolls = []\<rparr>)
   \<and> handleOverrideConfirmation ''no''
     (initialSession\<lparr>state := awaiting_override_confirmation, usernames := [''@a'', ''@b'', ''@c''],
                     targetColumn := Some ''G'', playerCount := Some 2, column := Some ''G'',
                     nicknameRowsEntries := Some [(''@a'', 7), (''@b'', 8)],
                     existingValuesEntries := Some [\<lparr>nickname = ''@a'', cellValue = CStr ''5''\<rparr>]\<rparr>,
      \<lparr>pending = [ClientReady, ValueRanges (Some [Some [[CStr ''5'']], None]), Updated],
       calls = [], outbox = [], activePolls = []\<rparr>)
   = (Inr True, initialSession,
      \<lparr>pending = [],
       calls = [(InitSheetsClient, ClientReady),
                (ValuesBatchGet [[CHR 0x27] @ ''Sheet1'' @ [CHR 0x27] @ ''!G7'', [CHR 0x27] @ ''Sheet1'' @ [CHR 0x27] @ ''!G8''], ValueRanges (Some [Some [[CStr ''5'']], None])),
                (ValuesBatchUpdate [([CHR 0x27] @ ''Sheet1'' @ [CHR 0x27] @ ''!G8'', WNum 0)], Updated)],
       outbox = [UpdatingSheet, UpdateResult ''G'' 1 [''@b''] [''@a''] [''@c'']],
       activePolls = []\<rparr>)
   \<and> handleOverrideConfirmation ''no''
     (initialSession\<lparr>state := awaiting_override_confirmation, usernames := [''@a'', ''@b'', ''@c''],
                     targetColumn := Some ''G'', playerCount := Some 2, column := Some ''G'',
                     nicknameRowsEntries := Some [(''@a'', 7), (''@b'', 8)],
                     existingValuesEntries := Some [\<lparr>nickname = ''@a'', cellValue = CStr ''5''\<rparr>]\<rparr>,
      \<lparr>pending = [ClientReady, ValueRanges (Some [Some [[CStr ''5'']], Some [[CStr ''1'']]])],
       calls = [], outbox = [], activePolls = []\<rparr>)
   = (Inr True, initialSession,
      \<lparr>pending = [],
       calls = [(InitSheetsClient, ClientReady),
                (ValuesBatchGet [[CHR 0x27] @ ''Sheet1'' @ [CHR 0x27] @ ''!G7'', [CHR 0x27] @ ''Sheet1'' @ [CHR 0x27] @ ''!G8''],
                 ValueRanges (Some [Some [[CStr ''5'']], Some [[CStr ''1'']]]))],
       outbox = [UpdatingSheet, UpdateResult ''G'' 0 [''@b''] [''@a''] [''@c'']],
       activePolls = []\<rparr>)
   \<and> cleared initialSession"
proof -
  let ?rows = "[(''@a'', 7::nat), (''@b'', 8)]"
  let ?s0 = "initialSession\<lparr>state := awaiting_usernames, usernames := [''@a'', ''@b'', ''@c''],
                     targetColumn := Some ''G'', playerCount := Some 2\<rparr>"
  let ?s1 = "initialSession\<lparr>state := awaiting_override_confirmation,
                     usernames := [''@a'', ''@b'', ''@c''],
                     targetColumn := Some ''G'', playerCount := Some 2, column := Some ''G'',
                     nicknameRowsEntries := Some [(''@a'', 7), (''@b'', 8)],
                     existingValuesEntries := Some [\<lparr>nickname = ''@a'', cellValue = CStr ''5''\<rparr>]\<rparr>"
  let ?free = "Some [None, Some [[CStr '' '']]]"
  let ?taken = "Some [Some [[CStr ''5'']], None]"
  let ?full = "Some [Some [[CStr ''5'']], Some [[CStr ''1'']]]"
  let ?wa = "\<lparr>pending = [ClientReady, ValueRanges ?free, ClientReady, Updated],
              calls = [], outbox = [], activePolls = []\<rparr>"
  let ?wb = "\<lparr>pending = [ClientReady, ValueRanges ?taken], calls = [], outbox = [],
              activePolls = []\<rparr>"
  let ?wc = "\<lparr>pending = [ClientReady, Updated], calls = [], outbox = [], activePolls = []\<rparr>"
  let ?wd = "\<lparr>pending = [ClientReady, ValueRanges ?taken, Updated], calls = [], outbox = [],
              activePolls = []\<rparr>"
  let ?we = "\<lparr>pending = [ClientReady, ValueRanges ?full], calls = [], outbox = [],
              activePolls = []\<rparr>"
  have x: "existingIn ?rows ?free = Inr []"
      "existingIn ?rows ?taken = Inr [\<lparr>nickname = ''@a'', cellValue = CStr ''5''\<rparr>]"
      "existingIn ?rows ?full = Inr [\<lparr>nickname = ''@a'', cellValue = CStr ''5''\<rparr>,
                                       \<lparr>nickname = ''@b'', cellValue = CStr ''1''\<rparr>]"
    by (simp_all add: existingIn_def cellAt_def trim_eval)
  have s: "nonEmpty (targetColumn ?s0) = Some ''G''" "state ?s1 = awaiting_override_confirmation"
      "nonEmpty (column ?s1) = Some ''G''" "nicknameRowsEntries ?s1 = Some ?rows"
      "existingValuesEntries ?s1 = Some [\<lparr>nickname = ''@a'', cellValue = CStr ''5''\<rparr>]"
      "usernames ?s0 = [''@a'', ''@b'', ''@c'']" "usernames ?s1 = [''@a'', ''@b'', ''@c'']"
      "resetSession ?s0 = initialSession" "resetSession ?s1 = initialSession"
    by (simp_all add: initialSession_def resetSession_def)
  have c: "cellRef ''G'' 7 = [CHR 0x27] @ ''Sheet1'' @ [CHR 0x27] @ ''!G7''" "cellRef ''G'' 8 = [CHR 0x27] @ ''Sheet1'' @ [CHR 0x27] @ ''!G8''"
    by (simp_all add: sheet_consts)
  have a1: "checkOverridesAndWrite ?rows (?s0, ?wa)
     = (Inr (), initialSession,
        \<lparr>pending = [],
         calls = [(InitSheetsClient, ClientReady),
                  (ValuesBatchGet [[CHR 0x27] @ ''Sheet1'' @ [CHR 0x27] @ ''!G7'', [CHR 0x27] @ ''Sheet1'' @ [CHR 0x27] @ ''!G8''], ValueRanges ?free),
                  (InitSheetsClient, ClientReady),
                  (ValuesBatchUpdate [([CHR 0x27] @ ''Sheet1'' @ [CHR 0x27] @ ''!G7'', WNum 0), ([CHR 0x27] @ ''Sheet1'' @ [CHR 0x27] @ ''!G8'', WNum 0)], Updated)],
         outbox = [UpdatingSheet, UpdateResult ''G'' 2 [''@a'', ''@b''] [] [''@c'']],
         activePolls = []\<rparr>)"
    using override_gate [where s = ?s0 and col = "''G''" and nicknameRows = ?rows and w = ?wa
        and vrs = ?free and rest = "[]", THEN conjunct1] x s c
    by simp
  have a2: "checkOverridesAndWrite ?rows (?s0, ?wb)
     = (Inr (), ?s1,
        \<lparr>pending = [],
         calls = [(InitSheetsClient, ClientReady),
                  (ValuesBatchGet [[CHR 0x27] @ ''Sheet1'' @ [CHR 0x27] @ ''!G7'', [CHR 0x27] @ ''Sheet1'' @ [CHR 0x27] @ ''!G8''], ValueRanges ?taken)],
         outbox = [ExistingValuesWarning ''G'' [\<lparr>nickname = ''@a'', cellValue = CStr ''5''\<rparr>]],
         activePolls = []\<rparr>)"
    using override_gate [where s = ?s0 and col = "''G''" and nicknameRows = ?rows and w = ?wb
        and vrs = ?taken and rest = "[]"
        and existingValues = "[\<lparr>nickname = ''@a'', cellValue = CStr ''5''\<rparr>]",
        THEN conjunct2, THEN conjunct1] x s c
    by (simp add: initialSession_def)
  have a3: "handleOverrideConfirmation ''Yes'' (?s1, ?wc)
     = (Inr True, initialSession,
        \<lparr>pending = [],
         calls = [(InitSheetsClient, ClientReady),
                  (ValuesBatchUpdate [([CHR 0x27] @ ''Sheet1'' @ [CHR 0x27] @ ''!G7'', WNum 0), ([CHR 0x27] @ ''Sheet1'' @ [CHR 0x27] @ ''!G8'', WNum 0)], Updated)],
         outbox = [UpdatingSheet, UpdateResult ''G'' 2 [''@a'', ''@b''] [] [''@c'']],
         activePolls = []\<rparr>)"
    using override_gate [where s = ?s1 and col = "''G''" and entries = ?rows and w = ?wc
        and answerText = "''Yes''" and rest = "[]",
        THEN conjunct2, THEN conjunct2, THEN conjunct1] parseYesNo_examples s c
    by simp
  have a4: "handleOverrideConfirmation ''no'' (?s1, ?wd)
     = (Inr True, initialSession,
        \<lparr>pending = [],
         calls = [(InitSheetsClient, ClientReady),
                  (ValuesBatchGet [[CHR 0x27] @ ''Sheet1'' @ [CHR 0x27] @ ''!G7'', [CHR 0x27] @ ''Sheet1'' @ [CHR 0x27] @ ''!G8''], ValueRanges ?taken),
                  (ValuesBatchUpdate [([CHR 0x27] @ ''Sheet1'' @ [CHR 0x27] @ ''!G8'', WNum 0)], Updated)],
         outbox = [UpdatingSheet, UpdateResult ''G'' 1 [''@b''] [''@a''] [''@c'']],
         activePolls = []\<rparr>)"
    using override_gate [where s = ?s1 and col = "''G''" and entries = ?rows and w = ?wd
        and answerText = "''no''" and rest = "[]" and vrs = ?taken
        and conflicts = "[\<lparr>nickname = ''@a'', cellValue = CStr ''5''\<rparr>]"
        and current = "[\<lparr>nickname = ''@a'', cellValue = CStr ''5''\<rparr>]",
        THEN conjunct2, THEN conjunct2, THEN conjunct2, THEN conjunct1] parseYesNo_examples x s c
    by simp
  have a5: "handleOverrideConfirmation ''no'' (?s1, ?we)
     = (Inr True, initialSession,
        \<lparr>pending = [],
         calls = [(InitSheetsClient, ClientReady),
                  (ValuesBatchGet [[CHR 0x27] @ ''Sheet1'' @ [CHR 0x27] @ ''!G7'', [CHR 0x27] @ ''Sheet1'' @ [CHR 0x27] @ ''!G8''], ValueRanges ?full)],
         outbox = [UpdatingSheet, UpdateResult ''G'' 0 [''@b''] [''@a''] [''@c'']],
         activePolls = []\<rparr>)"
    using override_gate [where s = ?s1 and col = "''G''" and entries = ?rows and w = ?we
        and answerText = "''no''" and rest = "[]" and vrs = ?full
        and conflicts = "[\<lparr>nickname = ''@a'', cellValue = CStr ''5''\<rparr>]"
        and current = "[\<lparr>nickname = ''@a'', cellValue = CStr ''5''\<rparr>,
                        \<lparr>nickname = ''@b'', cellValue = CStr ''1''\<rparr>]",
        THEN conjunct2, THEN conjunct2, THEN conjunct2, THEN conjunct2, THEN conjunct1]
      parseYesNo_examples x s c
    by simp
  have a6: "cleared initialSession"
    using override_gate [where s = ?s0, THEN conjunct2, THEN conjunct2, THEN conjunct2,
        THEN conjunct2, THEN conjunct2, THEN conjunct2] s
    by simp
  from a1 a2 a3 a4 a5 a6 show ?thesis by simp
qed

subsection \<open>A column letter in place of yes or no\<close>

lemma upperChar_lowerChar: "upperChar (lowerChar c) = upperChar c"
  by (auto simp add: upperChar_def lowerChar_def isUpper_def isLower_def)

lemma handlers2_skip:
  "state s \<noteq> awaiting_poll_intent \<Longrightarrow> handlePollIntent t (s, w) = (Inr False, s, w)"
  "state s \<noteq> awaiting_poll_option_selection \<Longrightarrow>
     handlePollOptionSelection lib t (s, w) = (Inr False, s, w)"
  by (simp_all add: handlers_skip)

lemma column_letter_adopted:
  assumes "state s = awaiting_column_confirmation" "isColumnLetterToken (trim t)"
    "parseYesNo t = None"
  shows "handleColumnConfirmation2 lib t (s, w)
     = thenDo (proceedWithMetadataCollection lib) (ret True)
         (s\<lparr>targetColumn := Some (toUpperCase (trim t)), isNewColumn := Some False\<rparr>, w)"
proof -
  have "parseYesNo (trim t) = None"
    using assms(3) by (simp add: parseYesNo_def trim_idem)
  with assms(1,2) show ?thesis
    by (simp add: handleColumnConfirmation2_def withSession_def Let_def thenDo_def andThen_def
          setSession_def)
qed

lemma onMessageText2_column_letter:
  assumes "state s = awaiting_column_confirmation"
    "isColumnLetterToken (toLowerCase (trim messageText))"
    "parseYesNo messageText = None"
  shows "onMessageText2 lib messageText (s, w)
     = thenDo (proceedWithMetadataCollection lib) (ret ())
         (s\<lparr>targetColumn := Some (toUpperCase (toLowerCase (trim messageText))),
            isNewColumn := Some False\<rparr>, w)"
proof -
  let ?t = "toLowerCase (trim messageText)"
  have tt: "trim ?t = ?t" by (simp add: trim_toLowerCase_trim)
  have p: "parseYesNo ?t = None" using assms(3) by (simp add: parseYesNo_normalized)
  have h: "handleColumnConfirmation2 lib ?t (s, w)
     = thenDo (proceedWithMetadataCollection lib) (ret True)
         (s\<lparr>targetColumn := Some (toUpperCase ?t), isNewColumn := Some False\<rparr>, w)"
    using column_letter_adopted [OF assms(1) _ p, of lib w] assms(2) by (simp add: tt)
  have skip: "handlePollIntent ?t (s, w) = (Inr False, s, w)"
     "handlePollOptionSelection lib (trim messageText) (s, w) = (Inr False, s, w)"
    using assms(1) by (simp_all add: handlers_skip)
  obtain r st' where run: "proceedWithMetadataCollection lib
      (s\<lparr>targetColumn := Some (toUpperCase ?t), isNewColumn := Some False\<rparr>, w) = (r, st')"
    by (cases "proceedWithMetadataCollection lib
      (s\<lparr>targetColumn := Some (toUpperCase ?t), isNewColumn := Some False\<rparr>, w)") auto
  show ?thesis
    by (cases r)
       (simp_all add: onMessageText2_def onMessageText_with_def Let_def orElse_declined skip
          orElse_def h run andThen_def thenDo_def ret_def)
qed


lemma token_ascii: "isColumnLetterToken t \<Longrightarrow> CHR 0xD0 \<notin> set t"
  by (auto simp add: isColumnLetterToken_def list_all_iff isUpper_def isLower_def)

lemma isColumnLetterToken_toLowerCase:
  assumes "isColumnLetterToken t"
  shows "isColumnLetterToken (toLowerCase t)"
proof -
  have "\<And>c. (isUpper (lowerChar c) \<or> isLower (lowerChar c)) = (isUpper c \<or> isLower c)"
    by (auto simp add: lowerChar_def isUpper_def isLower_def)
  with assms show ?thesis
    by (simp add: toLowerCase_ascii [OF token_ascii [OF assms]] isColumnLetterToken_def list_all_iff)
qed

lemma toUpperCase_toLowerCase:
  assumes "isColumnLetterToken t"
  shows "toUpperCase (toLowerCase t) = toUpperCase t"
  by (simp add: toLowerCase_ascii [OF token_ascii [OF assms]] toUpperCase_def upperChar_lowerChar)

text \<open>
  C5, as the code has it. The handler looks for yes or no first, and \<open>n\<close>, \<open>y\<close> and
  \<open>no\<close> are column-letter tokens: the message \<open>N\<close> does not make column N the target;
  it is the answer no, and the new column H after the detected column G is started.
\<close>

theorem column_letter_N_is_no:
  "isColumnLetterToken ''N''
   \<and> onMessageText2 noNumbers ''N''
       (\<lparr>state = awaiting_column_confirmation, usernames = [], detectedColumn = Some ''G'',
         targetColumn = Some ''G'', isNewColumn = None, dateName = None, cost = None,
         playerCount = None, column = None, nicknameRowsEntries = None,
         existingValuesEntries = None, pollId = None, pollQuestion = None, columnMatches = None\<rparr>,
        \<lparr>pending = [], calls = [], outbox = [], activePolls = []\<rparr>)
     = (Inr (),
        \<lparr>state = awaiting_date_name, usernames = [], detectedColumn = Some ''G'',
         targetColumn = Some ''H'', isNewColumn = Some True, dateName = None, cost = None,
         playerCount = None, column = None, nicknameRowsEntries = None,
         existingValuesEntries = None, pollId = None, pollQuestion = None, columnMatches = None\<rparr>,
        \<lparr>pending = [], calls = [], outbox = [AskDateName ''H''], activePolls = []\<rparr>)"
  by (simp add: isColumnLetterToken_def isUpper_def onMessageText2_def onMessageText_with_def
        Let_def orElse_declined orElse_handled handlers_skip handleColumnConfirmation2_def
        parseYesNo_def trim_eval lower_eval lowerChar_def io_defs
        askForDateName_def getNextColumnLetter_examples char_of_nat_eq
        getNextColumnLetter_def indexToColumnLetter_def columnLetterToIndex_def loops char_of_int_eq)

text \<open>
  C5, amended. In state \<open>awaiting_column_confirmation\<close>, for every message that after
  trimming is one or two letters and that does not parse as yes or no, the later revision
  of the handler makes the upper-cased letters the target column, marks it as not new,
  and goes on with the metadata phase without asking for confirmation.
\<close>

theorem column_letter_token_adopted:
  "state s = awaiting_column_confirmation \<and> isColumnLetterToken (trim messageText)
     \<and> parseYesNo messageText = None \<longrightarrow>
     handleColumnConfirmation2 lib messageText (s, w)
       = thenDo (proceedWithMetadataCollection lib) (ret True)
           (s\<lparr>targetColumn := Some (toUpperCase (trim messageText)), isNewColumn := Some False\<rparr>, w)
   \<and> onMessageText2 lib messageText (s, w)
       = thenDo (proceedWithMetadataCollection lib) (ret ())
           (s\<lparr>targetColumn := Some (toUpperCase (trim messageText)), isNewColumn := Some False\<rparr>, w)"
  using column_letter_adopted [of s messageText lib w]
    onMessageText2_column_letter [of s messageText lib w]
  by (simp add: isColumnLetterToken_toLowerCase toUpperCase_toLowerCase)

lemma metadata_phase_run:
  "thenDo (proceedWithMetadataCollection noNumbers) (ret ())
     (\<lparr>state = awaiting_column_confirmation, usernames = [], detectedColumn = Some ''F'',
       targetColumn = Some ''F'', isNewColumn = None, dateName = None, cost = None,
       playerCount = None, column = None, nicknameRowsEntries = None,
       existingValuesEntries = None, pollId = None, pollQuestion = None, columnMatches = None\<rparr>
      \<lparr>targetColumn := Some ''G'', isNewColumn := Some False\<rparr>,
      \<lparr>pending = [ClientReady, Values (Some [[CStr ''Sep 14 ''], [CStr ''fifty'']])],
       calls = [], outbox = [], activePolls = []\<rparr>)
   = (Inr (),
      \<lparr>state = awaiting_cost, usernames = [], detectedColumn = Some ''F'',
       targetColumn = Some ''G'', isNewColumn = Some False, dateName = Some ''Sep 14'', cost = None,
       playerCount = None, column = None, nicknameRowsEntries = None,
       existingValuesEntries = None, pollId = None, pollQuestion = None, columnMatches = None\<rparr>,
      \<lparr>pending = [],
       calls = [(InitSheetsClient, ClientReady),
                (ValuesGet ([CHR 0x27] @ ''Sheet1'' @ [CHR 0x27] @ ''!G1:G3''),
                 Values (Some [[CStr ''Sep 14 ''], [CStr ''fifty'']]))],
       outbox = [NoCostSpecified ''G''], activePolls = []\<rparr>)"
  by (simp add: proceedWithMetadataCollection_def io_defs store_defs Let_def getColumnMetadata_def
        metadataOf_def occupiedCell_def cellAt_def trim_eval noNumbers_def
        sheet_consts)

lemma token_g: "isColumnLetterToken (trim '' g'')" "parseYesNo '' g'' = None"
  "toUpperCase (trim '' g'') = ''G''"
  by (simp_all add: isColumnLetterToken_def isUpper_def isLower_def trim_eval
        parseYesNo_def lower_eval lowerChar_def toUpperCase_def upperChar_def char_of_nat_eq)

theorem column_letter_token_adopted_witness:
  "isColumnLetterToken (trim '' g'') \<and> parseYesNo '' g'' = None
   \<and> onMessageText2 noNumbers '' g''
       (\<lparr>state = awaiting_column_confirmation, usernames = [], detectedColumn = Some ''F'',
         targetColumn = Some ''F'', isNewColumn = None, dateName = None, cost = None,
         playerCount = None, column = None, nicknameRowsEntries = None,
         existingValuesEntries = None, pollId = None, pollQuestion = None, columnMatches = None\<rparr>,
        \<lparr>pending = [ClientReady, Values (Some [[CStr ''Sep 14 ''], [CStr ''fifty'']])],
         calls = [], outbox = [], activePolls = []\<rparr>)
     = (Inr (),
        \<lparr>state = awaiting_cost, usernames = [], detectedColumn = Some ''F'',
         targetColumn = Some ''G'', isNewColumn = Some False, dateName = Some ''Sep 14'', cost = None,
         playerCount = None, column = None, nicknameRowsEntries = None,
         existingValuesEntries = None, pollId = None, pollQuestion = None, columnMatches = None\<rparr>,
        \<lparr>pending = [],
         calls = [(InitSheetsClient, ClientReady),
                  (ValuesGet ([CHR 0x27] @ ''Sheet1'' @ [CHR 0x27] @ ''!G1:G3''),
                   Values (Some [[CStr ''Sep 14 ''], [CStr ''fifty'']]))],
         outbox = [NoCostSpecified ''G''], activePolls = []\<rparr>)"
  using column_letter_token_adopted
    [where s = "\<lparr>state = awaiting_column_confirmation, usernames = [], detectedColumn = Some ''F'',
         targetColumn = Some ''F'', isNewColumn = None, dateName = None, cost = None,
         playerCount = None, column = None, nicknameRowsEntries = None,
         existingValuesEntries = None, pollId = None, pollQuestion = None, columnMatches = None\<rparr>"
       and messageText = "'' g''" and lib = noNumbers
       and w = "\<lparr>pending = [ClientReady, Values (Some [[CStr ''Sep 14 ''], [CStr ''fifty'']])],
         calls = [], outbox = [], activePolls = []\<rparr>"]
    token_g metadata_phase_run
  by simp

end
